theory Spec2Isabelle
  imports Complex_Main "HOL-Library.AList"
begin

section \<open>Strings and JavaScript values\<close>

text \<open>
  The program is \<^verbatim>\<open>generate-csv-column.js\<close> (the current script) together with an
  earlier revision of the same script, whose batch function retries a whole batch at once.

  A JavaScript string is modelled as a \<^typ>\<open>string\<close>, each character read as one code unit
  below 256. With that reading the class \<^verbatim>\<open>\w\<close> of a regular expression is
  \<^verbatim>\<open>[A-Za-z0-9_]\<close>, and the class \<^verbatim>\<open>\s\<close>, which is also the set of characters
  removed by \<^verbatim>\<open>String.prototype.trim\<close>, is tab, line feed, vertical tab, form feed,
  carriage return, space and no-break space.
\<close>

definition is_word :: "char \<Rightarrow> bool" where
  "is_word c \<longleftrightarrow>
     c \<in> set ''ABCDEFGHIJKLMNOPQRSTUVWXYZabcdefghijklmnopqrstuvwxyz0123456789_''"

definition is_space :: "char \<Rightarrow> bool" where
  "is_space c \<longleftrightarrow>
     c \<in> set [CHR 0x09, CHR 0x0A, CHR 0x0B, CHR 0x0C, CHR 0x0D, CHR 0x20, CHR 0xA0]"

definition trim :: "string \<Rightarrow> string" where
  "trim s = rev (dropWhile is_space (rev (dropWhile is_space s)))"

text \<open>\<^verbatim>\<open>Array.prototype.join\<close> on an array of strings.\<close>

fun join :: "string \<Rightarrow> string list \<Rightarrow> string" where
  "join sep [] = []"
| "join sep [x] = x"
| "join sep (x # y # ys) = x @ sep @ join sep (y # ys)"

text \<open>Decimal rendering of a non-negative integer, as a template literal prints it.\<close>

fun show_nat :: "nat \<Rightarrow> string" where
  "show_nat n =
     (if n < 10 then [char_of (48 + n)] else show_nat (n div 10) @ [char_of (48 + n mod 10)])"

declare show_nat.simps [simp del]

text \<open>
  Values that reach the program from JSON text, from the CSV reader or from the HTTP
  library. A number is carried as a rational: the program never computes with one except to
  test it for zero, to add it (through the runtime's \<^verbatim>\<open>+\<close>) and to print it (through the
  runtime's number formatting), and the last two are parameters of the model. An object is
  the list of its own properties in insertion order. The last two kinds are what a read
  finds on the prototype chain of such a value: a built-in function, given by its name, and
  one of the prototype objects \<^verbatim>\<open>Object.prototype\<close>, \<^verbatim>\<open>Array.prototype\<close>,
  \<^verbatim>\<open>String.prototype\<close>, \<^verbatim>\<open>Number.prototype\<close> and \<^verbatim>\<open>Boolean.prototype\<close>, given by the
  name of its constructor. The program stores and prints values of these two kinds and
  never reads a property of one.
\<close>

datatype jsval =
    JNull
  | JBool bool
  | JNum rat
  | JStr string
  | JArr "jsval list"
  | JObj "(string \<times> jsval) list"
  | JFun string
  | JProto string

text \<open>\<^verbatim>\<open>ToBoolean\<close>.\<close>

fun truthy :: "jsval \<Rightarrow> bool" where
  "truthy JNull = False"
| "truthy (JBool b) = b"
| "truthy (JNum n) = (n \<noteq> 0)"
| "truthy (JStr s) = (s \<noteq> [])"
| "truthy (JArr xs) = True"
| "truthy (JObj kvs) = True"
| "truthy (JFun name) = True"
| "truthy (JProto name) = True"

text \<open>
  \<^verbatim>\<open>ToString\<close>, with the runtime's number formatting as the parameter \<open>num\<close>. An array
  prints its elements joined by commas, a \<^verbatim>\<open>null\<close> element as the empty string. A
  built-in function prints as \<^verbatim>\<open>function name() { [native code] }\<close>. Of the prototype
  objects, \<^verbatim>\<open>Array.prototype\<close> is an empty array and those of the primitive types wrap
  the empty string, \<^verbatim>\<open>0\<close> and \<^verbatim>\<open>false\<close>.
\<close>

fun to_string :: "(rat \<Rightarrow> string) \<Rightarrow> jsval \<Rightarrow> string" where
  "to_string num JNull = ''null''"
| "to_string num (JBool b) = (if b then ''true'' else ''false'')"
| "to_string num (JNum n) = num n"
| "to_string num (JStr s) = s"
| "to_string num (JArr xs) =
     join '','' (map (\<lambda>x. if x = JNull then [] else to_string num x) xs)"
| "to_string num (JObj kvs) = ''[object Object]''"
| "to_string num (JFun name) = ''function '' @ name @ ''() { [native code] }''"
| "to_string num (JProto name) =
     (if name = ''Object'' then ''[object Object]''
      else if name = ''Number'' then ''0''
      else if name = ''Boolean'' then ''false''
      else [])"

text \<open>
  The properties a value inherits. Every value but \<^verbatim>\<open>null\<close> ends its prototype chain in
  \<^verbatim>\<open>Object.prototype\<close>; arrays, strings, numbers and booleans have the prototype of their
  type in front of it. The tables list the string-named properties of these objects in
  ECMAScript 2023 with its Annex B, the built-ins of the Node.js releases the script runs
  on; all of them are functions but \<^verbatim>\<open>__proto__\<close>, which evaluates to the prototype of the
  value read from, and the name of each function is its key, except for \<^verbatim>\<open>constructor\<close>
  and the two aliases \<^verbatim>\<open>trimLeft\<close> and \<^verbatim>\<open>trimRight\<close>.
\<close>

definition object_members :: "string list" where
  "object_members =
     [''__defineGetter__'', ''__defineSetter__'', ''hasOwnProperty'', ''__lookupGetter__'',
      ''__lookupSetter__'', ''isPrototypeOf'', ''propertyIsEnumerable'', ''toString'',
      ''valueOf'', ''toLocaleString'']"

definition array_members :: "string list" where
  "array_members =
     [''at'', ''concat'', ''copyWithin'', ''fill'', ''find'', ''findIndex'', ''findLast'',
      ''findLastIndex'', ''lastIndexOf'', ''pop'', ''push'', ''reverse'', ''shift'', ''unshift'',
      ''slice'', ''sort'', ''splice'', ''includes'', ''indexOf'', ''join'', ''keys'', ''entries'',
      ''values'', ''forEach'', ''filter'', ''flat'', ''flatMap'', ''map'', ''every'', ''some'',
      ''reduce'', ''reduceRight'', ''toLocaleString'', ''toString'', ''toReversed'', ''toSorted'',
      ''toSpliced'', ''with'']"

definition string_members :: "string list" where
  "string_members =
     [''anchor'', ''at'', ''big'', ''blink'', ''bold'', ''charAt'', ''charCodeAt'',
      ''codePointAt'', ''concat'', ''endsWith'', ''fontcolor'', ''fontsize'', ''fixed'',
      ''includes'', ''indexOf'', ''isWellFormed'', ''italics'', ''lastIndexOf'', ''link'',
      ''localeCompare'', ''match'', ''matchAll'', ''normalize'', ''padEnd'', ''padStart'',
      ''repeat'', ''replace'', ''replaceAll'', ''search'', ''slice'', ''small'', ''split'',
      ''strike'', ''sub'', ''substr'', ''substring'', ''sup'', ''startsWith'', ''toString'',
      ''toWellFormed'', ''trim'', ''trimStart'', ''trimLeft'', ''trimEnd'', ''trimRight'',
      ''toLocaleLowerCase'', ''toLocaleUpperCase'', ''toLowerCase'', ''toUpperCase'',
      ''valueOf'']"

definition number_members :: "string list" where
  "number_members =
     [''toExponential'', ''toFixed'', ''toPrecision'', ''toString'', ''valueOf'',
      ''toLocaleString'']"

definition boolean_members :: "string list" where
  "boolean_members = [''toString'', ''valueOf'']"

definition members :: "string \<Rightarrow> string list" where
  "members proto =
     (if proto = ''Array'' then array_members
      else if proto = ''String'' then string_members
      else if proto = ''Number'' then number_members
      else if proto = ''Boolean'' then boolean_members
      else [])"

definition function_name :: "string \<Rightarrow> string" where
  "function_name k =
     (if k = ''trimLeft'' then ''trimStart'' else if k = ''trimRight'' then ''trimEnd'' else k)"

definition inherited :: "string \<Rightarrow> string \<Rightarrow> jsval option" where
  "inherited proto k =
     (if k = ''__proto__'' then Some (JProto proto)
      else if k = ''constructor'' then Some (JFun proto)
      else if k \<in> set (members proto) \<or> k \<in> set object_members then Some (JFun (function_name k))
      else None)"

text \<open>
  Reading a property. \<open>None\<close> is \<^verbatim>\<open>undefined\<close>. An own property comes first: those of an
  object, and for an array and a string the \<^verbatim>\<open>length\<close> and the elements, under the
  decimal rendering of the index; then the prototype chain. Reading a property of
  \<^verbatim>\<open>null\<close> throws in JavaScript: the callers below test for \<open>JNull\<close> before they read.
\<close>

definition index_get :: "'a list \<Rightarrow> string \<Rightarrow> 'a option" where
  "index_get xs k =
     (case filter (\<lambda>i. show_nat i = k) [0..<length xs] of [] \<Rightarrow> None | i # _ \<Rightarrow> Some (xs ! i))"

fun first_of :: "'a option \<Rightarrow> 'a option \<Rightarrow> 'a option" where
  "first_of (Some v) proto = Some v"
| "first_of None proto = proto"

fun js_get :: "jsval \<Rightarrow> string \<Rightarrow> jsval option" where
  "js_get (JObj kvs) k = first_of (map_of kvs k) (inherited ''Object'' k)"
| "js_get (JArr xs) k =
     first_of (if k = ''length'' then Some (JNum (of_nat (length xs))) else index_get xs k)
       (inherited ''Array'' k)"
| "js_get (JStr s) k =
     first_of (if k = ''length'' then Some (JNum (of_nat (length s)))
               else map_option (\<lambda>c. JStr [c]) (index_get s k))
       (inherited ''String'' k)"
| "js_get (JNum n) k = inherited ''Number'' k"
| "js_get (JBool b) k = inherited ''Boolean'' k"
| "js_get v k = None"

text \<open>The idiom \<^verbatim>\<open>value || fallback\<close>.\<close>

definition or_else :: "jsval option \<Rightarrow> jsval \<Rightarrow> jsval" where
  "or_else v d = (case v of None \<Rightarrow> d | Some x \<Rightarrow> if truthy x then x else d)"

text \<open>
  A row of the table: the record the CSV reader built, a plain object whose fields are
  filled in place by each column. \<open>row_get\<close> is the read \<^verbatim>\<open>row[name]\<close>, which finds the
  row's own fields and then what every object inherits. \<open>row_set\<close> is the assignment
  \<^verbatim>\<open>row[name] = value\<close>: an existing field keeps its position, a new one goes last. The
  model covers field names other than \<^verbatim>\<open>__proto__\<close>: JavaScript hands an assignment to
  that name to the prototype setter, which \<open>row_set\<close> does not follow.
\<close>

type_synonym row = "(string \<times> jsval) list"

definition row_get :: "row \<Rightarrow> string \<Rightarrow> jsval option" where
  "row_get r k = first_of (map_of r k) (inherited ''Object'' k)"

definition row_set :: "row \<Rightarrow> string \<Rightarrow> jsval \<Rightarrow> row" where
  "row_set r k v = AList.update k v r"

text \<open>
  \<^verbatim>\<open>Object.keys(row)\<close>: the keys that are array indices (the decimal rendering of an
  integer below \<open>2\<^sup>3\<^sup>2 - 1\<close>) in ascending numeric order, then the other keys in the
  order of their creation.
\<close>

definition index_value :: "string \<Rightarrow> nat" where
  "index_value k = foldl (\<lambda>n c. 10 * n + (of_char c - 48)) 0 k"

definition is_array_index :: "string \<Rightarrow> bool" where
  "is_array_index k \<longleftrightarrow>
     k \<noteq> [] \<and> filter (\<lambda>c. c \<notin> set ''0123456789'') k = []
     \<and> (if hd k = CHR ''0'' then k = ''0'' else True)
     \<and> index_value k < 4294967295"

definition object_keys :: "row \<Rightarrow> string list" where
  "object_keys r =
     sort_key index_value (filter is_array_index (map fst r))
     @ filter (\<lambda>k. \<not> is_array_index k) (map fst r)"

section \<open>Template Filler\<close>

text \<open>
  \<^verbatim>\<open>
  function fillPromptTemplate(prompt, rowData) {
    return prompt.replace(/\{\{(\w+(?:\s+\w+)*)\}\}/g, (match, columnName) => {
      const value = rowData[columnName];
      return value !== undefined ? value : match;
    });
  }
  \<close>
  The regular expression is read as the automaton it denotes. After the two opening braces
  and a first word character the matcher is inside a word (\<open>in_word\<close>): a word character
  stays there, a space character moves to \<open>in_space\<close>, and two closing braces accept. Inside
  a run of spaces only a further space or a word character can follow. The three character
  sets are disjoint, so at a given position the expression matches at most one substring and
  backtracking never finds another. Both functions return the captured name from the current
  position on and the text behind the closing braces.
\<close>

fun in_word :: "string \<Rightarrow> (string \<times> string) option"
  and in_space :: "string \<Rightarrow> (string \<times> string) option" where
  "in_word [] = None"
| "in_word (c # cs) =
     (if is_word c then map_option (\<lambda>(n, r). (c # n, r)) (in_word cs)
      else if is_space c then map_option (\<lambda>(n, r). (c # n, r)) (in_space cs)
      else if c = CHR ''}'' then
        (case cs of [] \<Rightarrow> None | d # r \<Rightarrow> if d = CHR ''}'' then Some ([], r) else None)
      else None)"
| "in_space [] = None"
| "in_space (c # cs) =
     (if is_space c then map_option (\<lambda>(n, r). (c # n, r)) (in_space cs)
      else if is_word c then map_option (\<lambda>(n, r). (c # n, r)) (in_word cs)
      else None)"

text \<open>A match of the whole expression at the start of the text.\<close>

definition match_placeholder :: "string \<Rightarrow> (string \<times> string) option" where
  "match_placeholder s =
     (case s of
        a # b # c # cs \<Rightarrow>
          if a = CHR ''{'' \<and> b = CHR ''{'' \<and> is_word c
          then map_option (\<lambda>(n, r). (c # n, r)) (in_word cs) else None
      | _ \<Rightarrow> None)"

lemma in_word_shorter:
  "(in_word s = Some (n, r) \<longrightarrow> length r < length s) \<and>
   (in_space s = Some (n, r) \<longrightarrow> length r < length s)"
proof (induction s arbitrary: n)
  case Nil
  show ?case by simp
next
  case (Cons c cs)
  have iw: "\<And>m. in_word cs = Some (m, r) \<Longrightarrow> length r < length cs"
    using Cons.IH by blast
  have isp: "\<And>m. in_space cs = Some (m, r) \<Longrightarrow> length r < length cs"
    using Cons.IH by blast
  have 1: "in_word (c # cs) = Some (n, r) \<Longrightarrow> length r < length (c # cs)"
    by (auto split: if_splits list.splits dest: iw isp)
  have 2: "in_space (c # cs) = Some (n, r) \<Longrightarrow> length r < length (c # cs)"
    by (auto split: if_splits dest: iw isp)
  show ?case using 1 2 by blast
qed

lemma match_placeholder_shorter:
  assumes "match_placeholder s = Some (n, r)"
  shows "length r < length s"
proof -
  from assms obtain a b c cs where s: "s = a # b # c # cs"
    unfolding match_placeholder_def by (auto split: list.splits)
  with assms obtain m where "in_word cs = Some (m, r)"
    unfolding match_placeholder_def by (auto split: if_splits)
  then have "length r < length cs" using in_word_shorter by blast
  then show ?thesis using s by simp
qed

text \<open>
  The global replace scans from the left: where the expression matches, the callback's
  result is emitted and the scan resumes behind the match; elsewhere one character is
  copied. The callback returns the field's value, which \<^verbatim>\<open>replace\<close> converts to a string,
  or the matched text itself when the row has no such field.
\<close>

function fillPromptTemplate :: "(rat \<Rightarrow> string) \<Rightarrow> string \<Rightarrow> row \<Rightarrow> string" where
  "fillPromptTemplate num [] rowData = []"
| "fillPromptTemplate num (c # cs) rowData =
     (case match_placeholder (c # cs) of
        None \<Rightarrow> c # fillPromptTemplate num cs rowData
      | Some (columnName, rest) \<Rightarrow>
          (case row_get rowData columnName of
             Some v \<Rightarrow> to_string num v
           | None \<Rightarrow> ''{{'' @ columnName @ ''}}'')
          @ fillPromptTemplate num rest rowData)"
  by pat_completeness auto
termination
  by (relation "measure (\<lambda>(num, s, rowData). length s)")
     (auto dest: match_placeholder_shorter)

declare fillPromptTemplate.simps [simp del]

text \<open>
  The names the expression can capture: word characters and spaces only, a word character
  first and last.
\<close>

definition wf_name :: "string \<Rightarrow> bool" where
  "wf_name n \<longleftrightarrow>
     n \<noteq> [] \<and> is_word (hd n) \<and> is_word (last n) \<and> (\<forall>c \<in> set n. is_word c \<or> is_space c)"


section \<open>Runtime and external collaborators\<close>

text \<open>
  What the JavaScript engine supplies is a parameter of the model: number formatting, the
  JSON codec (\<open>None\<close> from \<open>json_parse\<close> is a \<^verbatim>\<open>SyntaxError\<close>), the operator \<^verbatim>\<open>+\<close> on
  two values, and the message of the \<^verbatim>\<open>TypeError\<close> raised on a response body without the
  expected content.
\<close>

record runtime =
  number_to_string :: "rat \<Rightarrow> string"
  json_parse :: "string \<Rightarrow> jsval option"
  json_stringify :: "jsval \<Rightarrow> string"
  js_plus :: "jsval \<Rightarrow> jsval \<Rightarrow> jsval"
  type_error_message :: "jsval \<Rightarrow> string"

text \<open>
  An error as the program inspects it: its \<^verbatim>\<open>message\<close> and, when the HTTP library attached
  one, the \<^verbatim>\<open>response\<close> with its \<^verbatim>\<open>status\<close> and \<^verbatim>\<open>data\<close>.
\<close>

record http_failure =
  r_status :: nat
  r_data :: "jsval option"

record js_error =
  e_message :: string
  e_response :: "http_failure option"

text \<open>
  The body posted to the model API. The message list holds the one user message with the
  prompt as content and \<^verbatim>\<open>usage.include\<close> is always set, so neither is a field.
\<close>

record request =
  q_model :: string
  q_content :: string
  q_plugins :: "jsval option"
  q_web_search_options :: "jsval option"

record api_result =
  a_result :: string
  a_cost :: jsval
  a_promptTokens :: jsval
  a_completionTokens :: jsval
  a_totalTokens :: jsval


section \<open>Model Invoker\<close>

text \<open>
  \<^verbatim>\<open>callOpenRouterAPI(modelName, prompt, plugins = null, webSearchOptions = null)\<close>.
  The request carries \<^verbatim>\<open>plugins\<close> only for a non-empty array and
  \<^verbatim>\<open>web_search_options\<close> only for a truthy value.
\<close>

definition requestBody :: "string \<Rightarrow> string \<Rightarrow> jsval option \<Rightarrow> jsval option \<Rightarrow> request" where
  "requestBody modelName prompt plugins webSearchOptions =
     \<lparr>q_model = modelName, q_content = prompt,
      q_plugins = (case plugins of Some (JArr (x # xs)) \<Rightarrow> plugins | _ \<Rightarrow> None),
      q_web_search_options =
        (case webSearchOptions of
           Some w \<Rightarrow> if truthy w then webSearchOptions else None
         | None \<Rightarrow> None)\<rparr>"

text \<open>
  \<^verbatim>\<open>response.data.choices[0].message.content\<close>, which must be a string for \<^verbatim>\<open>trim\<close> to
  exist on it; every other shape of the body ends in a \<^verbatim>\<open>TypeError\<close>.
\<close>

definition response_content :: "jsval \<Rightarrow> string option" where
  "response_content data =
     (case js_get data ''choices'' of
        None \<Rightarrow> None
      | Some choices \<Rightarrow>
          (case js_get choices ''0'' of
             None \<Rightarrow> None
           | Some choice \<Rightarrow>
               (case js_get choice ''message'' of
                  None \<Rightarrow> None
                | Some msg \<Rightarrow>
                    (case js_get msg ''content'' of Some (JStr text) \<Rightarrow> Some text | _ \<Rightarrow> None))))"

text \<open>
  \<open>post\<close> is the HTTP exchange of this one call: it yields the response body, or the error
  the HTTP library rejects with (transport error, timeout, non-success status).
\<close>

definition callOpenRouterAPI ::
  "runtime \<Rightarrow> (request \<Rightarrow> js_error + jsval) \<Rightarrow> string \<Rightarrow> string \<Rightarrow> jsval option \<Rightarrow> jsval option
     \<Rightarrow> js_error + api_result" where
  "callOpenRouterAPI rt post modelName prompt plugins webSearchOptions =
     (case post (requestBody modelName prompt plugins webSearchOptions) of
        Inl err \<Rightarrow> Inl err
      | Inr data \<Rightarrow>
          (case response_content data of
             None \<Rightarrow> Inl \<lparr>e_message = type_error_message rt data, e_response = None\<rparr>
           | Some text \<Rightarrow>
               (let usage = or_else (js_get data ''usage'') (JObj []);
                    promptTokens = or_else (js_get usage ''prompt_tokens'') (JNum 0);
                    completionTokens = or_else (js_get usage ''completion_tokens'') (JNum 0);
                    totalTokens = or_else (js_get usage ''total_tokens'')
                                    (js_plus rt promptTokens completionTokens);
                    cost = or_else (js_get usage ''cost'') (JNum 0)
                in Inr \<lparr>a_result = trim text, a_cost = cost, a_promptTokens = promptTokens,
                         a_completionTokens = completionTokens, a_totalTokens = totalTokens\<rparr>)))"


section \<open>Response Distributor and the processing of one row\<close>

text \<open>
  The two fence expressions of \<^verbatim>\<open>processRow\<close>.
  \<^verbatim>\<open>/^```(?:json)?\s*\n?/\<close> removes the three backticks, the tag \<^verbatim>\<open>json\<close> when it follows,
  and all white space behind (the greedy \<^verbatim>\<open>\s*\<close> takes line feeds too).
  \<^verbatim>\<open>/\n?```\s*$/\<close> is anchored at the end of the text: \<^verbatim>\<open>replace\<close> cuts the text at the
  leftmost position from which an optional line feed, three backticks and white space reach
  the end.
\<close>

definition remove_opening_fence :: "string \<Rightarrow> string" where
  "remove_opening_fence s =
     (let r = drop 3 s; r' = (if take 4 r = ''json'' then drop 4 r else r)
      in dropWhile is_space r')"

definition fence_to_end :: "string \<Rightarrow> bool" where
  "fence_to_end s \<longleftrightarrow> take 3 s = ''```'' \<and> list_all is_space (drop 3 s)"

definition closing_fence_here :: "string \<Rightarrow> bool" where
  "closing_fence_here s \<longleftrightarrow>
     fence_to_end s \<or> (case s of [] \<Rightarrow> False | c # cs \<Rightarrow> c = CHR 0x0A \<and> fence_to_end cs)"

fun remove_closing_fence :: "string \<Rightarrow> string" where
  "remove_closing_fence [] = []"
| "remove_closing_fence (c # cs) =
     (if closing_fence_here (c # cs) then [] else c # remove_closing_fence cs)"

definition strip_code_fence :: "string \<Rightarrow> string" where
  "strip_code_fence text =
     (let jsonText = trim text
      in if take 3 jsonText = ''```''
         then remove_closing_fence (remove_opening_fence jsonText) else jsonText)"

definition undetectable :: jsval where
  "undetectable = JStr ''__undetectable__''"

text \<open>
  \<^verbatim>\<open>
  try {
    ...
    const parsed = JSON.parse(jsonText);
    for (const colName of columnInfo.columns) {
      row[colName] = parsed[colName] || '__undetectable__';
    }
  } catch (parseError) {
    ...
    for (const colName of columnInfo.columns) {
      row[colName] = '__undetectable__';
    }
  }
  \<close>
  The \<^verbatim>\<open>try\<close> block throws when the text does not parse, and when it parses to
  \<^verbatim>\<open>null\<close> and there is a column to read (at the first column, before any assignment).
\<close>

definition mark_undetectable :: "row \<Rightarrow> string list \<Rightarrow> row" where
  "mark_undetectable r columns = foldl (\<lambda>acc colName. row_set acc colName undetectable) r columns"

definition distribute :: "row \<Rightarrow> string list \<Rightarrow> jsval option \<Rightarrow> row" where
  "distribute r columns decoded =
     (case decoded of
        None \<Rightarrow> mark_undetectable r columns
      | Some parsed \<Rightarrow>
          if parsed = JNull \<and> columns \<noteq> [] then mark_undetectable r columns
          else foldl (\<lambda>acc colName. row_set acc colName (or_else (js_get parsed colName) undetectable))
                 r columns)"

text \<open>
  A column specification as \<^verbatim>\<open>processRow\<close> receives it: a string for a single column, an
  object with the list \<^verbatim>\<open>columns\<close> for a group.
\<close>

datatype column_info = ColumnName string | ColumnGroup "string list"

definition store_result :: "runtime \<Rightarrow> row \<Rightarrow> column_info \<Rightarrow> string \<Rightarrow> row" where
  "store_result rt r columnInfo text =
     (case columnInfo of
        ColumnName name \<Rightarrow> row_set r name (JStr text)
      | ColumnGroup columns \<Rightarrow> distribute r columns (json_parse rt (strip_code_fence text)))"

record outcome =
  o_success :: bool
  o_cost :: jsval
  o_promptTokens :: jsval
  o_completionTokens :: jsval
  o_rowIndex :: nat

text \<open>
  \<^verbatim>\<open>processRow(row, rowIndex, columnInfo, modelName, prompt, plugins, webSearchOptions)\<close>
  fills the prompt, calls the API and stores the result in the row. The source mutates the
  row object; the model returns the row it leaves behind. A rejected promise is \<open>Inl\<close>.
\<close>

definition processRow ::
  "runtime \<Rightarrow> (request \<Rightarrow> js_error + jsval) \<Rightarrow> row \<Rightarrow> nat \<Rightarrow> column_info \<Rightarrow> string \<Rightarrow> string
     \<Rightarrow> jsval option \<Rightarrow> jsval option \<Rightarrow> js_error + (outcome \<times> row)" where
  "processRow rt post r rowIndex columnInfo modelName prompt plugins webSearchOptions =
     (let filledPrompt = fillPromptTemplate (number_to_string rt) prompt r
      in case callOpenRouterAPI rt post modelName filledPrompt plugins webSearchOptions of
           Inl err \<Rightarrow> Inl err
         | Inr apiResult \<Rightarrow>
             Inr (\<lparr>o_success = True, o_cost = a_cost apiResult,
                   o_promptTokens = a_promptTokens apiResult,
                   o_completionTokens = a_completionTokens apiResult, o_rowIndex = rowIndex\<rparr>,
                  store_result rt r columnInfo (a_result apiResult)))"


section \<open>Effects\<close>

text \<open>
  The program acts on the shared array of rows and on the outside world. The state of the
  model is the array and the trace of the external actions so far, in program order: a model
  invocation (tagged with the retry round of its batch and the row index), a call of
  \<^verbatim>\<open>sleep\<close> with its milliseconds, a call of \<^verbatim>\<open>writeCSV\<close> with path, headers and the rows
  as they are at that moment, and the console lines that report a failure. Informational
  console output is not traced, and the status glyph that opens some console lines, which
  lies outside the modelled character range, is left out of the line.
\<close>

datatype event =
    Invoke nat nat request
  | Sleep nat
  | WriteCSV string "string list" "row list"
  | ConsoleError string
  | ConsoleWarn string

record state =
  rows :: "row list"
  trace :: "event list"

definition emit :: "event list \<Rightarrow> state \<Rightarrow> state" where
  "emit evs st = st\<lparr>trace := trace st @ evs\<rparr>"


section \<open>Batch Retry Controller\<close>

text \<open>
  One round of \<^verbatim>\<open>processBatch\<close>: \<^verbatim>\<open>rowsToProcess.map(...)\<close> starts one task per pending
  index on the row as it is when the round starts, and \<^verbatim>\<open>Promise.all\<close> returns the settled
  results in the order of the indices. Each task writes to its own row only, so the rows after
  the round are the rows before it with the row of every successful task replaced.
  \<open>task rowIndex row\<close> is the settled result of the task; every theorem about a batch assumes
  the indices to lie within the array, as they do at the one call site.
\<close>

type_synonym settled = "nat \<times> (js_error + outcome \<times> row)"

definition settle_round :: "(nat \<Rightarrow> row \<Rightarrow> js_error + outcome \<times> row) \<Rightarrow> nat list \<Rightarrow> row list \<Rightarrow> settled list" where
  "settle_round task rowsToProcess rs =
     map (\<lambda>rowIndex. (rowIndex, task rowIndex (rs ! rowIndex))) rowsToProcess"

definition succeeded_of :: "settled list \<Rightarrow> outcome list" where
  "succeeded_of results = map (\<lambda>x. fst (projr (snd x))) (filter (\<lambda>x. \<not> isl (snd x)) results)"

definition failed_of :: "settled list \<Rightarrow> (nat \<times> js_error) list" where
  "failed_of results = map (\<lambda>x. (fst x, projl (snd x))) (filter (\<lambda>x. isl (snd x)) results)"

definition write_back :: "row list \<Rightarrow> settled list \<Rightarrow> row list" where
  "write_back rs results =
     foldl (\<lambda>acc x. case snd x of Inl err \<Rightarrow> acc | Inr y \<Rightarrow> acc[fst x := snd y]) rs results"

text \<open>
  The error signature \<^verbatim>\<open>`${statusCode}: ${errorMsg}`\<close> of a failed row. \<open>chain_get\<close> is the
  optional chaining \<^verbatim>\<open>value?.name\<close>.
\<close>

definition chain_get :: "jsval option \<Rightarrow> string \<Rightarrow> jsval option" where
  "chain_get v k = (case v of None \<Rightarrow> None | Some x \<Rightarrow> if x = JNull then None else js_get x k)"

definition status_code :: "js_error \<Rightarrow> string" where
  "status_code err =
     (case e_response err of
        None \<Rightarrow> ''N/A''
      | Some resp \<Rightarrow> if r_status resp \<noteq> 0 then show_nat (r_status resp) else ''N/A'')"

definition error_key :: "runtime \<Rightarrow> js_error \<Rightarrow> string" where
  "error_key rt err =
     (let errorData = (case e_response err of None \<Rightarrow> None | Some resp \<Rightarrow> r_data resp);
          errorMsg =
            (case errorData of
               None \<Rightarrow> e_message err
             | Some d \<Rightarrow>
                 if \<not> truthy d then e_message err
                 else
                   (let inner = js_get d ''error'';
                        msg =
                          (case chain_get inner ''message'' of
                             Some m \<Rightarrow>
                               if truthy m then to_string (number_to_string rt) m
                               else (case d of
                                       JStr text \<Rightarrow> text
                                     | _ \<Rightarrow> to_string (number_to_string rt)
                                              (or_else (js_get d ''message'') (JStr (e_message err))))
                           | None \<Rightarrow>
                               (case d of
                                  JStr text \<Rightarrow> text
                                | _ \<Rightarrow> to_string (number_to_string rt)
                                         (or_else (js_get d ''message'') (JStr (e_message err)))))
                    in case chain_get inner ''metadata'' of
                         Some meta \<Rightarrow>
                           if truthy meta then msg @ '' ('' @ json_stringify rt meta @ '')''
                           else msg
                       | None \<Rightarrow> msg))
      in status_code err @ '': '' @ errorMsg)"

text \<open>
  \<^verbatim>\<open>errorSummary\<close>: the row numbers (index plus one) of the failed rows, grouped under their
  signature, signatures in the order of first occurrence.
\<close>

fun summary_push :: "(string \<times> nat list) list \<Rightarrow> string \<Rightarrow> nat \<Rightarrow> (string \<times> nat list) list" where
  "summary_push [] key n = [(key, [n])]"
| "summary_push ((k, ns) # rest) key n =
     (if k = key then (k, ns @ [n]) # rest else (k, ns) # summary_push rest key n)"

definition summarize :: "runtime \<Rightarrow> (nat \<times> js_error) list \<Rightarrow> (string \<times> nat list) list" where
  "summarize rt failed =
     foldl (\<lambda>summary failure. summary_push summary (error_key rt (snd failure)) (fst failure + 1))
       [] failed"

definition row_numbers :: "nat list \<Rightarrow> string" where
  "row_numbers xs = join '', '' (map show_nat xs)"

text \<open>The lines \<^verbatim>\<open>processBatch\<close> writes with \<^verbatim>\<open>console.error\<close> before it gives up.\<close>

definition failure_report :: "nat list \<Rightarrow> nat \<Rightarrow> (string \<times> nat list) list \<Rightarrow> event list" where
  "failure_report rowsToProcess maxRetries errorSummary =
     [ConsoleError (''  '' @ show_nat (length rowsToProcess) @ '' row(s) FAILED after ''
                    @ show_nat maxRetries @ '' retries''),
      ConsoleError (''    Failed rows: '' @ row_numbers (map (\<lambda>i. i + 1) rowsToProcess)),
      ConsoleError ''    Error summary:'']
     @ concat (map (\<lambda>entry. [ConsoleError (''      '' @ fst entry),
                               ConsoleError (''        Affected rows: '' @ row_numbers (snd entry))])
                 errorSummary)"

definition exhausted_error :: "nat list \<Rightarrow> nat \<Rightarrow> js_error" where
  "exhausted_error rowsToProcess maxRetries =
     \<lparr>e_message = show_nat (length rowsToProcess) @ '' row(s) failed after ''
                   @ show_nat maxRetries @ '' retries'',
      e_response = None\<rparr>"

text \<open>
  The loop of \<^verbatim>\<open>processBatch\<close>,
  \<^verbatim>\<open>while (rowsToProcess.length > 0 && retryCount <= maxRetries)\<close>. \<open>req\<close> gives the request
  a task sends for a row and \<open>task retryCount\<close> the tasks of the round; the round of an
  invocation is the value of \<^verbatim>\<open>retryCount\<close> when it is made. \<^verbatim>\<open>Math.pow(2, retryCount) * 1000\<close>
  is exact in double precision for every exponent the default ceiling allows.
\<close>

function retry_loop ::
  "runtime \<Rightarrow> (row \<Rightarrow> request) \<Rightarrow> (nat \<Rightarrow> nat \<Rightarrow> row \<Rightarrow> js_error + outcome \<times> row) \<Rightarrow> nat
     \<Rightarrow> nat list \<Rightarrow> nat \<Rightarrow> outcome list \<Rightarrow> state \<Rightarrow> (js_error + outcome list) \<times> state" where
  "retry_loop rt req task maxRetries rowsToProcess retryCount allResults st =
     (if rowsToProcess \<noteq> [] \<and> retryCount \<le> maxRetries then
        let results = settle_round (task retryCount) rowsToProcess (rows st);
            st1 = \<lparr>rows = write_back (rows st) results,
                   trace = trace st
                     @ map (\<lambda>rowIndex. Invoke retryCount rowIndex (req (rows st ! rowIndex)))
                         rowsToProcess\<rparr>;
            allResults1 = allResults @ succeeded_of results;
            failed = failed_of results;
            rowsToProcess1 = map fst failed
        in if rowsToProcess1 \<noteq> [] then
             let retryCount1 = retryCount + 1;
                 errorSummary = summarize rt failed
             in if retryCount1 > maxRetries then
                  (Inl (exhausted_error rowsToProcess1 maxRetries),
                   emit (failure_report rowsToProcess1 maxRetries errorSummary) st1)
                else retry_loop rt req task maxRetries rowsToProcess1 retryCount1 allResults1
                       (emit [Sleep (2 ^ retryCount1 * 1000)] st1)
           else retry_loop rt req task maxRetries rowsToProcess1 retryCount allResults1 st1
      else (Inr allResults, st))"
  by pat_completeness auto
termination
  by (relation "measure (\<lambda>(rt, req, task, maxRetries, rowsToProcess, retryCount, allResults, st).
                  if rowsToProcess = [] then 0 else maxRetries + 2 - retryCount)")
     auto

declare retry_loop.simps [simp del]

text \<open>
  \<^verbatim>\<open>processBatch(rows, batchStart, batchEnd, columnInfo, modelName, prompt, plugins,
  webSearchOptions, maxRetries = 10)\<close>. \<open>post round rowIndex\<close> is the HTTP exchange of the
  invocation made for that row in that round.
\<close>

definition processBatch ::
  "runtime \<Rightarrow> (nat \<Rightarrow> nat \<Rightarrow> request \<Rightarrow> js_error + jsval) \<Rightarrow> nat \<Rightarrow> nat \<Rightarrow> column_info \<Rightarrow> string
     \<Rightarrow> string \<Rightarrow> jsval option \<Rightarrow> jsval option \<Rightarrow> nat \<Rightarrow> state \<Rightarrow> (js_error + outcome list) \<times> state" where
  "processBatch rt post batchStart batchEnd columnInfo modelName prompt plugins webSearchOptions
     maxRetries st =
     retry_loop rt
       (\<lambda>r. requestBody modelName (fillPromptTemplate (number_to_string rt) prompt r)
               plugins webSearchOptions)
       (\<lambda>round rowIndex r. processRow rt (post round rowIndex) r rowIndex columnInfo modelName
                               prompt plugins webSearchOptions)
       maxRetries [batchStart..<batchEnd] 0 [] st"



section \<open>The batch function of the earlier revision\<close>

text \<open>
  The earlier revision of the script knows single columns only, calls the API without plugins
  and search options, and retries the whole batch when any row fails:
  \<^verbatim>\<open>
  while (retryCount <= maxRetries) {
    try {
      const batchPromises = [];
      for (let j = batchStart; j < batchEnd; j++) { ... batchPromises.push(rowPromise); }
      const batchResults = await Promise.all(batchPromises);
      return batchResults;
    } catch (error) {
      retryCount++;
      const errorMsg = error.response?.data?.error?.message || error.message;
      const statusCode = error.response?.status || 'N/A';
      if (retryCount > maxRetries) { ...; throw new Error(...); }
      const backoffMs = Math.pow(2, retryCount) * 1000;
      ...
      await sleep(backoffMs);
    }
  }
  \<close>
  \<^verbatim>\<open>Promise.all\<close> rejects with the rejection that arrives first; which one that is depends on
  the timing of the responses and is the parameter \<open>first_rejection\<close> (the round and the
  failures in row order). The tasks that succeed in a failing round still write their rows;
  the model takes all tasks of a round as settled when the next round starts. The loop test
  holds at entry and after every backoff, since the handler throws otherwise, so the model
  has no branch for a false test.
\<close>

definition batch_error_message :: "runtime \<Rightarrow> js_error \<Rightarrow> string" where
  "batch_error_message rt err =
     (let errorData = (case e_response err of None \<Rightarrow> None | Some resp \<Rightarrow> r_data resp)
      in to_string (number_to_string rt)
           (or_else (chain_get (chain_get errorData ''error'') ''message'') (JStr (e_message err))))"

function whole_batch_loop ::
  "runtime \<Rightarrow> (nat \<Rightarrow> (nat \<times> js_error) list \<Rightarrow> js_error) \<Rightarrow> (row \<Rightarrow> request)
     \<Rightarrow> (nat \<Rightarrow> nat \<Rightarrow> row \<Rightarrow> js_error + outcome \<times> row) \<Rightarrow> nat \<Rightarrow> nat list \<Rightarrow> nat \<Rightarrow> state
     \<Rightarrow> (js_error + outcome list) \<times> state" where
  "whole_batch_loop rt first_rejection req task maxRetries batch retryCount st =
     (let results = settle_round (task retryCount) batch (rows st);
          st1 = \<lparr>rows = write_back (rows st) results,
                 trace = trace st
                   @ map (\<lambda>rowIndex. Invoke retryCount rowIndex (req (rows st ! rowIndex))) batch\<rparr>
      in if failed_of results = [] then (Inr (succeeded_of results), st1)
         else
           let retryCount1 = retryCount + 1;
               err = first_rejection retryCount (failed_of results);
               errorMsg = batch_error_message rt err;
               statusCode = status_code err
           in if retryCount1 > maxRetries then
                (Inl \<lparr>e_message = ''Batch failed after '' @ show_nat maxRetries @ '' retries: ''
                                    @ errorMsg,
                      e_response = None\<rparr>,
                 emit [ConsoleError (''  Batch FAILED after '' @ show_nat maxRetries @ '' retries''),
                       ConsoleError (''    Status: '' @ statusCode @ '', Error: '' @ errorMsg)] st1)
              else whole_batch_loop rt first_rejection req task maxRetries batch retryCount1
                     (emit [Sleep (2 ^ retryCount1 * 1000)] st1))"
  by pat_completeness auto
termination
  by (relation "measure (\<lambda>(rt, first_rejection, req, task, maxRetries, batch, retryCount, st).
                  maxRetries - retryCount)")
     auto

declare whole_batch_loop.simps [simp del]

text \<open>
  \<^verbatim>\<open>processBatch(rows, batchStart, batchEnd, columnName, modelName, prompt, maxRetries = 10)\<close>
  of the earlier revision. Its row task is the inline \<^verbatim>\<open>async\<close> function of the loop: fill
  the prompt, call the API, store the text under the column name.
\<close>

definition processBatch_v1 ::
  "runtime \<Rightarrow> (nat \<Rightarrow> (nat \<times> js_error) list \<Rightarrow> js_error) \<Rightarrow> (nat \<Rightarrow> nat \<Rightarrow> request \<Rightarrow> js_error + jsval)
     \<Rightarrow> nat \<Rightarrow> nat \<Rightarrow> string \<Rightarrow> string \<Rightarrow> string \<Rightarrow> nat \<Rightarrow> state \<Rightarrow> (js_error + outcome list) \<times> state" where
  "processBatch_v1 rt first_rejection post batchStart batchEnd columnName modelName prompt
     maxRetries st =
     whole_batch_loop rt first_rejection
       (\<lambda>r. requestBody modelName (fillPromptTemplate (number_to_string rt) prompt r) None None)
       (\<lambda>round rowIndex r.
          case callOpenRouterAPI rt (post round rowIndex) modelName
                 (fillPromptTemplate (number_to_string rt) prompt r) None None of
            Inl err \<Rightarrow> Inl err
          | Inr apiResult \<Rightarrow>
              Inr (\<lparr>o_success = True, o_cost = a_cost apiResult,
                    o_promptTokens = a_promptTokens apiResult,
                    o_completionTokens = a_completionTokens apiResult, o_rowIndex = rowIndex\<rparr>,
                   row_set r columnName (JStr (a_result apiResult))))
       maxRetries [batchStart..<batchEnd] 0 st"


section \<open>Column Driver\<close>

text \<open>
  A column of the configuration: a single column with its name, or a group with its name and
  the names of its columns. \<open>c_batchSize\<close> and \<open>c_cooldown\<close> are non-negative integers, with
  \<open>0\<close> also standing for a missing entry.
\<close>

record settings =
  c_modelName :: string
  c_batchSize :: nat
  c_cooldown :: nat
  c_prompt :: string
  c_modelPlugins :: "jsval option"
  c_webSearchOptions :: "jsval option"

datatype column_config = Single string settings | Group string "string list" settings

definition or_null :: "jsval option \<Rightarrow> jsval option" where
  "or_null v = (case v of None \<Rightarrow> None | Some x \<Rightarrow> if truthy x then Some x else None)"

definition column_info_of :: "column_config \<Rightarrow> column_info" where
  "column_info_of columnConfig =
     (case columnConfig of
        Single columnName cfg \<Rightarrow> ColumnName columnName
      | Group groupName columns cfg \<Rightarrow> ColumnGroup columns)"

definition settings_of :: "column_config \<Rightarrow> settings" where
  "settings_of columnConfig =
     (case columnConfig of Single columnName cfg \<Rightarrow> cfg | Group groupName columns cfg \<Rightarrow> cfg)"

text \<open>
  The checkpoint after a batch:
  \<^verbatim>\<open>
  if (progressFilePath) {
    try {
      const allHeaders = Object.keys(rows[0]);
      await writeCSV(progressFilePath, rows, allHeaders);
    } catch (err) {
      console.warn(`    ... Failed to write progress file: ${err.message}`);
    }
  }
  \<close>
  \<open>failure\<close> is the message of the error the CSV writer throws, \<open>None\<close> when it succeeds.
\<close>

definition write_progress :: "string option \<Rightarrow> string \<Rightarrow> state \<Rightarrow> state" where
  "write_progress failure progressFilePath st =
     (if progressFilePath \<noteq> [] then
        emit (WriteCSV progressFilePath (object_keys (rows st ! 0)) (rows st)
              # (case failure of
                   None \<Rightarrow> []
                 | Some msg \<Rightarrow> [ConsoleWarn (''    Failed to write progress file: '' @ msg)]))
          st
      else st)"

text \<open>The running totals \<^verbatim>\<open>totalCost\<close>, \<^verbatim>\<open>totalPromptTokens\<close>, \<^verbatim>\<open>totalCompletionTokens\<close>.\<close>

record totals =
  t_cost :: jsval
  t_promptTokens :: jsval
  t_completionTokens :: jsval

definition aggregate :: "runtime \<Rightarrow> totals \<Rightarrow> outcome list \<Rightarrow> totals" where
  "aggregate rt acc batchResults =
     foldl (\<lambda>t res. \<lparr>t_cost = js_plus rt (t_cost t) (o_cost res),
                      t_promptTokens = js_plus rt (t_promptTokens t) (o_promptTokens res),
                      t_completionTokens = js_plus rt (t_completionTokens t) (o_completionTokens res)\<rparr>)
       acc batchResults"

text \<open>
  The report line after a batch calls \<^verbatim>\<open>batchCost.toFixed(8)\<close> and then
  \<^verbatim>\<open>totalCost.toFixed(8)\<close>, where \<^verbatim>\<open>batchCost\<close> is the sum of the costs of the batch from
  \<^verbatim>\<open>0\<close> on. Only a number has the method: on any other sum the call throws a
  \<^verbatim>\<open>TypeError\<close>, which leaves \<^verbatim>\<open>processColumn\<close> before the checkpoint is written.
\<close>

definition batch_cost :: "runtime \<Rightarrow> outcome list \<Rightarrow> jsval" where
  "batch_cost rt batchResults = foldl (\<lambda>sum res. js_plus rt sum (o_cost res)) (JNum 0) batchResults"

definition is_number :: "jsval \<Rightarrow> bool" where
  "is_number v = (case v of JNum n \<Rightarrow> True | _ \<Rightarrow> False)"

definition not_a_function :: "string \<Rightarrow> js_error" where
  "not_a_function what = \<lparr>e_message = what @ '' is not a function'', e_response = None\<rparr>"

definition report_failure :: "runtime \<Rightarrow> totals \<Rightarrow> outcome list \<Rightarrow> js_error option" where
  "report_failure rt acc1 batchResults =
     (if \<not> is_number (batch_cost rt batchResults) then Some (not_a_function ''batchCost.toFixed'')
      else if \<not> is_number (t_cost acc1) then Some (not_a_function ''totalCost.toFixed'')
      else None)"

text \<open>
  The loop \<^verbatim>\<open>for (let i = 0; i < totalRows; i += batchSize)\<close> of \<^verbatim>\<open>processColumn\<close>. An
  exception of \<^verbatim>\<open>processBatch\<close> or of the report line leaves the loop and the function.
  \<open>post\<close> and \<open>ckpt\<close> are the HTTP exchanges and the checkpoint failures of this column, the
  latter by the first row of the batch. With a batch size of \<open>0\<close> the index never advances
  and the function does not return: the result is \<open>None\<close>.
\<close>

function batch_loop ::
  "runtime \<Rightarrow> (nat \<Rightarrow> nat \<Rightarrow> request \<Rightarrow> js_error + jsval) \<Rightarrow> (nat \<Rightarrow> string option) \<Rightarrow> column_info
     \<Rightarrow> settings \<Rightarrow> string \<Rightarrow> nat \<Rightarrow> nat \<Rightarrow> totals \<Rightarrow> state \<Rightarrow> ((js_error + totals) \<times> state) option" where
  "batch_loop rt post ckpt columnInfo cfg progressFilePath totalRows i acc st =
     (if i < totalRows then
        if c_batchSize cfg = 0 then None
        else
          let batchEnd = min (i + c_batchSize cfg) totalRows
          in case processBatch rt post i batchEnd columnInfo (c_modelName cfg) (c_prompt cfg)
                    (or_null (c_modelPlugins cfg)) (or_null (c_webSearchOptions cfg)) 10 st of
               (Inl err, st1) \<Rightarrow> Some (Inl err, st1)
             | (Inr batchResults, st1) \<Rightarrow>
                 let acc1 = aggregate rt acc batchResults
                 in case report_failure rt acc1 batchResults of
                      Some err \<Rightarrow> Some (Inl err, st1)
                    | None \<Rightarrow>
                        let st2 = write_progress (ckpt i) progressFilePath st1;
                            st3 = (if batchEnd < totalRows \<and> c_cooldown cfg > 0
                                   then emit [Sleep (c_cooldown cfg)] st2 else st2)
                        in batch_loop rt post ckpt columnInfo cfg progressFilePath totalRows
                             (i + c_batchSize cfg) acc1 st3
      else Some (Inr acc, st))"
  by pat_completeness auto
termination
  by (relation "measure (\<lambda>(rt, post, ckpt, columnInfo, cfg, progressFilePath, totalRows, i, acc, st).
                  totalRows - i)")
     auto

declare batch_loop.simps [simp del]

record stats =
  s_cost :: jsval
  s_tokens :: jsval
  s_promptTokens :: jsval
  s_completionTokens :: jsval

text \<open>
  \<^verbatim>\<open>processColumn(columnConfig, rows, columnIndex, totalColumns, progressFilePath)\<close>; the
  column index and count only appear in its console output.
\<close>

definition processColumn ::
  "runtime \<Rightarrow> (nat \<Rightarrow> nat \<Rightarrow> request \<Rightarrow> js_error + jsval) \<Rightarrow> (nat \<Rightarrow> string option) \<Rightarrow> column_config
     \<Rightarrow> string \<Rightarrow> state \<Rightarrow> ((js_error + stats) \<times> state) option" where
  "processColumn rt post ckpt columnConfig progressFilePath st =
     (case batch_loop rt post ckpt (column_info_of columnConfig) (settings_of columnConfig)
             progressFilePath (length (rows st)) 0
             \<lparr>t_cost = JNum 0, t_promptTokens = JNum 0, t_completionTokens = JNum 0\<rparr> st of
        None \<Rightarrow> None
      | Some (Inl err, st1) \<Rightarrow> Some (Inl err, st1)
      | Some (Inr t, st1) \<Rightarrow>
          Some (Inr \<lparr>s_cost = t_cost t,
                     s_tokens = js_plus rt (t_promptTokens t) (t_completionTokens t),
                     s_promptTokens = t_promptTokens t,
                     s_completionTokens = t_completionTokens t\<rparr>, st1))"


section \<open>Run Orchestrator\<close>

text \<open>
  \<^verbatim>\<open>config.outputFileName.replace(/\.csv$/i, '.progress')\<close>: the expression is anchored at
  the end, so the scan replaces the text from the position where exactly a dot and the
  letters c, s, v in either case remain.
\<close>

definition csv_extension :: "string \<Rightarrow> bool" where
  "csv_extension s \<longleftrightarrow>
     (case s of
        [d, c, s, v] \<Rightarrow>
          d = CHR ''.'' \<and> (c = CHR ''c'' \<or> c = CHR ''C'') \<and> (s = CHR ''s'' \<or> s = CHR ''S'')
          \<and> (v = CHR ''v'' \<or> v = CHR ''V'')
      | _ \<Rightarrow> False)"

fun progress_path :: "string \<Rightarrow> string" where
  "progress_path [] = []"
| "progress_path (c # cs) =
     (if csv_extension (c # cs) then ''.progress'' else c # progress_path cs)"

declare progress_path.simps [simp del]

record config =
  cfg_outputFileName :: string
  cfg_columns :: "column_config list"

text \<open>
  The defaults set during validation: \<^verbatim>\<open>batchSize = batchSize || 10\<close> and
  \<^verbatim>\<open>cooldown = cooldown || 0\<close>.
\<close>

definition with_defaults :: "column_config \<Rightarrow> column_config" where
  "with_defaults columnConfig =
     (let fix = (\<lambda>cfg. cfg\<lparr>c_batchSize := (if c_batchSize cfg = 0 then 10 else c_batchSize cfg)\<rparr>)
      in case columnConfig of
           Single columnName cfg \<Rightarrow> Single columnName (fix cfg)
         | Group groupName columns cfg \<Rightarrow> Group groupName columns (fix cfg))"

text \<open>
  The loop \<^verbatim>\<open>for (let i = 0; i < totalColumns; i++)\<close> of \<^verbatim>\<open>main\<close>, with the grand totals it
  accumulates. \<open>post i\<close> and \<open>ckpt i\<close> are the exchanges and checkpoint failures of column
  \<open>i\<close>.
\<close>

function column_loop ::
  "runtime \<Rightarrow> (nat \<Rightarrow> nat \<Rightarrow> nat \<Rightarrow> request \<Rightarrow> js_error + jsval) \<Rightarrow> (nat \<Rightarrow> nat \<Rightarrow> string option)
     \<Rightarrow> column_config list \<Rightarrow> string \<Rightarrow> nat \<Rightarrow> stats \<Rightarrow> state \<Rightarrow> ((js_error + stats) \<times> state) option" where
  "column_loop rt post ckpt columns progressFilePath i grand st =
     (if i < length columns then
        case processColumn rt (post i) (ckpt i) (columns ! i) progressFilePath st of
          None \<Rightarrow> None
        | Some (Inl err, st1) \<Rightarrow> Some (Inl err, st1)
        | Some (Inr columnStats, st1) \<Rightarrow>
            column_loop rt post ckpt columns progressFilePath (i + 1)
              \<lparr>s_cost = js_plus rt (s_cost grand) (s_cost columnStats),
               s_tokens = js_plus rt (s_tokens grand) (s_tokens columnStats),
               s_promptTokens = js_plus rt (s_promptTokens grand) (s_promptTokens columnStats),
               s_completionTokens =
                 js_plus rt (s_completionTokens grand) (s_completionTokens columnStats)\<rparr>
              st1
      else Some (Inr grand, st))"
  by pat_completeness auto
termination
  by (relation "measure (\<lambda>(rt, post, ckpt, columns, progressFilePath, i, grand, st).
                  length columns - i)")
     auto

declare column_loop.simps [simp del]

text \<open>
  \<^verbatim>\<open>main\<close> from the loaded rows on, for a configuration that passed validation; loading and
  validation end the process before any row is processed. The result is the exit status with
  the final state: \<open>1\<close> after the \<^verbatim>\<open>catch\<close> block, of whose output the line with the message
  is traced, \<open>0\<close> when \<^verbatim>\<open>main\<close> runs to its end. \<open>out_failure\<close> is the failure of the final
  \<^verbatim>\<open>writeCSV\<close>, if any.
\<close>

definition fatal :: "js_error \<Rightarrow> state \<Rightarrow> nat \<times> state" where
  "fatal err st = (1, emit [ConsoleError (''Error: '' @ e_message err)] st)"

definition main ::
  "runtime \<Rightarrow> (nat \<Rightarrow> nat \<Rightarrow> nat \<Rightarrow> request \<Rightarrow> js_error + jsval) \<Rightarrow> (nat \<Rightarrow> nat \<Rightarrow> string option)
     \<Rightarrow> string option \<Rightarrow> config \<Rightarrow> row list \<Rightarrow> (nat \<times> state) option" where
  "main rt post ckpt out_failure cfg loaded =
     (if loaded = [] then
        Some (1, \<lparr>rows = loaded, trace = [ConsoleError ''  Input CSV is empty'']\<rparr>)
      else
        let progressFilePath = progress_path (cfg_outputFileName cfg)
        in case column_loop rt post ckpt (map with_defaults (cfg_columns cfg)) progressFilePath 0
                  \<lparr>s_cost = JNum 0, s_tokens = JNum 0, s_promptTokens = JNum 0,
                   s_completionTokens = JNum 0\<rparr>
                  \<lparr>rows = loaded, trace = []\<rparr> of
             None \<Rightarrow> None
           | Some (Inl err, st) \<Rightarrow> Some (fatal err st)
           | Some (Inr grand, st) \<Rightarrow>
               (let st1 = emit [WriteCSV (cfg_outputFileName cfg) (object_keys (rows st ! 0))
                                  (rows st)] st
                in case out_failure of
                     None \<Rightarrow> Some (0, st1)
                   | Some msg \<Rightarrow> Some (fatal \<lparr>e_message = msg, e_response = None\<rparr> st1)))"



section \<open>Concrete inputs\<close>

text \<open>
  A runtime for the examples. It agrees with the engine on every value the examples pass
  to it: it prints the non-negative integers, adds two numbers, concatenates when one
  operand of \<^verbatim>\<open>+\<close> is a string, and decodes the one JSON text the examples use.
\<close>

definition demo_json :: string where
  \<open>demo_json = ''{"A":"x","B":0}''\<close>

definition demo_parse :: "string \<Rightarrow> jsval option" where
  "demo_parse text =
     (if text = demo_json then Some (JObj [(''A'', JStr ''x''), (''B'', JNum 0)]) else None)"

definition demo_plus :: "jsval \<Rightarrow> jsval \<Rightarrow> jsval" where
  "demo_plus a b =
     (case (a, b) of
        (JNum x, JNum y) \<Rightarrow> JNum (x + y)
      | (JNum x, JStr t) \<Rightarrow> JStr (show_nat (nat \<lfloor>x\<rfloor>) @ t)
      | (JStr s, JNum y) \<Rightarrow> JStr (s @ show_nat (nat \<lfloor>y\<rfloor>))
      | (JStr s, JStr t) \<Rightarrow> JStr (s @ t)
      | _ \<Rightarrow> JNull)"

definition demo_runtime :: runtime where
  "demo_runtime =
     \<lparr>number_to_string = (\<lambda>q. show_nat (nat \<lfloor>q\<rfloor>)),
      json_parse = demo_parse,
      json_stringify = (\<lambda>v. ''null''),
      js_plus = demo_plus,
      type_error_message = (\<lambda>data. ''TypeError'')\<rparr>"


text \<open>
  Three loaded rows, a response body the API returns on success and the error of a rejected
  request. \<open>demo_post_flaky\<close> rejects the first request for row 1 and answers every other
  one; \<open>demo_post_down\<close> rejects every request for row 2. \<open>demo_config\<close> asks for one single
  column and leaves batch size and cooldown to their defaults.
\<close>

definition demo_rows :: "row list" where
  "demo_rows = [[(''Video'', JStr ''a'')], [(''Video'', JStr ''b'')], [(''Video'', JStr ''c'')]]"

definition demo_state :: state where
  "demo_state = \<lparr>rows = demo_rows, trace = []\<rparr>"

definition demo_response :: jsval where
  "demo_response =
     JObj [(''choices'', JArr [JObj [(''message'', JObj [(''content'', JStr '' ok '')])]]),
           (''usage'', JObj [(''prompt_tokens'', JNum 7), (''completion_tokens'', JNum 2)])]"

definition demo_failure :: js_error where
  "demo_failure =
     \<lparr>e_message = ''Request failed with status code 429'',
      e_response = Some \<lparr>r_status = 429,
                         r_data = Some (JObj [(''error'', JObj [(''message'', JStr ''Rate limited'')])])\<rparr>\<rparr>"

definition demo_post_flaky :: "nat \<Rightarrow> nat \<Rightarrow> request \<Rightarrow> js_error + jsval" where
  "demo_post_flaky k i q = (if k = 0 \<and> i = 1 then Inl demo_failure else Inr demo_response)"

definition demo_post_down :: "nat \<Rightarrow> nat \<Rightarrow> request \<Rightarrow> js_error + jsval" where
  "demo_post_down k i q = (if i = 2 then Inl demo_failure else Inr demo_response)"

definition demo_settings :: settings where
  "demo_settings =
     \<lparr>c_modelName = ''m'', c_batchSize = 0, c_cooldown = 0, c_prompt = ''Sum {{Video}}'',
      c_modelPlugins = None, c_webSearchOptions = None\<rparr>"

definition demo_config :: config where
  "demo_config =
     \<lparr>cfg_outputFileName = ''out.csv'', cfg_columns = [Single ''Summary'' demo_settings]\<rparr>"

text \<open>
  \<open>demo_post_ok\<close> answers every request; \<open>demo_first\<close> takes the failure of the lowest row as
  the rejection that arrives first.
\<close>

definition demo_post_ok :: "nat \<Rightarrow> nat \<Rightarrow> request \<Rightarrow> js_error + jsval" where
  "demo_post_ok k i q = Inr demo_response"

definition demo_first :: "nat \<Rightarrow> (nat \<times> js_error) list \<Rightarrow> js_error" where
  "demo_first k failures = snd (hd failures)"

text \<open>
  A configuration of three single columns and exchanges that answer every request of the
  first column and reject every request for row 2 in the second.
\<close>

definition demo_three_columns :: config where
  "demo_three_columns =
     \<lparr>cfg_outputFileName = ''out.csv'',
      cfg_columns = [Single ''Summary'' demo_settings, Single ''Topic'' demo_settings,
                     Single ''Never'' demo_settings]\<rparr>"

definition demo_posts :: "nat \<Rightarrow> nat \<Rightarrow> nat \<Rightarrow> request \<Rightarrow> js_error + jsval" where
  "demo_posts c = (if c = 0 then demo_post_ok else demo_post_down)"





section \<open>The rounds of a batch, described from outside the loop\<close>

text \<open>
  For the statements about \<^verbatim>\<open>processBatch\<close>: the indices of the batch whose task has failed
  in every round before round \<open>r\<close>, run on the row as it was when the batch started; the
  invocations of round \<open>k\<close>; and the external actions of the rounds \<open>r\<close> to \<open>R\<close>, each round
  after the first preceded by its backoff.
\<close>

definition pending ::
  "(nat \<Rightarrow> nat \<Rightarrow> row \<Rightarrow> js_error + outcome \<times> row) \<Rightarrow> row list \<Rightarrow> nat list \<Rightarrow> nat \<Rightarrow> nat list" where
  "pending task rs batch r = filter (\<lambda>i. list_all (\<lambda>k. isl (task k i (rs ! i))) [0..<r]) batch"

definition round_events ::
  "(row \<Rightarrow> request) \<Rightarrow> (nat \<Rightarrow> nat \<Rightarrow> row \<Rightarrow> js_error + outcome \<times> row) \<Rightarrow> row list \<Rightarrow> nat list \<Rightarrow> nat
     \<Rightarrow> event list" where
  "round_events req task rs batch k =
     map (\<lambda>i. Invoke k i (req (rs ! i))) (pending task rs batch k)"

definition rounds_events ::
  "(row \<Rightarrow> request) \<Rightarrow> (nat \<Rightarrow> nat \<Rightarrow> row \<Rightarrow> js_error + outcome \<times> row) \<Rightarrow> row list \<Rightarrow> nat list \<Rightarrow> nat
     \<Rightarrow> nat \<Rightarrow> event list" where
  "rounds_events req task rs batch r R =
     round_events req task rs batch r
     @ concat (map (\<lambda>k. Sleep (2 ^ k * 1000) # round_events req task rs batch k) [Suc r..<Suc R])"

definition round_outcomes ::
  "(nat \<Rightarrow> nat \<Rightarrow> row \<Rightarrow> js_error + outcome \<times> row) \<Rightarrow> row list \<Rightarrow> nat list \<Rightarrow> nat \<Rightarrow> outcome list" where
  "round_outcomes task rs batch k =
     map (\<lambda>i. fst (projr (task k i (rs ! i))))
       (filter (\<lambda>i. \<not> isl (task k i (rs ! i))) (pending task rs batch k))"

definition last_failures ::
  "(nat \<Rightarrow> nat \<Rightarrow> row \<Rightarrow> js_error + outcome \<times> row) \<Rightarrow> row list \<Rightarrow> nat list \<Rightarrow> nat
     \<Rightarrow> (nat \<times> js_error) list" where
  "last_failures task rs batch R =
     map (\<lambda>i. (i, projl (task R i (rs ! i)))) (pending task rs batch (Suc R))"

definition is_invoke :: "event \<Rightarrow> bool" where
  "is_invoke e = (case e of Invoke k i q \<Rightarrow> True | _ \<Rightarrow> False)"

definition is_sleep :: "event \<Rightarrow> bool" where
  "is_sleep e = (case e of Sleep ms \<Rightarrow> True | _ \<Rightarrow> False)"

text \<open>The request and the task \<^verbatim>\<open>processBatch\<close> builds for a row.\<close>

definition batch_request ::
  "runtime \<Rightarrow> string \<Rightarrow> string \<Rightarrow> jsval option \<Rightarrow> jsval option \<Rightarrow> row \<Rightarrow> request" where
  "batch_request rt modelName prompt plugins webSearchOptions r =
     requestBody modelName (fillPromptTemplate (number_to_string rt) prompt r)
       plugins webSearchOptions"

definition batch_task ::
  "runtime \<Rightarrow> (nat \<Rightarrow> nat \<Rightarrow> request \<Rightarrow> js_error + jsval) \<Rightarrow> column_info \<Rightarrow> string \<Rightarrow> string
     \<Rightarrow> jsval option \<Rightarrow> jsval option \<Rightarrow> nat \<Rightarrow> nat \<Rightarrow> row \<Rightarrow> js_error + outcome \<times> row" where
  "batch_task rt post columnInfo modelName prompt plugins webSearchOptions k rowIndex r =
     processRow rt (post k rowIndex) r rowIndex columnInfo modelName prompt plugins
       webSearchOptions"



section \<open>Traces seen from outside\<close>

text \<open>
  For the statements about the Column Driver and the Run Orchestrator: the paths written to,
  in order; a trace without its console warnings; a state with events put in front of its
  trace; and the column loop written as a recursion over the list of columns, each column
  run on the state the one before has left.
\<close>

fun write_path :: "event \<Rightarrow> string list" where
  "write_path (WriteCSV path headers records) = [path]"
| "write_path e = []"

definition write_paths :: "event list \<Rightarrow> string list" where
  "write_paths tr = concat (map write_path tr)"

definition is_warning :: "event \<Rightarrow> bool" where
  "is_warning e = (case e of ConsoleWarn line \<Rightarrow> True | _ \<Rightarrow> False)"

definition quiet :: "event list \<Rightarrow> event list" where
  "quiet tr = filter (\<lambda>e. \<not> is_warning e) tr"

definition prepend :: "event list \<Rightarrow> state \<Rightarrow> state" where
  "prepend tr0 st = st\<lparr>trace := tr0 @ trace st\<rparr>"

definition add_stats :: "runtime \<Rightarrow> stats \<Rightarrow> stats \<Rightarrow> stats" where
  "add_stats rt grand columnStats =
     \<lparr>s_cost = js_plus rt (s_cost grand) (s_cost columnStats),
      s_tokens = js_plus rt (s_tokens grand) (s_tokens columnStats),
      s_promptTokens = js_plus rt (s_promptTokens grand) (s_promptTokens columnStats),
      s_completionTokens = js_plus rt (s_completionTokens grand) (s_completionTokens columnStats)\<rparr>"

fun run_columns ::
  "runtime \<Rightarrow> (nat \<Rightarrow> nat \<Rightarrow> nat \<Rightarrow> request \<Rightarrow> js_error + jsval) \<Rightarrow> (nat \<Rightarrow> nat \<Rightarrow> string option)
     \<Rightarrow> string \<Rightarrow> nat \<Rightarrow> column_config list \<Rightarrow> stats \<Rightarrow> state \<Rightarrow> ((js_error + stats) \<times> state) option" where
  "run_columns rt post ckpt path i [] grand st = Some (Inr grand, st)"
| "run_columns rt post ckpt path i (c # cs) grand st =
     (case processColumn rt (post i) (ckpt i) c path st of
        None \<Rightarrow> None
      | Some (Inl err, st1) \<Rightarrow> Some (Inl err, st1)
      | Some (Inr columnStats, st1) \<Rightarrow>
          run_columns rt post ckpt path (Suc i) cs (add_stats rt grand columnStats) st1)"



section \<open>Properties of the Template Filler\<close>

lemma braces_not_name_chars:
  "\<not> is_word CHR ''{''" "\<not> is_space CHR ''{''" "\<not> is_word CHR ''}''" "\<not> is_space CHR ''}''"
  by (simp_all add: is_word_def is_space_def)

lemma word_not_space: "is_word c \<Longrightarrow> \<not> is_space c"
  by (auto simp: is_word_def is_space_def)

lemma closing_context:
  "(case cs @ CHR ''{'' # t of [] \<Rightarrow> None | d # r \<Rightarrow> if d = CHR ''}'' then Some ([], r) else None) =
   map_option (\<lambda>p. (fst p, snd p @ CHR ''{'' # t))
     (case cs of [] \<Rightarrow> None | d # r \<Rightarrow> if d = CHR ''}'' then Some ([]::string, r) else None)"
  by (cases cs) simp_all

text \<open>
  An opening brace ends every attempt to match: an attempt that starts in front of it
  succeeds or fails as it does on the text in front alone.
\<close>

lemma in_word_context:
  "in_word (s @ CHR ''{'' # t) = map_option (\<lambda>(n, r). (n, r @ CHR ''{'' # t)) (in_word s) \<and>
   in_space (s @ CHR ''{'' # t) = map_option (\<lambda>(n, r). (n, r @ CHR ''{'' # t)) (in_space s)"
proof (induction s)
  case Nil
  show ?case by (simp add: braces_not_name_chars)
next
  case (Cons c cs)
  have a: "in_word (cs @ CHR ''{'' # t) = map_option (\<lambda>(n, r). (n, r @ CHR ''{'' # t)) (in_word cs)"
    and b: "in_space (cs @ CHR ''{'' # t) = map_option (\<lambda>(n, r). (n, r @ CHR ''{'' # t)) (in_space cs)"
    using Cons.IH by simp_all
  show ?case
    by (simp add: a b closing_context option.map_comp comp_def case_prod_beta)
qed

lemma match_placeholder_context:
  assumes "pre \<noteq> []"
  shows "match_placeholder (pre @ CHR ''{'' # CHR ''{'' # t) =
     map_option (\<lambda>(n, r). (n, r @ CHR ''{'' # CHR ''{'' # t)) (match_placeholder pre)"
proof -
  from assms consider a where "pre = [a]" | a b where "pre = [a, b]"
    | a b c cs where "pre = a # b # c # cs"
    by (metis list.exhaust)
  then show ?thesis
  proof cases
    case 1
    then show ?thesis by (simp add: match_placeholder_def braces_not_name_chars)
  next
    case 2
    then show ?thesis by (simp add: match_placeholder_def braces_not_name_chars)
  next
    case 3
    then show ?thesis
      by (simp add: match_placeholder_def in_word_context option.map_comp comp_def case_prod_beta)
  qed
qed

lemma in_word_name:
  "(\<forall>c \<in> set w. is_word c \<or> is_space c) \<Longrightarrow>
   ((w = [] \<or> is_word (last w)) \<longrightarrow> in_word (w @ CHR ''}'' # CHR ''}'' # post) = Some (w, post)) \<and>
   ((w \<noteq> [] \<and> is_word (last w)) \<longrightarrow> in_space (w @ CHR ''}'' # CHR ''}'' # post) = Some (w, post))"
proof (induction w)
  case Nil
  show ?case by (simp add: braces_not_name_chars)
next
  case (Cons c cs)
  then show ?case
    by (cases "cs = []") (auto simp: braces_not_name_chars word_not_space)
qed

lemma match_placeholder_name:
  assumes "wf_name name"
  shows "match_placeholder (CHR ''{'' # CHR ''{'' # name @ CHR ''}'' # CHR ''}'' # post) = Some (name, post)"
proof -
  from assms obtain c w where n: "name = c # w" and c: "is_word c"
    and w: "\<forall>c \<in> set w. is_word c \<or> is_space c" and l: "w = [] \<or> is_word (last w)"
    unfolding wf_name_def by (cases name) (auto split: if_splits)
  have "in_word (w @ CHR ''}'' # CHR ''}'' # post) = Some (w, post)"
    using in_word_name [OF w] l by blast
  then show ?thesis using n c by (simp add: match_placeholder_def)
qed

text \<open>
  The Template Filler at a placeholder. Wherever \<open>{{name}}\<close> stands in a prompt template,
  whatever text surrounds it, the filler puts in its place what the read \<^verbatim>\<open>rowData[name]\<close>
  finds, converted to a string, and leaves the placeholder as it is when the read finds
  nothing; the text before and the text behind are filled on their own. The function returns
  the filled prompt and nothing else: it has no state to change.
\<close>

lemma fillPromptTemplate_placeholder:
  assumes "wf_name name"
  shows "fillPromptTemplate num (pre @ ''{{'' @ name @ ''}}'' @ post) rowData =
         fillPromptTemplate num pre rowData
         @ (case row_get rowData name of Some v \<Rightarrow> to_string num v | None \<Rightarrow> ''{{'' @ name @ ''}}'')
         @ fillPromptTemplate num post rowData"
proof (induction num pre rowData rule: fillPromptTemplate.induct)
  case (1 num rowData)
  show ?case
    using match_placeholder_name [OF assms, of post] by (simp add: fillPromptTemplate.simps)
next
  case (2 num c cs rowData)
  let ?X = "''{{'' @ name @ ''}}'' @ post"
  let ?V = "case row_get rowData name of Some v \<Rightarrow> to_string num v | None \<Rightarrow> ''{{'' @ name @ ''}}''"
  have m: "match_placeholder (c # cs @ ?X) =
        map_option (\<lambda>(n, r). (n, r @ ?X)) (match_placeholder (c # cs))"
    using match_placeholder_context [of "c # cs" "name @ ''}}'' @ post"] by simp
  show ?case
  proof (cases "match_placeholder (c # cs)")
    case None
    have mf: "match_placeholder (c # cs @ ?X) = None" using m None by simp
    have ih: "fillPromptTemplate num (cs @ ?X) rowData =
        fillPromptTemplate num cs rowData @ ?V @ fillPromptTemplate num post rowData"
      using "2.IH"(1) [OF None] .
    have lhs: "fillPromptTemplate num (c # cs @ ?X) rowData = c # fillPromptTemplate num (cs @ ?X) rowData"
      by (simp only: fillPromptTemplate.simps mf option.case)
    have rhs: "fillPromptTemplate num (c # cs) rowData = c # fillPromptTemplate num cs rowData"
      by (simp only: fillPromptTemplate.simps None option.case)
    have "fillPromptTemplate num ((c # cs) @ ?X) rowData =
        c # fillPromptTemplate num (cs @ ?X) rowData"
      using lhs by (simp only: append_Cons)
    also have "\<dots> = c # (fillPromptTemplate num cs rowData @ ?V @ fillPromptTemplate num post rowData)"
      by (simp only: ih)
    also have "\<dots> = fillPromptTemplate num (c # cs) rowData @ ?V @ fillPromptTemplate num post rowData"
      by (simp only: rhs append_Cons)
    finally show ?thesis .
  next
    case (Some p)
    obtain n r where p: "p = (n, r)" by (cases p)
    have ms: "match_placeholder (c # cs) = Some (n, r)" using Some p by simp
    have mf: "match_placeholder (c # cs @ ?X) = Some (n, r @ ?X)" using m ms by simp
    have ih: "fillPromptTemplate num (r @ ?X) rowData =
        fillPromptTemplate num r rowData @ ?V @ fillPromptTemplate num post rowData"
      using "2.IH"(2) [OF ms refl] .
    let ?W = "case row_get rowData n of Some v \<Rightarrow> to_string num v | None \<Rightarrow> ''{{'' @ n @ ''}}''"
    have lhs: "fillPromptTemplate num (c # cs @ ?X) rowData = ?W @ fillPromptTemplate num (r @ ?X) rowData"
      by (simp only: fillPromptTemplate.simps mf option.case prod.case)
    have rhs: "fillPromptTemplate num (c # cs) rowData = ?W @ fillPromptTemplate num r rowData"
      by (simp only: fillPromptTemplate.simps ms option.case prod.case)
    have "fillPromptTemplate num ((c # cs) @ ?X) rowData =
        ?W @ fillPromptTemplate num (r @ ?X) rowData"
      using lhs by (simp only: append_Cons)
    also have "\<dots> = ?W @ (fillPromptTemplate num r rowData @ ?V @ fillPromptTemplate num post rowData)"
      by (simp only: ih)
    also have "\<dots> = fillPromptTemplate num (c # cs) rowData @ ?V @ fillPromptTemplate num post rowData"
      by (simp only: rhs append_assoc)
    finally show ?thesis .
  qed
qed

lemma fillPromptTemplate_placeholder_example:
  "wf_name ''Video Title''
   \<and> fillPromptTemplate (number_to_string demo_runtime)
       (''Sum up {{Video Title}} for {{Channel}}'') [(''Video Title'', JStr ''Chess'')]
     = ''Sum up Chess for {{Channel}}''"
proof -
  have w: "wf_name ''Video Title''" by code_simp
  have pre: "fillPromptTemplate (number_to_string demo_runtime) ''Sum up ''
               [(''Video Title'', JStr ''Chess'')] = ''Sum up ''"
    by code_simp
  have post: "fillPromptTemplate (number_to_string demo_runtime) '' for {{Channel}}''
               [(''Video Title'', JStr ''Chess'')] = '' for {{Channel}}''"
    by code_simp
  have v: "row_get [(''Video Title'', JStr ''Chess'')] ''Video Title'' = Some (JStr ''Chess'')"
    by (simp add: row_get_def)
  show ?thesis
    using w fillPromptTemplate_placeholder [OF w, of "number_to_string demo_runtime" "''Sum up ''"
        "'' for {{Channel}}''" "[(''Video Title'', JStr ''Chess'')]"]
    by (simp add: pre post v)
qed

text \<open>
  Claim C5 says that a placeholder whose field is absent from the row is left unchanged. The
  read \<^verbatim>\<open>rowData[columnName]\<close> also finds what the row inherits from
  \<^verbatim>\<open>Object.prototype\<close>, and the test \<^verbatim>\<open>value !== undefined\<close> does not tell an inherited
  property from a field. A row with the single field \<open>Video\<close> has no field
  \<open>constructor\<close>, and yet the placeholder \<open>{{constructor}}\<close> is replaced, by the text of
  the function \<^verbatim>\<open>Object\<close>.
\<close>

theorem fillPromptTemplate_inherited_name:
  "map_of [(''Video'', JStr ''a'')] ''constructor'' = None
   \<and> fillPromptTemplate (number_to_string demo_runtime) ''Describe {{constructor}}''
       [(''Video'', JStr ''a'')]
     = ''Describe function Object() { [native code] }''"
  by code_simp



section \<open>Properties of the Response Distributor\<close>























section \<open>Properties of the Batch Retry Controller\<close>

lemma pending_0: "pending task rs batch 0 = batch"
  by (simp add: pending_def)

lemma pending_Suc:
  "pending task rs batch (Suc r) = filter (\<lambda>i. isl (task r i (rs ! i))) (pending task rs batch r)"
  by (auto simp: pending_def intro: filter_cong)

lemma pending_subset: "set (pending task rs batch r) \<subseteq> set batch"
  by (auto simp: pending_def)

lemma settle_round_agree:
  assumes "\<forall>i \<in> set ps. rs ! i = rs0 ! i"
  shows "settle_round f ps rs = map (\<lambda>i. (i, f i (rs0 ! i))) ps"
  using assms by (simp add: settle_round_def)

lemma failed_of_map:
  "failed_of (map (\<lambda>i. (i, g i)) ps) = map (\<lambda>i. (i, projl (g i))) (filter (\<lambda>i. isl (g i)) ps)"
  by (simp add: failed_of_def filter_map comp_def)

lemma succeeded_of_map:
  "succeeded_of (map (\<lambda>i. (i, g i)) ps) = map (\<lambda>i. fst (projr (g i))) (filter (\<lambda>i. \<not> isl (g i)) ps)"
  by (simp add: succeeded_of_def filter_map comp_def)

lemma write_back_length: "length (write_back rs results) = length rs"
  unfolding write_back_def
  by (induction results arbitrary: rs) (auto split: sum.splits)

lemma write_back_untouched:
  assumes "\<forall>x \<in> set results. fst x = j \<longrightarrow> isl (snd x)"
  shows "write_back rs results ! j = rs ! j"
  using assms unfolding write_back_def
proof (induction results arbitrary: rs)
  case Nil
  show ?case by simp
next
  case (Cons x xs)
  show ?case
  proof (cases "snd x")
    case (Inl e)
    then show ?thesis using Cons by simp
  next
    case (Inr y)
    then have "fst x \<noteq> j" using Cons.prems by auto
    then show ?thesis using Cons Inr by simp
  qed
qed

lemma retry_loop_done:
  "retry_loop rt req task maxRetries [] r acc st = (Inr acc, st)"
  by (simp add: retry_loop.simps)

text \<open>
  The loop, started at round \<open>r\<close> on the indices pending there, runs the rounds up to the
  first round \<open>R\<close> after which nothing is pending, or up to the ceiling. It returns the
  outcomes of the rounds in order, or fails with the indices still pending after the last
  round.
\<close>

lemma retry_loop_rounds:
  assumes "r \<le> R" "R \<le> maxRetries"
    and "\<forall>k. r \<le> k \<and> k \<le> R \<longrightarrow> pending task rs0 batch k \<noteq> []"
    and "pending task rs0 batch (Suc R) = [] \<or> R = maxRetries"
    and "\<forall>i \<in> set (pending task rs0 batch r). rows st ! i = rs0 ! i"
  shows "\<exists>st'. retry_loop rt req task maxRetries (pending task rs0 batch r) r acc st =
           (if pending task rs0 batch (Suc R) = []
            then Inr (acc @ concat (map (round_outcomes task rs0 batch) [r..<Suc R]))
            else Inl (exhausted_error (pending task rs0 batch (Suc R)) maxRetries), st')
         \<and> trace st' = trace st @ rounds_events req task rs0 batch r R
             @ (if pending task rs0 batch (Suc R) = [] then []
                else failure_report (pending task rs0 batch (Suc R)) maxRetries
                       (summarize rt (last_failures task rs0 batch R)))
         \<and> length (rows st') = length (rows st)"
  using assms
proof (induction "R - r" arbitrary: r acc st)
  case 0
  then have rR: "r = R" by simp
  let ?P = "pending task rs0 batch"
  let ?results = "map (\<lambda>i. (i, task R i (rs0 ! i))) (?P R)"
  have ne: "?P R \<noteq> []" using "0.prems" rR by simp
  have sr: "settle_round (task R) (?P R) (rows st) = ?results"
    using "0.prems"(5) rR by (intro settle_round_agree) simp
  have inv: "map (\<lambda>rowIndex. Invoke R rowIndex (req (rows st ! rowIndex))) (?P R)
             = round_events req task rs0 batch R"
    using "0.prems"(5) rR by (simp add: round_events_def)
  have fl: "map fst (failed_of ?results) = ?P (Suc R)"
    by (simp add: failed_of_map pending_Suc comp_def)
  have fe: "(failed_of ?results = []) = (?P (Suc R) = [])"
    using arg_cong [OF fl, of "\<lambda>xs. xs = []"] by simp
  have fl2: "failed_of ?results = last_failures task rs0 batch R"
    by (simp add: failed_of_map pending_Suc last_failures_def)
  have su: "succeeded_of ?results = round_outcomes task rs0 batch R"
    by (simp add: succeeded_of_map round_outcomes_def)
  show ?case
  proof (cases "?P (Suc R) = []")
    case True
    show ?thesis
      unfolding rR
      apply (subst retry_loop.simps)
      using ne "0.prems"(2) True
      apply (simp add: Let_def sr fl fe inv su retry_loop_done rounds_events_def write_back_length)
      done
  next
    case False
    then have gt: "maxRetries < Suc R" using "0.prems"(4) by simp
    have fl3: "map fst (last_failures task rs0 batch R) = ?P (Suc R)"
      using fl fl2 by simp
    have fe3: "(last_failures task rs0 batch R = []) = (?P (Suc R) = [])"
      using fe fl2 by simp
    show ?thesis
      unfolding rR
      apply (subst retry_loop.simps)
      using ne False gt "0.prems"(2)
      apply (simp add: Let_def sr fl2 fl3 fe3 inv su rounds_events_def write_back_length emit_def)
      done
  qed
next
  case (Suc n)
  let ?P = "pending task rs0 batch"
  let ?results = "map (\<lambda>i. (i, task r i (rs0 ! i))) (?P r)"
  have rR: "r < R" using Suc.hyps by simp
  have ne: "?P r \<noteq> []" using Suc.prems by simp
  have ne1: "?P (Suc r) \<noteq> []" using Suc.prems(3) rR by simp
  have rm: "r < maxRetries" using rR Suc.prems(2) by simp
  have sr: "settle_round (task r) (?P r) (rows st) = ?results"
    using Suc.prems(5) by (intro settle_round_agree) simp
  have inv: "map (\<lambda>rowIndex. Invoke r rowIndex (req (rows st ! rowIndex))) (?P r)
             = round_events req task rs0 batch r"
    using Suc.prems(5) by (simp add: round_events_def)
  have fl: "map fst (failed_of ?results) = ?P (Suc r)"
    by (simp add: failed_of_map pending_Suc comp_def)
  have fe: "(failed_of ?results = []) = (?P (Suc r) = [])"
    using arg_cong [OF fl, of "\<lambda>xs. xs = []"] by simp
  have su: "succeeded_of ?results = round_outcomes task rs0 batch r"
    by (simp add: succeeded_of_map round_outcomes_def)
  define st2 where "st2 = emit [Sleep (2 ^ Suc r * 1000)]
      \<lparr>rows = write_back (rows st) ?results, trace = trace st @ round_events req task rs0 batch r\<rparr>"
  have keep: "\<forall>i \<in> set (?P (Suc r)). rows st2 ! i = rs0 ! i"
  proof
    fix i assume i: "i \<in> set (?P (Suc r))"
    then have ir: "i \<in> set (?P r)" and f: "isl (task r i (rs0 ! i))"
      by (simp_all add: pending_Suc)
    have "write_back (rows st) ?results ! i = rows st ! i"
      using f by (intro write_back_untouched) auto
    then show "rows st2 ! i = rs0 ! i"
      using Suc.prems(5) ir by (simp add: st2_def emit_def)
  qed
  have step: "retry_loop rt req task maxRetries (?P r) r acc st =
      retry_loop rt req task maxRetries (?P (Suc r)) (Suc r)
        (acc @ round_outcomes task rs0 batch r) st2"
    apply (subst retry_loop.simps)
    using ne ne1 rm
    apply (simp add: Let_def sr fl fe inv su st2_def)
    done
  have n: "n = R - Suc r" using Suc.hyps by simp
  have p3: "\<forall>k. Suc r \<le> k \<and> k \<le> R \<longrightarrow> ?P k \<noteq> []" using Suc.prems(3) by simp
  obtain st' where
    res: "retry_loop rt req task maxRetries (?P (Suc r)) (Suc r)
            (acc @ round_outcomes task rs0 batch r) st2 =
           (if ?P (Suc R) = []
            then Inr ((acc @ round_outcomes task rs0 batch r)
                      @ concat (map (round_outcomes task rs0 batch) [Suc r..<Suc R]))
            else Inl (exhausted_error (?P (Suc R)) maxRetries), st')"
    and tr: "trace st' = trace st2 @ rounds_events req task rs0 batch (Suc r) R
             @ (if ?P (Suc R) = [] then []
                else failure_report (?P (Suc R)) maxRetries
                       (summarize rt (last_failures task rs0 batch R)))"
    and len: "length (rows st') = length (rows st2)"
    using Suc.hyps(1) [OF n _ Suc.prems(2) p3 Suc.prems(4) keep, of "acc @ round_outcomes task rs0 batch r"] rR
    by auto
  have up: "[r..<Suc R] = r # [Suc r..<Suc R]" using rR by (simp add: upt_conv_Cons)
  have up2: "[Suc r..<Suc R] = Suc r # [Suc (Suc r)..<Suc R]" using rR by (simp add: upt_conv_Cons)
  have ev0: "rounds_events req task rs0 batch r R =
      round_events req task rs0 batch r
      @ Sleep (2 ^ Suc r * 1000) # rounds_events req task rs0 batch (Suc r) R"
    unfolding rounds_events_def by (subst up2) (simp del: upt_Suc)
  have ev: "trace st2 @ rounds_events req task rs0 batch (Suc r) R
            = trace st @ rounds_events req task rs0 batch r R"
    unfolding ev0 by (simp add: st2_def emit_def)
  show ?case
    apply (rule exI [of _ st'])
    using res tr len ev
    apply (simp add: step up st2_def emit_def write_back_length del: upt_Suc)
    done
qed

lemma processBatch_retry_loop:
  "processBatch rt post batchStart batchEnd columnInfo modelName prompt plugins webSearchOptions
     maxRetries st =
   retry_loop rt (batch_request rt modelName prompt plugins webSearchOptions)
     (batch_task rt post columnInfo modelName prompt plugins webSearchOptions)
     maxRetries [batchStart..<batchEnd] 0 [] st"
proof -
  have 1: "batch_request rt modelName prompt plugins webSearchOptions =
     (\<lambda>r. requestBody modelName (fillPromptTemplate (number_to_string rt) prompt r)
               plugins webSearchOptions)"
    by (rule ext) (simp add: batch_request_def)
  have 2: "batch_task rt post columnInfo modelName prompt plugins webSearchOptions =
     (\<lambda>round rowIndex r. processRow rt (post round rowIndex) r rowIndex columnInfo modelName
                               prompt plugins webSearchOptions)"
    by (intro ext) (simp add: batch_task_def)
  show ?thesis unfolding processBatch_def 1 2 ..
qed

lemma last_round_exists:
  assumes "r \<le> maxRetries" "pending task rs batch r \<noteq> []"
  shows "\<exists>R. r \<le> R \<and> R \<le> maxRetries
           \<and> (\<forall>k. r \<le> k \<and> k \<le> R \<longrightarrow> pending task rs batch k \<noteq> [])
           \<and> (pending task rs batch (Suc R) = [] \<or> R = maxRetries)"
  using assms
proof (induction "maxRetries - r" arbitrary: r)
  case 0
  then have "r = maxRetries" by simp
  then show ?case using "0.prems" by (intro exI [of _ r]) auto
next
  case (Suc n)
  show ?case
  proof (cases "pending task rs batch (Suc r) = []")
    case True
    then show ?thesis using Suc.prems by (intro exI [of _ r]) auto
  next
    case False
    have "n = maxRetries - Suc r" "Suc r \<le> maxRetries" using Suc.hyps by simp_all
    from Suc.hyps(1) [OF this False] obtain R where
      R: "Suc r \<le> R" "R \<le> maxRetries"
         "\<forall>k. Suc r \<le> k \<and> k \<le> R \<longrightarrow> pending task rs batch k \<noteq> []"
         "pending task rs batch (Suc R) = [] \<or> R = maxRetries"
      by blast
    have "\<forall>k. r \<le> k \<and> k \<le> R \<longrightarrow> pending task rs batch k \<noteq> []"
      using R(3) Suc.prems(2) by (metis Suc_leI le_neq_implies_less)
    then show ?thesis using R by (intro exI [of _ R]) auto
  qed
qed

lemma is_sleep_simps [simp]:
  "is_sleep (Sleep ms)" "\<not> is_sleep (Invoke k i q)" "\<not> is_sleep (WriteCSV p h rs)"
  "\<not> is_sleep (ConsoleError l)" "\<not> is_sleep (ConsoleWarn l)"
  by (simp_all add: is_sleep_def)

lemma is_invoke_simps [simp]:
  "is_invoke (Invoke k i q)" "\<not> is_invoke (Sleep ms)" "\<not> is_invoke (WriteCSV p h rs)"
  "\<not> is_invoke (ConsoleError l)" "\<not> is_invoke (ConsoleWarn l)"
  by (simp_all add: is_invoke_def)

lemma sleeps_of_round_events: "filter is_sleep (round_events req task rs batch k) = []"
  by (simp add: round_events_def filter_map comp_def)

lemma sleeps_of_rounds_events:
  "filter is_sleep (rounds_events req task rs batch r R)
     = map (\<lambda>k. Sleep (2 ^ k * 1000)) [Suc r..<Suc R]"
proof -
  have "filter is_sleep (concat (map (\<lambda>k. Sleep (2 ^ k * 1000) # round_events req task rs batch k) ks))
        = map (\<lambda>k. Sleep (2 ^ k * 1000)) ks" for ks
    by (induction ks) (simp_all add: sleeps_of_round_events)
  then show ?thesis by (simp add: rounds_events_def sleeps_of_round_events)
qed

lemma sleeps_of_failure_report: "filter is_sleep (failure_report ps m summary) = []"
proof -
  have "filter is_sleep (concat (map (\<lambda>entry. [ConsoleError (f entry), ConsoleError (g entry)]) xs)) = []"
    for f g :: "string \<times> nat list \<Rightarrow> string" and xs
    by (induction xs) simp_all
  then show ?thesis by (simp add: failure_report_def)
qed

lemma write_paths_Nil [simp]: "write_paths [] = []"
  by (simp add: write_paths_def)

lemma write_paths_append [simp]: "write_paths (xs @ ys) = write_paths xs @ write_paths ys"
  by (simp add: write_paths_def)

lemma write_paths_round_events: "write_paths (round_events req task rs batch k) = []"
  by (simp add: write_paths_def round_events_def)

lemma write_paths_rounds_events: "write_paths (rounds_events req task rs batch r R) = []"
proof -
  have "write_paths (concat (map (\<lambda>k. Sleep (2 ^ k * 1000) # round_events req task rs batch k) ks)) = []"
    for ks
    using write_paths_round_events [of req task rs batch]
    by (induction ks) (simp_all add: write_paths_def)
  then show ?thesis by (simp add: rounds_events_def write_paths_round_events)
qed

lemma write_paths_failure_report: "write_paths (failure_report ps m summary) = []"
  by (simp add: write_paths_def failure_report_def)

lemma invokes_of_round_events:
  "filter is_invoke (round_events req task rs batch k) = round_events req task rs batch k"
  by (simp add: round_events_def filter_map comp_def)

lemma invokes_of_failure_report: "filter is_invoke (failure_report ps m summary) = []"
proof -
  have "filter is_invoke (concat (map (\<lambda>entry. [ConsoleError (f entry), ConsoleError (g entry)]) xs)) = []"
    for f g :: "string \<times> nat list \<Rightarrow> string" and xs
    by (induction xs) simp_all
  then show ?thesis by (simp add: failure_report_def)
qed

text \<open>The external actions of a batch, whatever the responses.\<close>

lemma processBatch_trace:
  "\<exists>R tail. R \<le> maxRetries
     \<and> trace (snd (processBatch rt post batchStart batchEnd columnInfo modelName prompt plugins
                      webSearchOptions maxRetries st))
       = trace st
         @ rounds_events (batch_request rt modelName prompt plugins webSearchOptions)
             (batch_task rt post columnInfo modelName prompt plugins webSearchOptions)
             (rows st) [batchStart..<batchEnd] 0 R
         @ tail
     \<and> filter is_sleep tail = [] \<and> filter is_invoke tail = []
     \<and> write_paths
           (rounds_events (batch_request rt modelName prompt plugins webSearchOptions)
              (batch_task rt post columnInfo modelName prompt plugins webSearchOptions)
              (rows st) [batchStart..<batchEnd] 0 R
            @ tail) = []"
proof -
  let ?req = "batch_request rt modelName prompt plugins webSearchOptions"
  let ?task = "batch_task rt post columnInfo modelName prompt plugins webSearchOptions"
  let ?batch = "[batchStart..<batchEnd]"
  let ?P = "pending ?task (rows st) ?batch"
  show ?thesis
  proof (cases "?batch = []")
    case True
    then have "?P 0 = []" by (simp add: pending_0)
    then have "rounds_events ?req ?task (rows st) ?batch 0 0 = []"
      by (simp add: rounds_events_def round_events_def)
    moreover have "processBatch rt post batchStart batchEnd columnInfo modelName prompt plugins
                      webSearchOptions maxRetries st = (Inr [], st)"
      unfolding processBatch_retry_loop True by (rule retry_loop_done)
    ultimately show ?thesis
      by (intro exI [of _ 0] exI [of _ "[]"]) (simp add: write_paths_def)
  next
    case False
    then have ne: "?P 0 \<noteq> []" by (simp add: pending_0)
    from last_round_exists [OF _ ne, of maxRetries] obtain R where
      R: "0 \<le> R" "R \<le> maxRetries" "\<forall>k. 0 \<le> k \<and> k \<le> R \<longrightarrow> ?P k \<noteq> []"
         "?P (Suc R) = [] \<or> R = maxRetries"
      by blast
    have agree: "\<forall>i \<in> set (?P 0). rows st ! i = rows st ! i" by simp
    from retry_loop_rounds [OF R(1) R(2) R(3) R(4) agree, of rt ?req "[]"]
    obtain st' where
      res: "retry_loop rt ?req ?task maxRetries (?P 0) 0 [] st =
             (if ?P (Suc R) = []
              then Inr ([] @ concat (map (round_outcomes ?task (rows st) ?batch) [0..<Suc R]))
              else Inl (exhausted_error (?P (Suc R)) maxRetries), st')"
      and tr: "trace st' = trace st @ rounds_events ?req ?task (rows st) ?batch 0 R
             @ (if ?P (Suc R) = [] then []
                else failure_report (?P (Suc R)) maxRetries
                       (summarize rt (last_failures ?task (rows st) ?batch R)))"
      by blast
    let ?tail = "if ?P (Suc R) = [] then []
                else failure_report (?P (Suc R)) maxRetries
                       (summarize rt (last_failures ?task (rows st) ?batch R))"
    have snd: "snd (processBatch rt post batchStart batchEnd columnInfo modelName prompt plugins
                      webSearchOptions maxRetries st) = st'"
      using res unfolding processBatch_retry_loop by (simp add: pending_0)
    have t0: "filter is_sleep ?tail = []" "filter is_invoke ?tail = []" "write_paths ?tail = []"
      by (simp_all add: sleeps_of_failure_report invokes_of_failure_report
            write_paths_failure_report)
    show ?thesis
      apply (rule exI [of _ R], rule exI [of _ ?tail])
      unfolding snd
      using R(2) tr t0
      apply (simp add: write_paths_rounds_events)
      done
  qed
qed

text \<open>
  The last round of a batch is the round \<open>R\<close> in which rows were still pending and after
  which either none is or the ceiling is reached. It determines the whole trace.
\<close>

lemma processBatch_rounds:
  assumes R: "R \<le> maxRetries"
    and ne: "pending (batch_task rt post columnInfo modelName prompt plugins webSearchOptions)
               (rows st) [batchStart..<batchEnd] R \<noteq> []"
    and last: "pending (batch_task rt post columnInfo modelName prompt plugins webSearchOptions)
                 (rows st) [batchStart..<batchEnd] (Suc R) = [] \<or> R = maxRetries"
  shows "trace (snd (processBatch rt post batchStart batchEnd columnInfo modelName prompt plugins
                       webSearchOptions maxRetries st))
         = trace st
           @ rounds_events (batch_request rt modelName prompt plugins webSearchOptions)
               (batch_task rt post columnInfo modelName prompt plugins webSearchOptions)
               (rows st) [batchStart..<batchEnd] 0 R
           @ (if pending (batch_task rt post columnInfo modelName prompt plugins webSearchOptions)
                   (rows st) [batchStart..<batchEnd] (Suc R) = []
              then []
              else failure_report
                     (pending (batch_task rt post columnInfo modelName prompt plugins
                                 webSearchOptions) (rows st) [batchStart..<batchEnd] (Suc R))
                     maxRetries
                     (summarize rt
                        (last_failures (batch_task rt post columnInfo modelName prompt plugins
                                          webSearchOptions) (rows st) [batchStart..<batchEnd] R)))"
proof -
  let ?req = "batch_request rt modelName prompt plugins webSearchOptions"
  let ?task = "batch_task rt post columnInfo modelName prompt plugins webSearchOptions"
  let ?batch = "[batchStart..<batchEnd]"
  let ?P = "pending ?task (rows st) ?batch"
  have all: "\<forall>k. 0 \<le> k \<and> k \<le> R \<longrightarrow> ?P k \<noteq> []"
  proof (intro allI impI)
    fix k assume k: "0 \<le> k \<and> k \<le> R"
    have "set (?P R) \<subseteq> set (?P k)"
      using k by (auto simp: pending_def list_all_iff)
    then show "?P k \<noteq> []" using ne by auto
  qed
  have agree: "\<forall>i \<in> set (?P 0). rows st ! i = rows st ! i" by simp
  have z: "(0::nat) \<le> R" by simp
  from retry_loop_rounds [OF z R all last agree, of rt ?req "[]"]
  obtain st' where
    res: "retry_loop rt ?req ?task maxRetries (?P 0) 0 [] st =
           (if ?P (Suc R) = []
            then Inr ([] @ concat (map (round_outcomes ?task (rows st) ?batch) [0..<Suc R]))
            else Inl (exhausted_error (?P (Suc R)) maxRetries), st')"
    and tr: "trace st' = trace st @ rounds_events ?req ?task (rows st) ?batch 0 R
           @ (if ?P (Suc R) = [] then []
              else failure_report (?P (Suc R)) maxRetries
                     (summarize rt (last_failures ?task (rows st) ?batch R)))"
    by blast
  have "snd (processBatch rt post batchStart batchEnd columnInfo modelName prompt plugins
               webSearchOptions maxRetries st) = st'"
    using res unfolding processBatch_retry_loop by (simp add: pending_0)
  then show ?thesis using tr by simp
qed

text \<open>
  Claim C4. Let \<open>R\<close> be the last round of a batch. The external actions of the batch are
  the invocations of round 0 and then, for each retry round \<open>r = 1, \<dots>, R\<close>, one call of
  \<^verbatim>\<open>sleep\<close> with \<open>2\<^sup>r\<close> seconds followed by the invocations of all rows retried in round
  \<open>r\<close>, and behind them only the report of the rows left when the ceiling is reached. So
  the batch sleeps exactly \<open>R\<close> times, for 2, 4, 8, \<dots>, \<open>2\<^sup>R\<close> seconds in this order: once
  before each retry round, however many rows that round retries. Every batch that is not
  empty has a last round, and an empty batch does nothing.
\<close>

theorem backoff_doubles_each_round:
  "let req = batch_request rt modelName prompt plugins webSearchOptions;
       task = batch_task rt post columnInfo modelName prompt plugins webSearchOptions;
       batch = [batchStart..<batchEnd];
       rs = rows st;
       run = processBatch rt post batchStart batchEnd columnInfo modelName prompt plugins
               webSearchOptions maxRetries st
   in (R \<le> maxRetries \<and> pending task rs batch R \<noteq> []
         \<and> (pending task rs batch (Suc R) = [] \<or> R = maxRetries)
       \<longrightarrow> trace (snd run)
             = trace st
               @ round_events req task rs batch 0
               @ concat (map (\<lambda>r. Sleep (2 ^ r * 1000) # round_events req task rs batch r)
                           [1..<Suc R])
               @ (if pending task rs batch (Suc R) = [] then []
                  else failure_report (pending task rs batch (Suc R)) maxRetries
                         (summarize rt (last_failures task rs batch R)))
           \<and> filter is_sleep (trace (snd run))
             = filter is_sleep (trace st) @ map (\<lambda>r. Sleep (2 ^ r * 1000)) [1..<Suc R])
      \<and> (batch \<noteq> []
          \<longrightarrow> (\<exists>R'. R' \<le> maxRetries \<and> pending task rs batch R' \<noteq> []
                  \<and> (pending task rs batch (Suc R') = [] \<or> R' = maxRetries)))
      \<and> (batch = [] \<longrightarrow> run = (Inr [], st))"
proof -
  let ?req = "batch_request rt modelName prompt plugins webSearchOptions"
  let ?task = "batch_task rt post columnInfo modelName prompt plugins webSearchOptions"
  let ?batch = "[batchStart..<batchEnd]"
  let ?P = "pending ?task (rows st) ?batch"
  let ?run = "processBatch rt post batchStart batchEnd columnInfo modelName prompt plugins
                webSearchOptions maxRetries st"
  let ?tail = "if ?P (Suc R) = [] then []
               else failure_report (?P (Suc R)) maxRetries
                      (summarize rt (last_failures ?task (rows st) ?batch R))"
  have a: "trace (snd ?run)
           = trace st
             @ round_events ?req ?task (rows st) ?batch 0
             @ concat (map (\<lambda>r. Sleep (2 ^ r * 1000) # round_events ?req ?task (rows st) ?batch r)
                         [1..<Suc R])
             @ ?tail
         \<and> filter is_sleep (trace (snd ?run))
           = filter is_sleep (trace st) @ map (\<lambda>r. Sleep (2 ^ r * 1000)) [1..<Suc R]"
    if h: "R \<le> maxRetries \<and> ?P R \<noteq> [] \<and> (?P (Suc R) = [] \<or> R = maxRetries)"
  proof -
    have R: "R \<le> maxRetries" and ne: "?P R \<noteq> []" and last: "?P (Suc R) = [] \<or> R = maxRetries"
      using h by simp_all
    have tr: "trace (snd ?run) = trace st @ rounds_events ?req ?task (rows st) ?batch 0 R @ ?tail"
      by (rule processBatch_rounds [OF R ne last])
    have t0: "filter is_sleep ?tail = []"
      by (simp add: sleeps_of_failure_report)
    have sl: "filter is_sleep (trace (snd ?run))
              = filter is_sleep (trace st) @ map (\<lambda>r. Sleep (2 ^ r * 1000)) [1..<Suc R]"
      unfolding tr using t0 by (simp add: sleeps_of_rounds_events del: upt_Suc)
    have ev: "rounds_events ?req ?task (rows st) ?batch 0 R
              = round_events ?req ?task (rows st) ?batch 0
                @ concat (map (\<lambda>r. Sleep (2 ^ r * 1000) # round_events ?req ?task (rows st) ?batch r)
                            [1..<Suc R])"
      by (simp add: rounds_events_def del: upt_Suc)
    show ?thesis using tr sl unfolding ev by (simp del: upt_Suc)
  qed
  have b: "\<exists>R'. R' \<le> maxRetries \<and> ?P R' \<noteq> [] \<and> (?P (Suc R') = [] \<or> R' = maxRetries)"
    if ne: "?batch \<noteq> []"
  proof -
    have p0: "?P 0 \<noteq> []" using ne by (simp add: pending_0)
    from last_round_exists [OF _ p0, of maxRetries] obtain R' where
      "R' \<le> maxRetries" "\<forall>k. 0 \<le> k \<and> k \<le> R' \<longrightarrow> ?P k \<noteq> []"
      "?P (Suc R') = [] \<or> R' = maxRetries"
      by blast
    then show ?thesis by (intro exI [of _ R']) simp
  qed
  have c: "?run = (Inr [], st)" if e: "?batch = []"
    unfolding processBatch_retry_loop e by (rule retry_loop_done)
  show ?thesis
    unfolding Let_def using a b c by (intro conjI impI) blast+
qed

text \<open>
  Witness for C4: row 2 fails in every round, so the last round is the ceiling, round 10,
  and the batch has slept ten times.
\<close>

theorem backoff_doubles_each_round_witness:
  "(10::nat) \<le> 10
   \<and> pending (batch_task demo_runtime demo_post_down (ColumnName ''Summary'') ''m''
                ''Sum {{Video}}'' None None) (rows demo_state) [0..<3] 10 = [2]
   \<and> filter is_sleep
        (trace (snd (processBatch demo_runtime demo_post_down 0 3 (ColumnName ''Summary'') ''m''
                       ''Sum {{Video}}'' None None 10 demo_state)))
     = [Sleep 2000, Sleep 4000, Sleep 8000, Sleep 16000, Sleep 32000, Sleep 64000, Sleep 128000,
        Sleep 256000, Sleep 512000, Sleep 1024000]"
proof -
  let ?task = "batch_task demo_runtime demo_post_down (ColumnName ''Summary'') ''m''
                 ''Sum {{Video}}'' None None"
  have p: "pending ?task (rows demo_state) [0..<3] 10 = [2]" by code_simp
  have ne: "pending ?task (rows demo_state) [0..<3] 10 \<noteq> []" unfolding p by simp
  have sl: "map (\<lambda>r. Sleep (2 ^ r * 1000)) [1..<Suc 10]
            = [Sleep 2000, Sleep 4000, Sleep 8000, Sleep 16000, Sleep 32000, Sleep 64000,
               Sleep 128000, Sleep 256000, Sleep 512000, Sleep 1024000]"
    by (simp add: upt_rec)
  have t: "trace demo_state = []" by (simp add: demo_state_def)
  have h: "(10::nat) \<le> 10 \<and> pending ?task (rows demo_state) [0..<3] 10 \<noteq> []
           \<and> (pending ?task (rows demo_state) [0..<3] (Suc 10) = [] \<or> (10::nat) = 10)"
    using ne by simp
  note inst = backoff_doubles_each_round [where R = 10 and maxRetries = 10 and rt = demo_runtime
      and post = demo_post_down and batchStart = 0 and batchEnd = 3
      and columnInfo = "ColumnName ''Summary''" and modelName = "''m''"
      and prompt = "''Sum {{Video}}''" and plugins = None and webSearchOptions = None
      and st = demo_state, unfolded Let_def]
  have "filter is_sleep
        (trace (snd (processBatch demo_runtime demo_post_down 0 3 (ColumnName ''Summary'') ''m''
                       ''Sum {{Video}}'' None None 10 demo_state)))
        = filter is_sleep (trace demo_state) @ map (\<lambda>r. Sleep (2 ^ r * 1000)) [1..<Suc 10]"
    by (rule inst [THEN conjunct1, THEN mp, OF h, THEN conjunct2])
  then show ?thesis unfolding sl t using p by simp
qed

lemma batch_task_outcome:
  assumes "batch_task rt post columnInfo modelName prompt plugins webSearchOptions k i r = Inr x"
  shows "o_rowIndex (fst x) = i \<and> o_success (fst x)"
  using assms
  by (auto simp: batch_task_def processRow_def Let_def split: sum.splits)

lemma round_events_Suc:
  "round_events req task rs batch (Suc k)
     = map (\<lambda>i. Invoke (Suc k) i (req (rs ! i)))
         (filter (\<lambda>i. isl (task k i (rs ! i))) (pending task rs batch k))"
  by (simp add: round_events_def pending_Suc)

text \<open>The run of a batch whose rows all succeed by their second attempt.\<close>

lemma retry_loop_two_rounds:
  assumes m: "0 < maxRetries"
    and ok: "\<forall>i \<in> set batch. isl (task 0 i (rs ! i)) \<longrightarrow> \<not> isl (task 1 i (rs ! i))"
    and rs: "rs = rows st"
  shows "\<exists>st'. retry_loop rt req task maxRetries batch 0 [] st =
           (Inr (round_outcomes task rs batch 0 @ round_outcomes task rs batch 1), st')
         \<and> trace st' = trace st @ round_events req task rs batch 0
             @ (if pending task rs batch 1 = [] then []
                else Sleep 2000 # round_events req task rs batch 1)"
proof -
  let ?P = "pending task rs batch"
  have p2: "?P (Suc 1) = []"
    using ok by (auto simp: pending_Suc pending_0 filter_empty_conv)
  have agree: "\<forall>i \<in> set (?P 0). rows st ! i = rs ! i" using rs by simp
  show ?thesis
  proof (cases "batch = []")
    case True
    then show ?thesis
      by (simp add: retry_loop_done round_outcomes_def round_events_def pending_def)
  next
    case False
    then have ne0: "?P 0 \<noteq> []" by (simp add: pending_0)
    show ?thesis
    proof (cases "?P 1 = []")
      case True
      have c: "\<forall>k. 0 \<le> k \<and> k \<le> 0 \<longrightarrow> ?P k \<noteq> []" using ne0 by simp
      have d: "?P (Suc 0) = [] \<or> 0 = maxRetries" using True by simp
      have b: "0 \<le> maxRetries" by simp
      from retry_loop_rounds [OF le_refl b c d agree, where rt = rt and req = req and acc = "[]"]
      obtain st' where
        "retry_loop rt req task maxRetries (?P 0) 0 [] st =
           (if ?P (Suc 0) = []
            then Inr ([] @ concat (map (round_outcomes task rs batch) [0..<Suc 0]))
            else Inl (exhausted_error (?P (Suc 0)) maxRetries), st')"
        "trace st' = trace st @ rounds_events req task rs batch 0 0
             @ (if ?P (Suc 0) = [] then []
                else failure_report (?P (Suc 0)) maxRetries
                       (summarize rt (last_failures task rs batch 0)))"
        by auto
      moreover have "round_outcomes task rs batch 1 = []"
        using True by (simp add: round_outcomes_def)
      ultimately show ?thesis
        using True by (intro exI [of _ st']) (simp add: pending_0 rounds_events_def)
    next
      case False
      have a: "(0::nat) \<le> 1" by simp
      have b: "1 \<le> maxRetries" using m by simp
      have c: "\<forall>k. 0 \<le> k \<and> k \<le> 1 \<longrightarrow> ?P k \<noteq> []"
      proof (intro allI impI)
        fix k :: nat assume "0 \<le> k \<and> k \<le> 1"
        then have "k = 0 \<or> k = 1" by auto
        then show "?P k \<noteq> []" using ne0 False by auto
      qed
      have d: "?P (Suc 1) = [] \<or> 1 = maxRetries" using p2 by simp
      from retry_loop_rounds [OF a b c d agree, where rt = rt and req = req and acc = "[]"]
      obtain st' where
        "retry_loop rt req task maxRetries (?P 0) 0 [] st =
           (if ?P (Suc 1) = []
            then Inr ([] @ concat (map (round_outcomes task rs batch) [0..<Suc 1]))
            else Inl (exhausted_error (?P (Suc 1)) maxRetries), st')"
        "trace st' = trace st @ rounds_events req task rs batch 0 1
             @ (if ?P (Suc 1) = [] then []
                else failure_report (?P (Suc 1)) maxRetries
                       (summarize rt (last_failures task rs batch 1)))"
        by auto
      then show ?thesis
        using False p2 by (intro exI [of _ st']) (simp add: pending_0 rounds_events_def)
    qed
  qed
qed

lemma round_outcomes_rowIndex:
  "map o_rowIndex
     (round_outcomes (batch_task rt post columnInfo modelName prompt plugins webSearchOptions)
        rs batch k)
   = filter (\<lambda>i. \<not> isl (batch_task rt post columnInfo modelName prompt plugins webSearchOptions
                          k i (rs ! i)))
       (pending (batch_task rt post columnInfo modelName prompt plugins webSearchOptions) rs batch k)"
proof -
  have "\<not> isl x \<Longrightarrow> x = batch_task rt post columnInfo modelName prompt plugins webSearchOptions k i r
        \<Longrightarrow> o_rowIndex (fst (projr x)) = i" for x i r
    using batch_task_outcome [of rt post columnInfo modelName prompt plugins webSearchOptions k i r "projr x"]
    by (cases x) auto
  then show ?thesis
    unfolding round_outcomes_def map_map comp_def
    by (intro map_idI) auto
qed

lemma round_outcomes_success:
  assumes "x \<in> set (round_outcomes (batch_task rt post columnInfo modelName prompt plugins
                        webSearchOptions) rs batch k)"
  shows "o_success x"
proof -
  from assms obtain i where
    "x = fst (projr (batch_task rt post columnInfo modelName prompt plugins webSearchOptions k i (rs ! i)))"
    "\<not> isl (batch_task rt post columnInfo modelName prompt plugins webSearchOptions k i (rs ! i))"
    by (auto simp: round_outcomes_def)
  then show ?thesis
    using batch_task_outcome [of rt post columnInfo modelName prompt plugins webSearchOptions k i "rs ! i"]
    by (cases "batch_task rt post columnInfo modelName prompt plugins webSearchOptions k i (rs ! i)") auto
qed

text \<open>
  Claim C1. In every batch the invocations come in rounds: round 0 for all rows of the batch,
  and each later round for exactly the rows whose task failed in the round before, none for
  a row that has succeeded. In particular, with a retry ceiling of at least one, when every
  row that fails on its first attempt succeeds on its second, the batch returns one
  successful outcome per row, the outcomes of the first round before those of the retry, and
  has made as many invocations as the batch has rows plus the number of rows that failed
  first.
\<close>

theorem retry_only_failed_rows:
  "let req = batch_request rt modelName prompt plugins webSearchOptions;
       task = batch_task rt post columnInfo modelName prompt plugins webSearchOptions;
       batch = [batchStart..<batchEnd];
       rs = rows st;
       run = processBatch rt post batchStart batchEnd columnInfo modelName prompt plugins
               webSearchOptions maxRetries st
   in (\<exists>R tail. R \<le> maxRetries
          \<and> trace (snd run) = trace st @ rounds_events req task rs batch 0 R @ tail
          \<and> filter is_invoke tail = [])
      \<and> (\<forall>k. round_events req task rs batch (Suc k)
               = map (\<lambda>i. Invoke (Suc k) i (req (rs ! i)))
                   (filter (\<lambda>i. isl (task k i (rs ! i))) (pending task rs batch k)))
      \<and> (0 < maxRetries
          \<and> (\<forall>i \<in> set batch. isl (task 0 i (rs ! i)) \<longrightarrow> \<not> isl (task 1 i (rs ! i)))
          \<longrightarrow> (\<exists>outs evs.
                 fst run = Inr outs
                 \<and> length outs = batchEnd - batchStart
                 \<and> (\<forall>x \<in> set outs. o_success x)
                 \<and> map o_rowIndex outs
                     = filter (\<lambda>i. \<not> isl (task 0 i (rs ! i))) batch
                       @ filter (\<lambda>i. isl (task 0 i (rs ! i))) batch
                 \<and> trace (snd run) = trace st @ evs
                 \<and> length (filter is_invoke evs)
                     = (batchEnd - batchStart)
                       + length (filter (\<lambda>i. isl (task 0 i (rs ! i))) batch)))"
proof -
  let ?req = "batch_request rt modelName prompt plugins webSearchOptions"
  let ?task = "batch_task rt post columnInfo modelName prompt plugins webSearchOptions"
  let ?batch = "[batchStart..<batchEnd]"
  let ?rs = "rows st"
  let ?run = "processBatch rt post batchStart batchEnd columnInfo modelName prompt plugins
               webSearchOptions maxRetries st"
  let ?F = "filter (\<lambda>i. isl (?task 0 i (?rs ! i))) ?batch"
  have general: "\<exists>R tail. R \<le> maxRetries
          \<and> trace (snd ?run) = trace st @ rounds_events ?req ?task ?rs ?batch 0 R @ tail
          \<and> filter is_invoke tail = []"
    using processBatch_trace [of maxRetries rt post batchStart batchEnd columnInfo modelName prompt
      plugins webSearchOptions st]
    by blast
  have next_round: "\<forall>k. round_events ?req ?task ?rs ?batch (Suc k)
               = map (\<lambda>i. Invoke (Suc k) i (?req (?rs ! i)))
                   (filter (\<lambda>i. isl (?task k i (?rs ! i))) (pending ?task ?rs ?batch k))"
    by (simp add: round_events_Suc)
  have scenario: "\<exists>outs evs.
                 fst ?run = Inr outs
                 \<and> length outs = batchEnd - batchStart
                 \<and> (\<forall>x \<in> set outs. o_success x)
                 \<and> map o_rowIndex outs = filter (\<lambda>i. \<not> isl (?task 0 i (?rs ! i))) ?batch @ ?F
                 \<and> trace (snd ?run) = trace st @ evs
                 \<and> length (filter is_invoke evs) = (batchEnd - batchStart) + length ?F"
    if m: "0 < maxRetries"
      and ok: "\<forall>i \<in> set ?batch. isl (?task 0 i (?rs ! i)) \<longrightarrow> \<not> isl (?task 1 i (?rs ! i))"
  proof -
    from retry_loop_two_rounds [where task = ?task and rs = ?rs and batch = ?batch and st = st
        and rt = rt and req = ?req, OF m ok refl]
    obtain st' where
      res: "?run = (Inr (round_outcomes ?task ?rs ?batch 0 @ round_outcomes ?task ?rs ?batch 1), st')"
      and tr: "trace st' = trace st @ round_events ?req ?task ?rs ?batch 0
             @ (if pending ?task ?rs ?batch 1 = [] then []
                else Sleep 2000 # round_events ?req ?task ?rs ?batch 1)"
      unfolding processBatch_retry_loop by blast
    let ?outs = "round_outcomes ?task ?rs ?batch 0 @ round_outcomes ?task ?rs ?batch 1"
    let ?evs = "round_events ?req ?task ?rs ?batch 0
             @ (if pending ?task ?rs ?batch 1 = [] then []
                else Sleep 2000 # round_events ?req ?task ?rs ?batch 1)"
    have p1: "pending ?task ?rs ?batch (Suc 0) = ?F"
      using pending_Suc [of ?task ?rs ?batch 0] by (simp add: pending_0)
    have all1: "filter (\<lambda>i. \<not> isl (?task (Suc 0) i (?rs ! i))) ?F = ?F"
      using ok by (intro filter_True) auto
    have p1': "pending ?task ?rs ?batch 1 = ?F" using p1 by simp
    have all1': "filter (\<lambda>i. \<not> isl (?task 1 i (?rs ! i))) ?F = ?F" using all1 by simp
    have i0: "map o_rowIndex (round_outcomes ?task ?rs ?batch 0)
                = filter (\<lambda>i. \<not> isl (?task 0 i (?rs ! i))) ?batch"
      unfolding round_outcomes_rowIndex pending_0 ..
    have i1: "map o_rowIndex (round_outcomes ?task ?rs ?batch 1) = ?F"
      unfolding round_outcomes_rowIndex p1' by (rule all1')
    have idx: "map o_rowIndex ?outs = filter (\<lambda>i. \<not> isl (?task 0 i (?rs ! i))) ?batch @ ?F"
      by (simp only: map_append i0 i1)
    have "length (map o_rowIndex ?outs) = length ?batch"
      unfolding idx using sum_length_filter_compl [of "\<lambda>i. \<not> isl (?task 0 i (?rs ! i))" ?batch]
      by simp
    then have len: "length ?outs = batchEnd - batchStart" by simp
    have succ: "\<forall>x \<in> set ?outs. o_success x"
      using round_outcomes_success by auto
    have cnt: "length (filter is_invoke ?evs) = (batchEnd - batchStart) + length ?F"
      by (simp add: invokes_of_round_events round_events_def p1 pending_0)
    show ?thesis
      apply (rule exI [of _ ?outs], rule exI [of _ ?evs])
      using res tr idx len succ cnt
      apply simp
      done
  qed
  show ?thesis
    unfolding Let_def using general next_round scenario by blast
qed

text \<open>
  Witness for C1: three rows, the first request for row 1 is rejected, the default ceiling.
\<close>

theorem retry_only_failed_rows_witness:
  "(0::nat) < 10
   \<and> map (\<lambda>i. isl (batch_task demo_runtime demo_post_flaky (ColumnName ''Summary'') ''m''
                     ''Sum {{Video}}'' None None 0 i (rows demo_state ! i))) [0..<3]
       = [False, True, False]
   \<and> map (\<lambda>i. isl (batch_task demo_runtime demo_post_flaky (ColumnName ''Summary'') ''m''
                     ''Sum {{Video}}'' None None 1 i (rows demo_state ! i))) [0..<3]
       = [False, False, False]
   \<and> (\<exists>outs. fst (processBatch demo_runtime demo_post_flaky 0 3 (ColumnName ''Summary'') ''m''
                     ''Sum {{Video}}'' None None 10 demo_state) = Inr outs
          \<and> map o_rowIndex outs = [0, 2, 1])
   \<and> length (filter is_invoke
               (trace (snd (processBatch demo_runtime demo_post_flaky 0 3 (ColumnName ''Summary'')
                              ''m'' ''Sum {{Video}}'' None None 10 demo_state)))) = 3 + 1"
proof -
  let ?task = "batch_task demo_runtime demo_post_flaky (ColumnName ''Summary'') ''m''
                 ''Sum {{Video}}'' None None"
  have u: "[0..<3] = [0, 1, 2]" by code_simp
  have f0: "map (\<lambda>i. isl (?task 0 i (rows demo_state ! i))) [0, 1, 2] = [False, True, False]"
    by code_simp
  have f1: "map (\<lambda>i. isl (?task 1 i (rows demo_state ! i))) [0, 1, 2] = [False, False, False]"
    by code_simp
  have m: "(0::nat) < 10" by simp
  have ok: "\<forall>i \<in> set [0..<3]. isl (?task 0 i (rows demo_state ! i))
              \<longrightarrow> \<not> isl (?task 1 i (rows demo_state ! i))"
    unfolding u using f1 by simp
  have t0: "trace demo_state = []" by (simp add: demo_state_def)
  have F: "filter (\<lambda>i. isl (?task 0 i (rows demo_state ! i))) [0, 1, 2] = [1]"
    using f0 by simp
  have G: "filter (\<lambda>i. \<not> isl (?task 0 i (rows demo_state ! i))) [0, 1, 2] = [0, 2]"
    using f0 by simp
  show ?thesis
    using retry_only_failed_rows [of demo_runtime "''m''" "''Sum {{Video}}''" None None
        demo_post_flaky "ColumnName ''Summary''" 0 3 demo_state 10] m ok
    unfolding Let_def u
    using f0 f1 by (auto simp: t0 F G)
qed



section \<open>The failure of a batch\<close>

lemma summary_push_keys:
  "map fst (summary_push s key n) = (if key \<in> set (map fst s) then map fst s else map fst s @ [key])"
  by (induction s key n rule: summary_push.induct) auto

lemma summary_push_map_of:
  "map_of (summary_push s key n) k =
     (if k = key then Some (case map_of s key of None \<Rightarrow> [n] | Some ns \<Rightarrow> ns @ [n]) else map_of s k)"
  by (induction s key n rule: summary_push.induct) auto

lemma summary_fold_distinct:
  "distinct (map fst s) \<Longrightarrow>
   distinct (map fst (foldl (\<lambda>summary failure. summary_push summary (key failure) (num failure)) s fs))"
  by (induction fs arbitrary: s) (auto simp: summary_push_keys)

lemma summary_fold_map_of:
  "map_of (foldl (\<lambda>summary failure. summary_push summary (key failure) (num failure)) s fs) k =
     (if k \<in> key ` set fs
      then Some ((case map_of s k of None \<Rightarrow> [] | Some ns \<Rightarrow> ns) @ map num (filter (\<lambda>f. key f = k) fs))
      else map_of s k)"
proof (induction fs arbitrary: s)
  case Nil
  show ?case by simp
next
  case (Cons f fs)
  show ?case
    unfolding foldl_Cons Cons.IH
    by (auto simp: summary_push_map_of filter_empty_conv image_iff split: option.splits)
qed

lemma summarize_distinct: "distinct (map fst (summarize rt failed))"
  unfolding summarize_def
  using summary_fold_distinct [of "[]" "\<lambda>f. error_key rt (snd f)" "\<lambda>f. fst f + 1" failed]
  by simp

lemma summarize_map_of:
  "map_of (summarize rt failed) k =
     (if k \<in> (\<lambda>f. error_key rt (snd f)) ` set failed
      then Some (map (\<lambda>f. fst f + 1) (filter (\<lambda>f. error_key rt (snd f) = k) failed))
      else None)"
  unfolding summarize_def
  using summary_fold_map_of [of "\<lambda>f. error_key rt (snd f)" "\<lambda>f. fst f + 1" "[]" failed k]
  by simp

lemma batch_loop_failure:
  assumes "i < totalRows" "0 < c_batchSize cfg"
    and "processBatch rt post i (min (i + c_batchSize cfg) totalRows) columnInfo (c_modelName cfg)
           (c_prompt cfg) (or_null (c_modelPlugins cfg)) (or_null (c_webSearchOptions cfg)) 10 st
         = (Inl err, st1)"
  shows "batch_loop rt post ckpt columnInfo cfg progressFilePath totalRows i acc st
         = Some (Inl err, st1)"
  using assms by (subst batch_loop.simps) (simp add: Let_def)

lemma processColumn_failure:
  assumes "batch_loop rt post ckpt (column_info_of columnConfig) (settings_of columnConfig)
             progressFilePath (length (rows st)) 0
             \<lparr>t_cost = JNum 0, t_promptTokens = JNum 0, t_completionTokens = JNum 0\<rparr> st
           = Some (Inl err, st1)"
  shows "processColumn rt post ckpt columnConfig progressFilePath st = Some (Inl err, st1)"
  using assms by (simp add: processColumn_def)

lemma column_loop_failure:
  assumes "i < length cols"
    and "processColumn rt (post i) (ckpt i) (cols ! i) progressFilePath st = Some (Inl err, st1)"
  shows "column_loop rt post ckpt cols progressFilePath i grand st = Some (Inl err, st1)"
  using assms by (subst column_loop.simps) simp

lemma main_failure:
  assumes "loaded \<noteq> []"
    and "column_loop rt post ckpt (map with_defaults (cfg_columns cfg))
           (progress_path (cfg_outputFileName cfg)) 0
           \<lparr>s_cost = JNum 0, s_tokens = JNum 0, s_promptTokens = JNum 0, s_completionTokens = JNum 0\<rparr>
           \<lparr>rows = loaded, trace = []\<rparr>
         = Some (Inl err, st1)"
  shows "main rt post ckpt out_failure cfg loaded
         = Some (1, emit [ConsoleError (''Error: '' @ e_message err)] st1)"
  using assms by (simp add: main_def Let_def fatal_def)

lemma pending_antimono:
  assumes "k \<le> k'"
  shows "set (pending task rs batch k') \<subseteq> set (pending task rs batch k)"
proof -
  have "set [0..<k] \<subseteq> set [0..<k']" using assms by auto
  then show ?thesis by (auto simp: pending_def list_all_iff)
qed

lemma pending_all_rounds:
  "pending task rs batch (Suc m) = filter (\<lambda>i. \<forall>k \<le> m. isl (task k i (rs ! i))) batch"
  unfolding pending_def list_all_iff by (rule filter_cong) (auto simp: less_Suc_eq_le)

lemma processBatch_exhausted:
  assumes "pending (batch_task rt post columnInfo modelName prompt plugins webSearchOptions)
             (rows st) [batchStart..<batchEnd] (Suc maxRetries) \<noteq> []"
  shows "\<exists>st'. processBatch rt post batchStart batchEnd columnInfo modelName prompt plugins
                  webSearchOptions maxRetries st
           = (Inl (exhausted_error
                     (pending (batch_task rt post columnInfo modelName prompt plugins webSearchOptions)
                        (rows st) [batchStart..<batchEnd] (Suc maxRetries)) maxRetries), st')
         \<and> trace st' = trace st
             @ rounds_events (batch_request rt modelName prompt plugins webSearchOptions)
                 (batch_task rt post columnInfo modelName prompt plugins webSearchOptions)
                 (rows st) [batchStart..<batchEnd] 0 maxRetries
             @ failure_report
                 (pending (batch_task rt post columnInfo modelName prompt plugins webSearchOptions)
                    (rows st) [batchStart..<batchEnd] (Suc maxRetries)) maxRetries
                 (summarize rt
                    (last_failures (batch_task rt post columnInfo modelName prompt plugins webSearchOptions)
                       (rows st) [batchStart..<batchEnd] maxRetries))"
proof -
  let ?req = "batch_request rt modelName prompt plugins webSearchOptions"
  let ?task = "batch_task rt post columnInfo modelName prompt plugins webSearchOptions"
  let ?batch = "[batchStart..<batchEnd]"
  let ?P = "pending ?task (rows st) ?batch"
  have c: "\<forall>k. 0 \<le> k \<and> k \<le> maxRetries \<longrightarrow> ?P k \<noteq> []"
  proof (intro allI impI)
    fix k assume "0 \<le> k \<and> k \<le> maxRetries"
    then have "set (?P (Suc maxRetries)) \<subseteq> set (?P k)" by (intro pending_antimono) simp
    then show "?P k \<noteq> []" using assms by auto
  qed
  have d: "?P (Suc maxRetries) = [] \<or> maxRetries = maxRetries" by simp
  have agree: "\<forall>i \<in> set (?P 0). rows st ! i = rows st ! i" by simp
  from retry_loop_rounds [OF le0 le_refl c d agree, where rt = rt and req = ?req and acc = "[]"]
  obtain st' where
    "retry_loop rt ?req ?task maxRetries (?P 0) 0 [] st =
       (if ?P (Suc maxRetries) = []
        then Inr ([] @ concat (map (round_outcomes ?task (rows st) ?batch) [0..<Suc maxRetries]))
        else Inl (exhausted_error (?P (Suc maxRetries)) maxRetries), st')"
    "trace st' = trace st @ rounds_events ?req ?task (rows st) ?batch 0 maxRetries
       @ (if ?P (Suc maxRetries) = [] then []
          else failure_report (?P (Suc maxRetries)) maxRetries
                 (summarize rt (last_failures ?task (rows st) ?batch maxRetries)))"
    by blast
  then show ?thesis
    unfolding processBatch_retry_loop using assms
    by (intro exI [of _ st']) (simp add: pending_0)
qed

text \<open>
  Claim C2, as amended. When some rows of a batch fail on every attempt of the rounds 0 to
  the retry ceiling, \<^verbatim>\<open>processBatch\<close> fails after the last round. It writes to the error
  console the number of the still-failing rows, their row numbers (index plus one), exactly
  the rows that failed on every attempt, and a summary with one entry per distinct error
  signature, each with the row numbers whose last error has that signature; then it throws
  an error whose message gives only the count of failing rows and the ceiling. Nothing
  above catches the error to retry: the column's batch loop, \<^verbatim>\<open>processColumn\<close> and the
  column loop of \<^verbatim>\<open>main\<close> return it with the state as the batch left it, and \<^verbatim>\<open>main\<close>
  reports it and exits with status 1.
\<close>

theorem exhausted_retries_are_fatal:
  assumes "pending (batch_task rt post columnInfo modelName prompt plugins webSearchOptions)
             (rows st) [batchStart..<batchEnd] (Suc maxRetries) \<noteq> []"
  shows "let req = batch_request rt modelName prompt plugins webSearchOptions;
             task = batch_task rt post columnInfo modelName prompt plugins webSearchOptions;
             batch = [batchStart..<batchEnd];
             rs = rows st;
             failing = pending task rs batch (Suc maxRetries);
             failures = last_failures task rs batch maxRetries;
             summary = summarize rt failures;
             report = failure_report failing maxRetries summary;
             run = processBatch rt post batchStart batchEnd columnInfo modelName prompt plugins
                     webSearchOptions maxRetries st
         in failing = filter (\<lambda>i. \<forall>k \<le> maxRetries. isl (task k i (rs ! i))) batch
            \<and> fst run = Inl \<lparr>e_message = show_nat (length failing) @ '' row(s) failed after ''
                                           @ show_nat maxRetries @ '' retries'',
                             e_response = None\<rparr>
            \<and> trace (snd run) = trace st @ rounds_events req task rs batch 0 maxRetries @ report
            \<and> ConsoleError (''    Failed rows: '' @ row_numbers (map (\<lambda>i. i + 1) failing))
                 \<in> set report
            \<and> distinct (map fst summary)
            \<and> (\<forall>key. map_of summary key
                   = (if key \<in> (\<lambda>f. error_key rt (snd f)) ` set failures
                      then Some (map (\<lambda>f. fst f + 1)
                                   (filter (\<lambda>f. error_key rt (snd f) = key) failures))
                      else None))
            \<and> (\<forall>entry \<in> set summary.
                   ConsoleError (''      '' @ fst entry) \<in> set report
                   \<and> ConsoleError (''        Affected rows: '' @ row_numbers (snd entry))
                       \<in> set report)
            \<and> (\<forall>ckpt cfg path totalRows acc err st1.
                   batchStart < totalRows \<and> 0 < c_batchSize cfg
                   \<and> processBatch rt post batchStart (min (batchStart + c_batchSize cfg) totalRows)
                       columnInfo (c_modelName cfg) (c_prompt cfg) (or_null (c_modelPlugins cfg))
                       (or_null (c_webSearchOptions cfg)) 10 st = (Inl err, st1)
                   \<longrightarrow> batch_loop rt post ckpt columnInfo cfg path totalRows batchStart acc st
                       = Some (Inl err, st1))
            \<and> (\<forall>ckpt columnConfig path s err st1.
                   batch_loop rt post ckpt (column_info_of columnConfig) (settings_of columnConfig)
                     path (length (rows s)) 0
                     \<lparr>t_cost = JNum 0, t_promptTokens = JNum 0, t_completionTokens = JNum 0\<rparr> s
                   = Some (Inl err, st1)
                   \<longrightarrow> processColumn rt post ckpt columnConfig path s = Some (Inl err, st1))
            \<and> (\<forall>posts ckpts cols path i grand s err st1.
                   i < length cols
                   \<and> processColumn rt (posts i) (ckpts i) (cols ! i) path s = Some (Inl err, st1)
                   \<longrightarrow> column_loop rt posts ckpts cols path i grand s = Some (Inl err, st1))
            \<and> (\<forall>posts ckpts out_failure cfg loaded err st1.
                   loaded \<noteq> []
                   \<and> column_loop rt posts ckpts (map with_defaults (cfg_columns cfg))
                       (progress_path (cfg_outputFileName cfg)) 0
                       \<lparr>s_cost = JNum 0, s_tokens = JNum 0, s_promptTokens = JNum 0,
                        s_completionTokens = JNum 0\<rparr>
                       \<lparr>rows = loaded, trace = []\<rparr>
                     = Some (Inl err, st1)
                   \<longrightarrow> main rt posts ckpts out_failure cfg loaded
                       = Some (1, emit [ConsoleError (''Error: '' @ e_message err)] st1))"
proof -
  let ?req = "batch_request rt modelName prompt plugins webSearchOptions"
  let ?task = "batch_task rt post columnInfo modelName prompt plugins webSearchOptions"
  let ?batch = "[batchStart..<batchEnd]"
  let ?rs = "rows st"
  let ?failing = "pending ?task ?rs ?batch (Suc maxRetries)"
  let ?failures = "last_failures ?task ?rs ?batch maxRetries"
  let ?summary = "summarize rt ?failures"
  let ?report = "failure_report ?failing maxRetries ?summary"
  let ?run = "processBatch rt post batchStart batchEnd columnInfo modelName prompt plugins
                webSearchOptions maxRetries st"
  from processBatch_exhausted [OF assms] obtain st' where
    run: "?run = (Inl (exhausted_error ?failing maxRetries), st')"
    and tr: "trace st' = trace st @ rounds_events ?req ?task ?rs ?batch 0 maxRetries @ ?report"
    by blast
  have 1: "?failing = filter (\<lambda>i. \<forall>k \<le> maxRetries. isl (?task k i (?rs ! i))) ?batch"
    by (rule pending_all_rounds)
  have 2: "fst ?run = Inl \<lparr>e_message = show_nat (length ?failing) @ '' row(s) failed after ''
                                           @ show_nat maxRetries @ '' retries'',
                             e_response = None\<rparr>"
    using run by (simp add: exhausted_error_def)
  have 3: "trace (snd ?run) = trace st @ rounds_events ?req ?task ?rs ?batch 0 maxRetries @ ?report"
    using run tr by simp
  have 4: "ConsoleError (''    Failed rows: '' @ row_numbers (map (\<lambda>i. i + 1) ?failing)) \<in> set ?report"
    by (simp add: failure_report_def)
  have 5: "distinct (map fst ?summary)" by (rule summarize_distinct)
  have 6: "\<forall>key. map_of ?summary key
                   = (if key \<in> (\<lambda>f. error_key rt (snd f)) ` set ?failures
                      then Some (map (\<lambda>f. fst f + 1)
                                   (filter (\<lambda>f. error_key rt (snd f) = key) ?failures))
                      else None)"
    by (simp add: summarize_map_of)
  have 7: "\<forall>entry \<in> set ?summary.
                   ConsoleError (''      '' @ fst entry) \<in> set ?report
                   \<and> ConsoleError (''        Affected rows: '' @ row_numbers (snd entry)) \<in> set ?report"
    by (auto simp: failure_report_def)
  have 8: "\<forall>ckpt cfg path totalRows acc err st1.
                   batchStart < totalRows \<and> 0 < c_batchSize cfg
                   \<and> processBatch rt post batchStart (min (batchStart + c_batchSize cfg) totalRows)
                       columnInfo (c_modelName cfg) (c_prompt cfg) (or_null (c_modelPlugins cfg))
                       (or_null (c_webSearchOptions cfg)) 10 st = (Inl err, st1)
                   \<longrightarrow> batch_loop rt post ckpt columnInfo cfg path totalRows batchStart acc st
                       = Some (Inl err, st1)"
    by (intro allI impI batch_loop_failure) simp_all
  have 9: "\<forall>ckpt columnConfig path s err st1.
                   batch_loop rt post ckpt (column_info_of columnConfig) (settings_of columnConfig)
                     path (length (rows s)) 0
                     \<lparr>t_cost = JNum 0, t_promptTokens = JNum 0, t_completionTokens = JNum 0\<rparr> s
                   = Some (Inl err, st1)
                   \<longrightarrow> processColumn rt post ckpt columnConfig path s = Some (Inl err, st1)"
    by (intro allI impI processColumn_failure)
  have 10: "\<forall>posts ckpts cols path i grand s err st1.
                   i < length cols
                   \<and> processColumn rt (posts i) (ckpts i) (cols ! i) path s = Some (Inl err, st1)
                   \<longrightarrow> column_loop rt posts ckpts cols path i grand s = Some (Inl err, st1)"
    by (intro allI impI column_loop_failure) simp_all
  have 11: "\<forall>posts ckpts out_failure cfg loaded err st1.
                   loaded \<noteq> []
                   \<and> column_loop rt posts ckpts (map with_defaults (cfg_columns cfg))
                       (progress_path (cfg_outputFileName cfg)) 0
                       \<lparr>s_cost = JNum 0, s_tokens = JNum 0, s_promptTokens = JNum 0,
                        s_completionTokens = JNum 0\<rparr>
                       \<lparr>rows = loaded, trace = []\<rparr>
                     = Some (Inl err, st1)
                   \<longrightarrow> main rt posts ckpts out_failure cfg loaded
                       = Some (1, emit [ConsoleError (''Error: '' @ e_message err)] st1)"
    by (intro allI impI main_failure) simp_all
  show ?thesis
    unfolding Let_def
    by (intro conjI 1 2 3 4 5 6 7 8 9 10 11)
qed

lemma demo_down_pending:
  "pending (batch_task demo_runtime demo_post_down (ColumnName ''Summary'') ''m''
              ''Sum {{Video}}'' None None) (rows demo_state) [0..<3] (Suc 10) = [2]"
  by code_simp

lemma demo_down_pending_numeral:
  "pending (batch_task demo_runtime demo_post_down (ColumnName ''Summary'') ''m''
              ''Sum {{Video}}'' None None) (rows demo_state) [0..<3] 11 = [2]"
  using demo_down_pending by simp

lemma show_nat_demo: "show_nat 1 = ''1''" "show_nat 10 = ''10''" "show_nat (Suc 0) = ''1''"
  by code_simp+

text \<open>
  Counterexample to C2 as stated: row 2 (row number 3) fails on every attempt, and the error
  raised names no row.
\<close>

theorem exhausted_error_names_no_row_counterexample:
  "pending (batch_task demo_runtime demo_post_down (ColumnName ''Summary'') ''m''
              ''Sum {{Video}}'' None None) (rows demo_state) [0..<3] (Suc 10) = [2]
   \<and> fst (processBatch demo_runtime demo_post_down 0 3 (ColumnName ''Summary'') ''m''
             ''Sum {{Video}}'' None None 10 demo_state)
       = Inl \<lparr>e_message = ''1 row(s) failed after 10 retries'', e_response = None\<rparr>"
proof -
  have ne: "pending (batch_task demo_runtime demo_post_down (ColumnName ''Summary'') ''m''
              ''Sum {{Video}}'' None None) (rows demo_state) [0..<3] (Suc 10) \<noteq> []"
    by (simp add: demo_down_pending demo_down_pending_numeral)
  from processBatch_exhausted [OF ne] show ?thesis
    by (auto simp: demo_down_pending demo_down_pending_numeral exhausted_error_def show_nat_demo)
qed

text \<open>
  Witness for C2 as amended: a run over the three rows with one single column, row 2 failing
  on every attempt.
\<close>

theorem exhausted_retries_are_fatal_witness:
  "pending (batch_task demo_runtime demo_post_down (ColumnName ''Summary'') ''m''
              ''Sum {{Video}}'' None None) (rows demo_state) [0..<3] (Suc 10) = [2]
   \<and> main demo_runtime (\<lambda>c. demo_post_down) (\<lambda>c i. None) None demo_config demo_rows
       = Some (1, emit [ConsoleError ''Error: 1 row(s) failed after 10 retries'']
                    (snd (processBatch demo_runtime demo_post_down 0 3 (ColumnName ''Summary'')
                            ''m'' ''Sum {{Video}}'' None None 10 demo_state)))"
proof -
  let ?run = "processBatch demo_runtime demo_post_down 0 3 (ColumnName ''Summary'')
                ''m'' ''Sum {{Video}}'' None None 10 demo_state"
  let ?err = "\<lparr>e_message = ''1 row(s) failed after 10 retries'', e_response = None\<rparr>"
  let ?cfg = "demo_settings\<lparr>c_batchSize := 10\<rparr>"
  have ne: "pending (batch_task demo_runtime demo_post_down (ColumnName ''Summary'') ''m''
              ''Sum {{Video}}'' None None) (rows demo_state) [0..<3] (Suc 10) \<noteq> []"
    by (simp add: demo_down_pending demo_down_pending_numeral)
  note inst = exhausted_retries_are_fatal [OF ne, unfolded Let_def]
  have i2: "fst ?run = Inl \<lparr>e_message =
              show_nat (length (pending (batch_task demo_runtime demo_post_down
                 (ColumnName ''Summary'') ''m'' ''Sum {{Video}}'' None None)
                 (rows demo_state) [0..<3] (Suc 10)))
              @ '' row(s) failed after '' @ show_nat 10 @ '' retries'', e_response = None\<rparr>"
    using inst apply (elim conjE) apply assumption done
  have i8: "\<forall>ckpt cfg path totalRows acc err st1.
              0 < totalRows \<and> 0 < c_batchSize cfg
              \<and> processBatch demo_runtime demo_post_down 0 (min (0 + c_batchSize cfg) totalRows)
                  (ColumnName ''Summary'') (c_modelName cfg) (c_prompt cfg)
                  (or_null (c_modelPlugins cfg)) (or_null (c_webSearchOptions cfg)) 10 demo_state
                = (Inl err, st1)
              \<longrightarrow> batch_loop demo_runtime demo_post_down ckpt (ColumnName ''Summary'') cfg path
                    totalRows 0 acc demo_state = Some (Inl err, st1)"
    using inst apply (elim conjE) apply assumption done
  have i9: "\<forall>ckpt columnConfig path s err st1.
              batch_loop demo_runtime demo_post_down ckpt (column_info_of columnConfig)
                (settings_of columnConfig) path (length (rows s)) 0
                \<lparr>t_cost = JNum 0, t_promptTokens = JNum 0, t_completionTokens = JNum 0\<rparr> s
              = Some (Inl err, st1)
              \<longrightarrow> processColumn demo_runtime demo_post_down ckpt columnConfig path s
                    = Some (Inl err, st1)"
    using inst apply (elim conjE) apply assumption done
  have i10: "\<forall>posts ckpts cols path i grand s err st1.
              i < length cols
              \<and> processColumn demo_runtime (posts i) (ckpts i) (cols ! i) path s = Some (Inl err, st1)
              \<longrightarrow> column_loop demo_runtime posts ckpts cols path i grand s = Some (Inl err, st1)"
    using inst apply (elim conjE) apply assumption done
  have i11: "\<forall>posts ckpts out_failure cfg loaded err st1.
              loaded \<noteq> []
              \<and> column_loop demo_runtime posts ckpts (map with_defaults (cfg_columns cfg))
                  (progress_path (cfg_outputFileName cfg)) 0
                  \<lparr>s_cost = JNum 0, s_tokens = JNum 0, s_promptTokens = JNum 0,
                   s_completionTokens = JNum 0\<rparr>
                  \<lparr>rows = loaded, trace = []\<rparr>
                = Some (Inl err, st1)
              \<longrightarrow> main demo_runtime posts ckpts out_failure cfg loaded
                    = Some (1, emit [ConsoleError (''Error: '' @ e_message err)] st1)"
    using inst apply (elim conjE) apply assumption done
  have f: "fst ?run = Inl ?err"
    using i2 by (simp add: demo_down_pending demo_down_pending_numeral show_nat_demo)
  then have run: "?run = (Inl ?err, snd ?run)" by (cases ?run) simp
  have call: "processBatch demo_runtime demo_post_down 0 (min (0 + c_batchSize ?cfg) 3)
                (ColumnName ''Summary'') (c_modelName ?cfg) (c_prompt ?cfg)
                (or_null (c_modelPlugins ?cfg)) (or_null (c_webSearchOptions ?cfg)) 10 demo_state
              = (Inl ?err, snd ?run)"
    using run by (simp add: demo_settings_def or_null_def)
  have b: "batch_loop demo_runtime demo_post_down (\<lambda>i. None) (ColumnName ''Summary'') ?cfg
             (progress_path ''out.csv'') 3 0
             \<lparr>t_cost = JNum 0, t_promptTokens = JNum 0, t_completionTokens = JNum 0\<rparr> demo_state
           = Some (Inl ?err, snd ?run)"
  proof -
    have "(0::nat) < 3 \<and> 0 < c_batchSize ?cfg
          \<and> processBatch demo_runtime demo_post_down 0 (min (0 + c_batchSize ?cfg) 3)
                (ColumnName ''Summary'') (c_modelName ?cfg) (c_prompt ?cfg)
                (or_null (c_modelPlugins ?cfg)) (or_null (c_webSearchOptions ?cfg)) 10 demo_state
              = (Inl ?err, snd ?run)"
      using call by simp
    then show ?thesis by (rule i8 [rule_format])
  qed
  have len: "length (rows demo_state) = 3" by (simp add: demo_state_def demo_rows_def)
  have c: "processColumn demo_runtime demo_post_down (\<lambda>i. None) (Single ''Summary'' ?cfg)
             (progress_path ''out.csv'') demo_state = Some (Inl ?err, snd ?run)"
  proof -
    have "batch_loop demo_runtime demo_post_down (\<lambda>i. None)
            (column_info_of (Single ''Summary'' ?cfg)) (settings_of (Single ''Summary'' ?cfg))
            (progress_path ''out.csv'') (length (rows demo_state)) 0
            \<lparr>t_cost = JNum 0, t_promptTokens = JNum 0, t_completionTokens = JNum 0\<rparr> demo_state
          = Some (Inl ?err, snd ?run)"
      using b by (simp add: column_info_of_def settings_of_def len)
    then show ?thesis by (rule i9 [rule_format])
  qed
  have cols: "map with_defaults (cfg_columns demo_config) = [Single ''Summary'' ?cfg]"
    by (simp add: demo_config_def with_defaults_def demo_settings_def)
  have l: "column_loop demo_runtime (\<lambda>c. demo_post_down) (\<lambda>c i. None)
             (map with_defaults (cfg_columns demo_config))
             (progress_path (cfg_outputFileName demo_config)) 0
             \<lparr>s_cost = JNum 0, s_tokens = JNum 0, s_promptTokens = JNum 0, s_completionTokens = JNum 0\<rparr>
             \<lparr>rows = demo_rows, trace = []\<rparr>
           = Some (Inl ?err, snd ?run)"
  proof -
    have "0 < length [Single ''Summary'' ?cfg]
          \<and> processColumn demo_runtime ((\<lambda>c. demo_post_down) 0) ((\<lambda>c i. None) 0)
            ([Single ''Summary'' ?cfg] ! 0) (progress_path ''out.csv'') demo_state
          = Some (Inl ?err, snd ?run)"
      using c by simp
    then have "column_loop demo_runtime (\<lambda>c. demo_post_down) (\<lambda>c i. None)
            [Single ''Summary'' ?cfg] (progress_path ''out.csv'') 0
            \<lparr>s_cost = JNum 0, s_tokens = JNum 0, s_promptTokens = JNum 0, s_completionTokens = JNum 0\<rparr>
            demo_state = Some (Inl ?err, snd ?run)"
      by (rule i10 [rule_format])
    moreover have "cfg_outputFileName demo_config = ''out.csv''" by (simp add: demo_config_def)
    ultimately show ?thesis by (simp add: cols demo_state_def)
  qed
  have "demo_rows \<noteq> [] \<and> column_loop demo_runtime (\<lambda>c. demo_post_down) (\<lambda>c i. None)
             (map with_defaults (cfg_columns demo_config))
             (progress_path (cfg_outputFileName demo_config)) 0
             \<lparr>s_cost = JNum 0, s_tokens = JNum 0, s_promptTokens = JNum 0, s_completionTokens = JNum 0\<rparr>
             \<lparr>rows = demo_rows, trace = []\<rparr>
           = Some (Inl ?err, snd ?run)"
    using l by (simp add: demo_rows_def)
  then have "main demo_runtime (\<lambda>c. demo_post_down) (\<lambda>c i. None) None demo_config demo_rows
          = Some (1, emit [ConsoleError (''Error: '' @ e_message ?err)] (snd ?run))"
    by (rule i11 [rule_format])
  then show ?thesis by (simp add: demo_down_pending demo_down_pending_numeral)
qed



section \<open>The two revisions of the batch function\<close>

lemma state_eta: "\<lparr>rows = rows st, trace = trace st\<rparr> = (st :: state)"
  by (cases st) simp

lemma single_column_task:
  "(\<lambda>k rowIndex r.
      case callOpenRouterAPI rt (post k rowIndex) modelName
             (fillPromptTemplate (number_to_string rt) prompt r) None None of
        Inl err \<Rightarrow> Inl err
      | Inr apiResult \<Rightarrow>
          Inr (\<lparr>o_success = True, o_cost = a_cost apiResult,
                o_promptTokens = a_promptTokens apiResult,
                o_completionTokens = a_completionTokens apiResult, o_rowIndex = rowIndex\<rparr>,
               row_set r columnName (JStr (a_result apiResult))))
   = batch_task rt post (ColumnName columnName) modelName prompt None None"
  by (intro ext) (simp add: batch_task_def processRow_def store_result_def Let_def split: sum.splits)

lemma processBatch_v1_loop:
  "processBatch_v1 rt first_rejection post batchStart batchEnd columnName modelName prompt
     maxRetries st =
   whole_batch_loop rt first_rejection (batch_request rt modelName prompt None None)
     (batch_task rt post (ColumnName columnName) modelName prompt None None)
     maxRetries [batchStart..<batchEnd] 0 st"
proof -
  have 1: "(\<lambda>r. requestBody modelName (fillPromptTemplate (number_to_string rt) prompt r) None None)
           = batch_request rt modelName prompt None None"
    by (rule ext) (simp add: batch_request_def)
  show ?thesis unfolding processBatch_v1_def 1 single_column_task ..
qed

text \<open>Both loops end after a first round in which every task succeeds.\<close>

lemma all_succeed_first_round:
  assumes "\<forall>i \<in> set batch. \<not> isl (task 0 i (rows st ! i))"
  shows "whole_batch_loop rt first_rejection req task maxRetries batch 0 st
         = (Inr (map (\<lambda>i. fst (projr (task 0 i (rows st ! i)))) batch),
            \<lparr>rows = write_back (rows st) (settle_round (task 0) batch (rows st)),
             trace = trace st @ map (\<lambda>i. Invoke 0 i (req (rows st ! i))) batch\<rparr>)"
    and "retry_loop rt req task maxRetries batch 0 [] st
         = (Inr (map (\<lambda>i. fst (projr (task 0 i (rows st ! i)))) batch),
            \<lparr>rows = write_back (rows st) (settle_round (task 0) batch (rows st)),
             trace = trace st @ map (\<lambda>i. Invoke 0 i (req (rows st ! i))) batch\<rparr>)"
proof -
  let ?results = "settle_round (task 0) batch (rows st)"
  have sr: "?results = map (\<lambda>i. (i, task 0 i (rows st ! i))) batch"
    by (simp add: settle_round_def)
  have none: "filter (\<lambda>i. isl (task 0 i (rows st ! i))) batch = []"
    using assms by (simp add: filter_empty_conv)
  have all: "filter (\<lambda>i. \<not> isl (task 0 i (rows st ! i))) batch = batch"
    using assms by (intro filter_True) simp
  have f: "failed_of ?results = []"
    unfolding sr failed_of_map none by simp
  have s: "succeeded_of ?results = map (\<lambda>i. fst (projr (task 0 i (rows st ! i)))) batch"
    unfolding sr succeeded_of_map all ..
  show "whole_batch_loop rt first_rejection req task maxRetries batch 0 st
         = (Inr (map (\<lambda>i. fst (projr (task 0 i (rows st ! i)))) batch),
            \<lparr>rows = write_back (rows st) ?results,
             trace = trace st @ map (\<lambda>i. Invoke 0 i (req (rows st ! i))) batch\<rparr>)"
    by (subst whole_batch_loop.simps) (simp add: Let_def f s)
  show "retry_loop rt req task maxRetries batch 0 [] st
         = (Inr (map (\<lambda>i. fst (projr (task 0 i (rows st ! i)))) batch),
            \<lparr>rows = write_back (rows st) ?results,
             trace = trace st @ map (\<lambda>i. Invoke 0 i (req (rows st ! i))) batch\<rparr>)"
  proof (cases "batch = []")
    case True
    then show ?thesis
      by (simp add: retry_loop_done settle_round_def write_back_def state_eta)
  next
    case False
    then show ?thesis
      by (subst retry_loop.simps) (simp add: Let_def f s retry_loop_done)
  qed
qed

lemma write_back_written:
  assumes "distinct (map fst results)" "(i, Inr (oc, r')) \<in> set results" "i < length rs"
  shows "write_back rs results ! i = r'"
  using assms
proof (induction results rule: rev_induct)
  case Nil
  then show ?case by simp
next
  case (snoc x xs)
  have step: "write_back rs (xs @ [x]) =
      (case snd x of Inl err \<Rightarrow> write_back rs xs | Inr y \<Rightarrow> (write_back rs xs)[fst x := snd y])"
    unfolding write_back_def by (simp split: sum.splits)
  show ?case
  proof (cases "x = (i, Inr (oc, r'))")
    case True
    show ?thesis unfolding step using True snoc.prems(3) by (simp add: write_back_length)
  next
    case False
    then have mem: "(i, Inr (oc, r')) \<in> set xs" using snoc.prems(2) by simp
    then have ih: "write_back rs xs ! i = r'" using snoc by simp
    have "fst x \<noteq> i" using snoc.prems(1) mem by (auto simp: image_iff)
    then show ?thesis using ih by (simp add: step split: sum.splits)
  qed
qed

text \<open>
  Claim C10. For a single column and a batch within the array whose invocations all succeed
  on their first attempt, the batch function of the earlier revision and \<^verbatim>\<open>processBatch\<close>,
  called with the same arguments, return the same result and leave the same state: one
  invocation per row of the batch in row order and no other action, the trimmed text of each
  response stored under the column name in its row, and per row the success outcome with the
  cost, the prompt tokens and the completion tokens of its response and the row index.
\<close>

theorem revisions_agree_when_all_succeed:
  assumes "\<forall>i \<in> set [batchStart..<batchEnd].
             \<not> isl (batch_task rt post (ColumnName columnName) modelName prompt None None 0 i
                      (rows st ! i))"
    and "batchEnd \<le> length (rows st)"
  shows "let task = batch_task rt post (ColumnName columnName) modelName prompt None None;
             req = batch_request rt modelName prompt None None;
             old = processBatch_v1 rt first_rejection post batchStart batchEnd columnName
                     modelName prompt maxRetries st;
             new = processBatch rt post batchStart batchEnd (ColumnName columnName) modelName
                     prompt None None maxRetries st
         in old = new
            \<and> fst new = Inr (map (\<lambda>i. fst (projr (task 0 i (rows st ! i)))) [batchStart..<batchEnd])
            \<and> trace (snd new)
                = trace st @ map (\<lambda>i. Invoke 0 i (req (rows st ! i))) [batchStart..<batchEnd]
            \<and> (\<forall>i \<in> set [batchStart..<batchEnd].
                  (case callOpenRouterAPI rt (post 0 i) modelName
                          (fillPromptTemplate (number_to_string rt) prompt (rows st ! i)) None None of
                     Inl err \<Rightarrow> False
                   | Inr apiResult \<Rightarrow>
                       rows (snd new) ! i = row_set (rows st ! i) columnName (JStr (a_result apiResult))
                       \<and> fst (projr (task 0 i (rows st ! i)))
                           = \<lparr>o_success = True, o_cost = a_cost apiResult,
                              o_promptTokens = a_promptTokens apiResult,
                              o_completionTokens = a_completionTokens apiResult, o_rowIndex = i\<rparr>))"
proof -
  let ?task = "batch_task rt post (ColumnName columnName) modelName prompt None None"
  let ?req = "batch_request rt modelName prompt None None"
  let ?batch = "[batchStart..<batchEnd]"
  let ?st1 = "\<lparr>rows = write_back (rows st) (settle_round (?task 0) ?batch (rows st)),
               trace = trace st @ map (\<lambda>i. Invoke 0 i (?req (rows st ! i))) ?batch\<rparr>"
  let ?outs = "map (\<lambda>i. fst (projr (?task 0 i (rows st ! i)))) ?batch"
  have old: "processBatch_v1 rt first_rejection post batchStart batchEnd columnName
               modelName prompt maxRetries st = (Inr ?outs, ?st1)"
    unfolding processBatch_v1_loop
    by (rule all_succeed_first_round(1) [where task = ?task and batch = ?batch and st = st, OF assms(1)])
  have new: "processBatch rt post batchStart batchEnd (ColumnName columnName) modelName
               prompt None None maxRetries st = (Inr ?outs, ?st1)"
    unfolding processBatch_retry_loop
    by (rule all_succeed_first_round(2) [where task = ?task and batch = ?batch and st = st, OF assms(1)])
  have each: "case callOpenRouterAPI rt (post 0 i) modelName
                     (fillPromptTemplate (number_to_string rt) prompt (rows st ! i)) None None of
                Inl err \<Rightarrow> False
              | Inr apiResult \<Rightarrow>
                  rows ?st1 ! i = row_set (rows st ! i) columnName (JStr (a_result apiResult))
                  \<and> fst (projr (?task 0 i (rows st ! i)))
                      = \<lparr>o_success = True, o_cost = a_cost apiResult,
                         o_promptTokens = a_promptTokens apiResult,
                         o_completionTokens = a_completionTokens apiResult, o_rowIndex = i\<rparr>"
    if i: "i \<in> set ?batch" for i
  proof (cases "callOpenRouterAPI rt (post 0 i) modelName
                     (fillPromptTemplate (number_to_string rt) prompt (rows st ! i)) None None")
    case (Inl err)
    then have "isl (?task 0 i (rows st ! i))"
      by (simp add: batch_task_def processRow_def Let_def)
    then show ?thesis using assms(1) i by blast
  next
    case (Inr apiResult)
    let ?oc = "\<lparr>o_success = True, o_cost = a_cost apiResult,
                 o_promptTokens = a_promptTokens apiResult,
                 o_completionTokens = a_completionTokens apiResult, o_rowIndex = i\<rparr>"
    let ?r' = "row_set (rows st ! i) columnName (JStr (a_result apiResult))"
    have t: "?task 0 i (rows st ! i) = Inr (?oc, ?r')"
      using Inr by (simp add: batch_task_def processRow_def store_result_def Let_def)
    have d: "distinct (map fst (settle_round (?task 0) ?batch (rows st)))"
      by (simp add: settle_round_def comp_def)
    have m: "(i, Inr (?oc, ?r')) \<in> set (settle_round (?task 0) ?batch (rows st))"
      using i t by (auto simp: settle_round_def image_iff)
    have l: "i < length (rows st)" using i assms(2) by simp
    have "write_back (rows st) (settle_round (?task 0) ?batch (rows st)) ! i = ?r'"
      by (rule write_back_written [OF d m l])
    then show ?thesis using Inr t by simp
  qed
  have each_all: "\<forall>i \<in> set ?batch.
              case callOpenRouterAPI rt (post 0 i) modelName
                     (fillPromptTemplate (number_to_string rt) prompt (rows st ! i)) None None of
                Inl err \<Rightarrow> False
              | Inr apiResult \<Rightarrow>
                  rows ?st1 ! i = row_set (rows st ! i) columnName (JStr (a_result apiResult))
                  \<and> fst (projr (?task 0 i (rows st ! i)))
                      = \<lparr>o_success = True, o_cost = a_cost apiResult,
                         o_promptTokens = a_promptTokens apiResult,
                         o_completionTokens = a_completionTokens apiResult, o_rowIndex = i\<rparr>"
    using each by blast
  show ?thesis
    unfolding Let_def old new fst_conv snd_conv
    using each_all by (intro conjI) simp_all
qed

text \<open>Witness for C10: the three rows, every request answered.\<close>

theorem revisions_agree_when_all_succeed_witness:
  "map (\<lambda>i. isl (batch_task demo_runtime demo_post_ok (ColumnName ''Summary'') ''m''
                   ''Sum {{Video}}'' None None 0 i (rows demo_state ! i))) [0..<3]
     = [False, False, False]
   \<and> 3 \<le> length (rows demo_state)
   \<and> processBatch_v1 demo_runtime demo_first demo_post_ok 0 3 ''Summary'' ''m''
       ''Sum {{Video}}'' 10 demo_state
     = processBatch demo_runtime demo_post_ok 0 3 (ColumnName ''Summary'') ''m''
         ''Sum {{Video}}'' None None 10 demo_state
   \<and> map o_rowIndex
        (projr (fst (processBatch demo_runtime demo_post_ok 0 3 (ColumnName ''Summary'') ''m''
                       ''Sum {{Video}}'' None None 10 demo_state))) = [0, 1, 2]"
proof -
  let ?task = "batch_task demo_runtime demo_post_ok (ColumnName ''Summary'') ''m''
                 ''Sum {{Video}}'' None None"
  have u: "[0..<3] = [0, 1, 2]" by code_simp
  have f0: "map (\<lambda>i. isl (?task 0 i (rows demo_state ! i))) [0, 1, 2] = [False, False, False]"
    by code_simp
  have idx: "map (\<lambda>i. o_rowIndex (fst (projr (?task 0 i (rows demo_state ! i))))) [0, 1, 2]
             = [0, 1, 2]"
    by code_simp
  have ok: "\<forall>i \<in> set [0..<3]. \<not> isl (?task 0 i (rows demo_state ! i))"
    unfolding u using f0 by simp
  have len: "3 \<le> length (rows demo_state)" by (simp add: demo_state_def demo_rows_def)
  note inst = revisions_agree_when_all_succeed [OF ok len, of demo_first 10, unfolded Let_def]
  have a: "processBatch_v1 demo_runtime demo_first demo_post_ok 0 3 ''Summary'' ''m''
       ''Sum {{Video}}'' 10 demo_state
     = processBatch demo_runtime demo_post_ok 0 3 (ColumnName ''Summary'') ''m''
         ''Sum {{Video}}'' None None 10 demo_state"
    using inst by (rule conjunct1)
  have b: "fst (processBatch demo_runtime demo_post_ok 0 3 (ColumnName ''Summary'') ''m''
         ''Sum {{Video}}'' None None 10 demo_state)
        = Inr (map (\<lambda>i. fst (projr (?task 0 i (rows demo_state ! i)))) [0..<3])"
    using inst by (rule conjunct1 [OF conjunct2])
  show ?thesis
    using a len f0 idx unfolding b u by (simp add: comp_def)
qed



section \<open>Properties of the Column Driver and the Run Orchestrator\<close>

text \<open>A batch does not read the trace: events in front of it stay in front.\<close>

lemma prepend_simps [simp]:
  "rows (prepend tr0 st) = rows st" "trace (prepend tr0 st) = tr0 @ trace st"
  by (simp_all add: prepend_def)

lemma prepend_emit: "emit evs (prepend tr0 st) = prepend tr0 (emit evs st)"
  by (simp add: prepend_def emit_def)

lemma prepend_mk: "\<lparr>rows = rs, trace = tr0 @ tr\<rparr> = prepend tr0 \<lparr>rows = rs, trace = tr\<rparr>"
  by (simp add: prepend_def)

lemma retry_loop_prepend:
  "retry_loop rt req task maxRetries rowsToProcess retryCount allResults (prepend tr0 st)
   = (case retry_loop rt req task maxRetries rowsToProcess retryCount allResults st of
        (res, st') \<Rightarrow> (res, prepend tr0 st'))"
proof (induction "Suc maxRetries - retryCount" arbitrary: rowsToProcess retryCount allResults st)
  case 0
  then have gt: "\<not> retryCount \<le> maxRetries" by simp
  have "retry_loop rt req task maxRetries rowsToProcess retryCount allResults s
             = (Inr allResults, s)" for s
    by (subst retry_loop.simps) (simp add: gt)
  then show ?case by simp
next
  case (Suc n)
  let ?results = "settle_round (task retryCount) rowsToProcess (rows st)"
  let ?inv = "map (\<lambda>rowIndex. Invoke retryCount rowIndex (req (rows st ! rowIndex))) rowsToProcess"
  let ?st1 = "\<lparr>rows = write_back (rows st) ?results, trace = trace st @ ?inv\<rparr>"
  let ?acc1 = "allResults @ succeeded_of ?results"
  let ?rtp1 = "map fst (failed_of ?results)"
  have st1: "\<lparr>rows = write_back (rows st) ?results, trace = tr0 @ trace st @ ?inv\<rparr>
             = prepend tr0 ?st1"
    by (simp add: prepend_def)
  show ?case
  proof (cases "rowsToProcess = []")
    case True
    then show ?thesis by (simp add: retry_loop_done)
  next
    case ne: False
    have le: "retryCount \<le> maxRetries" using Suc.hyps(2) by simp
    show ?thesis
    proof (cases "failed_of ?results = []")
      case True
      have "retry_loop rt req task maxRetries rowsToProcess retryCount allResults (prepend tr0 st)
            = (Inr ?acc1, prepend tr0 ?st1)"
        apply (subst retry_loop.simps)
        using ne le True
        apply (simp add: Let_def retry_loop_done st1)
        done
      moreover have "retry_loop rt req task maxRetries rowsToProcess retryCount allResults st
            = (Inr ?acc1, ?st1)"
        apply (subst retry_loop.simps)
        using ne le True
        apply (simp add: Let_def retry_loop_done)
        done
      ultimately show ?thesis by simp
    next
      case fail: False
      show ?thesis
      proof (cases "maxRetries < Suc retryCount")
        case True
        let ?report = "failure_report ?rtp1 maxRetries (summarize rt (failed_of ?results))"
        have "retry_loop rt req task maxRetries rowsToProcess retryCount allResults (prepend tr0 st)
              = (Inl (exhausted_error ?rtp1 maxRetries), emit ?report (prepend tr0 ?st1))"
          apply (subst retry_loop.simps)
          using ne le fail True
          apply (simp add: Let_def st1)
          done
        moreover have "retry_loop rt req task maxRetries rowsToProcess retryCount allResults st
              = (Inl (exhausted_error ?rtp1 maxRetries), emit ?report ?st1)"
          apply (subst retry_loop.simps)
          using ne le fail True
          apply (simp add: Let_def)
          done
        ultimately show ?thesis by (simp add: prepend_emit)
      next
        case False
        let ?st2 = "emit [Sleep (2 ^ Suc retryCount * 1000)] ?st1"
        have "retry_loop rt req task maxRetries rowsToProcess retryCount allResults (prepend tr0 st)
              = retry_loop rt req task maxRetries ?rtp1 (Suc retryCount) ?acc1 (prepend tr0 ?st2)"
          apply (subst retry_loop.simps)
          using ne le fail False
          apply (simp add: Let_def st1 prepend_emit)
          done
        moreover have "retry_loop rt req task maxRetries rowsToProcess retryCount allResults st
              = retry_loop rt req task maxRetries ?rtp1 (Suc retryCount) ?acc1 ?st2"
          apply (subst retry_loop.simps)
          using ne le fail False
          apply (simp add: Let_def)
          done
        moreover have "n = Suc maxRetries - Suc retryCount" using Suc.hyps(2) by simp
        ultimately show ?thesis using Suc.hyps(1) by simp
      qed
    qed
  qed
qed

lemma processBatch_prepend:
  "processBatch rt post batchStart batchEnd columnInfo modelName prompt plugins webSearchOptions
     maxRetries (prepend tr0 st)
   = (case processBatch rt post batchStart batchEnd columnInfo modelName prompt plugins
             webSearchOptions maxRetries st of
        (res, st') \<Rightarrow> (res, prepend tr0 st'))"
  unfolding processBatch_retry_loop by (rule retry_loop_prepend)

text \<open>A batch writes no file.\<close>

lemma processBatch_write_paths:
  "write_paths (trace (snd (processBatch rt post batchStart batchEnd columnInfo modelName prompt
                              plugins webSearchOptions maxRetries st)))
   = write_paths (trace st)"
proof -
  from processBatch_trace [where rt = rt and modelName = modelName and prompt = prompt
         and plugins = plugins and webSearchOptions = webSearchOptions and post = post
         and columnInfo = columnInfo and st = st and batchStart = batchStart
         and batchEnd = batchEnd and maxRetries = maxRetries]
  obtain R tail where
    tr: "trace (snd (processBatch rt post batchStart batchEnd columnInfo modelName prompt plugins
                      webSearchOptions maxRetries st))
         = trace st
           @ rounds_events (batch_request rt modelName prompt plugins webSearchOptions)
               (batch_task rt post columnInfo modelName prompt plugins webSearchOptions)
               (rows st) [batchStart..<batchEnd] 0 R
           @ tail"
    and wp: "write_paths
           (rounds_events (batch_request rt modelName prompt plugins webSearchOptions)
              (batch_task rt post columnInfo modelName prompt plugins webSearchOptions)
              (rows st) [batchStart..<batchEnd] 0 R
            @ tail) = []"
    by blast
  show ?thesis unfolding tr using wp by simp
qed

lemma batch_loop_end:
  "\<not> i < totalRows \<Longrightarrow>
   batch_loop rt post ckpt columnInfo cfg progressFilePath totalRows i acc st = Some (Inr acc, st)"
  by (subst batch_loop.simps) simp

lemma batch_loop_stuck:
  "i < totalRows \<Longrightarrow> c_batchSize cfg = 0 \<Longrightarrow>
   batch_loop rt post ckpt columnInfo cfg progressFilePath totalRows i acc st = None"
  by (subst batch_loop.simps) simp

lemma batch_loop_step:
  assumes "i < totalRows" "0 < c_batchSize cfg"
    and "processBatch rt post i (min (i + c_batchSize cfg) totalRows) columnInfo (c_modelName cfg)
           (c_prompt cfg) (or_null (c_modelPlugins cfg)) (or_null (c_webSearchOptions cfg)) 10 st
         = (Inr batchResults, st1)"
    and "report_failure rt (aggregate rt acc batchResults) batchResults = None"
  shows "batch_loop rt post ckpt columnInfo cfg progressFilePath totalRows i acc st
         = batch_loop rt post ckpt columnInfo cfg progressFilePath totalRows (i + c_batchSize cfg)
             (aggregate rt acc batchResults)
             (if min (i + c_batchSize cfg) totalRows < totalRows \<and> 0 < c_cooldown cfg
              then emit [Sleep (c_cooldown cfg)] (write_progress (ckpt i) progressFilePath st1)
              else write_progress (ckpt i) progressFilePath st1)"
  using assms by (subst batch_loop.simps) (simp add: Let_def)

lemma write_progress_rows [simp]: "rows (write_progress failure path st) = rows st"
  by (simp add: write_progress_def emit_def)

lemma emit_rows [simp]: "rows (emit evs st) = rows st"
  by (simp add: emit_def)

lemma emit_trace [simp]: "trace (emit evs st) = trace st @ evs"
  by (simp add: emit_def)

lemma write_progress_trace:
  "trace (write_progress failure path st)
   = trace st
     @ (if path = [] then []
        else WriteCSV path (object_keys (rows st ! 0)) (rows st)
             # (case failure of
                  None \<Rightarrow> []
                | Some msg \<Rightarrow> [ConsoleWarn (''    Failed to write progress file: '' @ msg)]))"
  by (simp add: write_progress_def)

lemma write_paths_checkpoint:
  "write_paths (if path = [] then []
        else WriteCSV path headers records
             # (case failure of
                  None \<Rightarrow> []
                | Some msg \<Rightarrow> [ConsoleWarn (''    Failed to write progress file: '' @ msg)]))
   = (if path = [] then [] else [path])"
  by (cases failure) (simp_all add: write_paths_def)

lemma write_paths_Sleep: "write_paths [Sleep n] = []"
  by (simp add: write_paths_def)

lemma no_batch_left: "(b - Suc 0) div (b::nat) = 0"
  by (cases b) simp_all

lemma batches_left:
  assumes "i < totalRows" "0 < (b::nat)"
  shows "(totalRows - i + b - 1) div b = Suc ((totalRows - (i + b) + b - 1) div b)"
proof (cases "i + b \<le> totalRows")
  case True
  then have e: "totalRows - i + b - 1 = (totalRows - (i + b) + b - 1) + b" using assms by arith
  show ?thesis unfolding e using assms(2) by (simp only: div_add_self2)
next
  case False
  then have 1: "totalRows - (i + b) = 0" by simp
  have 2: "b \<le> totalRows - i + b - 1" using assms by arith
  have 3: "totalRows - i + b - 1 < 2 * b" using False assms by arith
  have "(totalRows - i + b - 1) div b = 1"
    using 2 3 assms(2) by (intro div_nat_eqI) simp_all
  moreover have "(b - 1) div b = 0" using assms(2) by simp
  ultimately show ?thesis using 1 by simp
qed

lemma batch_loop_report_failure:
  assumes "i < totalRows" "0 < c_batchSize cfg"
    and "processBatch rt post i (min (i + c_batchSize cfg) totalRows) columnInfo (c_modelName cfg)
           (c_prompt cfg) (or_null (c_modelPlugins cfg)) (or_null (c_webSearchOptions cfg)) 10 st
         = (Inr batchResults, st1)"
    and "report_failure rt (aggregate rt acc batchResults) batchResults = Some err"
  shows "batch_loop rt post ckpt columnInfo cfg progressFilePath totalRows i acc st
         = Some (Inl err, st1)"
  using assms by (subst batch_loop.simps) (simp add: Let_def)

text \<open>
  What a run of the batch loop adds to the trace: it only adds, and the files it writes are
  the checkpoint file, once per batch when the loop runs to its end.
\<close>

lemma batch_loop_trace:
  assumes "batch_loop rt post ckpt columnInfo cfg path totalRows i acc st = Some (res, st')"
  shows "\<exists>evs n. trace st' = trace st @ evs \<and> write_paths evs = replicate n path
             \<and> (\<not> isl res \<and> path \<noteq> [] \<longrightarrow>
                  n = (totalRows - i + c_batchSize cfg - 1) div c_batchSize cfg)"
  using assms
proof (induction "totalRows - i" arbitrary: i acc st rule: less_induct)
  case less
  show ?case
  proof (cases "i < totalRows")
    case False
    then have "res = Inr acc" "st' = st"
      using less.prems by (simp_all add: batch_loop_end)
    then show ?thesis
      using False by (intro exI [of _ "[]"] exI [of _ 0]) (simp add: no_batch_left)
  next
    case True
    have b: "0 < c_batchSize cfg"
    proof (rule ccontr)
      assume "\<not> 0 < c_batchSize cfg"
      then have "c_batchSize cfg = 0" by simp
      from batch_loop_stuck [OF True this] less.prems show False by simp
    qed
    obtain r st1 where pb:
      "processBatch rt post i (min (i + c_batchSize cfg) totalRows) columnInfo (c_modelName cfg)
           (c_prompt cfg) (or_null (c_modelPlugins cfg)) (or_null (c_webSearchOptions cfg)) 10 st
       = (r, st1)"
      by (cases "processBatch rt post i (min (i + c_batchSize cfg) totalRows) columnInfo
                   (c_modelName cfg) (c_prompt cfg) (or_null (c_modelPlugins cfg))
                   (or_null (c_webSearchOptions cfg)) 10 st") simp
    from processBatch_trace [where rt = rt and modelName = "c_modelName cfg"
         and prompt = "c_prompt cfg" and plugins = "or_null (c_modelPlugins cfg)"
         and webSearchOptions = "or_null (c_webSearchOptions cfg)" and post = post
         and columnInfo = columnInfo and st = st and batchStart = i
         and batchEnd = "min (i + c_batchSize cfg) totalRows" and maxRetries = 10]
    obtain evs1 where t1: "trace st1 = trace st @ evs1" and w1: "write_paths evs1 = []"
      unfolding pb snd_conv by (metis append_assoc)
    have fail: ?thesis if f: "batch_loop rt post ckpt columnInfo cfg path totalRows i acc st
                                = Some (Inl err, st1)" for err
    proof -
      have "res = Inl err" "st' = st1" using less.prems f by simp_all
      then show ?thesis using t1 w1 by (intro exI [of _ evs1] exI [of _ 0]) simp
    qed
    show ?thesis
    proof (cases r)
      case (Inl err)
      show ?thesis
        by (rule fail [of err]) (use pb Inl in \<open>intro batch_loop_failure [OF True b]; simp\<close>)
    next
      case (Inr batchResults)
      show ?thesis
      proof (cases "report_failure rt (aggregate rt acc batchResults) batchResults")
        case (Some err)
        show ?thesis
          by (rule fail [of err])
             (use pb Inr Some in \<open>intro batch_loop_report_failure [OF True b]; simp\<close>)
      next
        case None
        let ?st2 = "write_progress (ckpt i) path st1"
        let ?st3 = "if min (i + c_batchSize cfg) totalRows < totalRows \<and> 0 < c_cooldown cfg
                then emit [Sleep (c_cooldown cfg)] ?st2 else ?st2"
        have step: "batch_loop rt post ckpt columnInfo cfg path totalRows i acc st
           = batch_loop rt post ckpt columnInfo cfg path totalRows (i + c_batchSize cfg)
               (aggregate rt acc batchResults) ?st3"
          using pb Inr None by (intro batch_loop_step [OF True b]) simp_all
        obtain evs3 where t3: "trace ?st3 = trace st @ evs3"
          and w3: "write_paths evs3 = (if path = [] then [] else [path])"
        proof
          let ?c = "if path = [] then []
                    else WriteCSV path (object_keys (rows st1 ! 0)) (rows st1)
                         # (case ckpt i of
                              None \<Rightarrow> []
                            | Some msg \<Rightarrow>
                                [ConsoleWarn (''    Failed to write progress file: '' @ msg)])"
          let ?e = "evs1 @ ?c
                    @ (if min (i + c_batchSize cfg) totalRows < totalRows \<and> 0 < c_cooldown cfg
                       then [Sleep (c_cooldown cfg)] else [])"
          show "trace ?st3 = trace st @ ?e"
            by (simp add: write_progress_trace t1)
          have "write_paths ?c = (if path = [] then [] else [path])"
            by (rule write_paths_checkpoint)
          then show "write_paths ?e = (if path = [] then [] else [path])"
            using w1 by (simp add: write_paths_Sleep)
        qed
        have m: "totalRows - (i + c_batchSize cfg) < totalRows - i" using True b by simp
        have next_run: "batch_loop rt post ckpt columnInfo cfg path totalRows (i + c_batchSize cfg)
               (aggregate rt acc batchResults) ?st3 = Some (res, st')"
          using less.prems unfolding step .
        obtain evs n where
          t: "trace st' = trace ?st3 @ evs" and w: "write_paths evs = replicate n path"
          and c: "\<not> isl res \<and> path \<noteq> [] \<longrightarrow>
                    n = (totalRows - (i + c_batchSize cfg) + c_batchSize cfg - 1)
                          div c_batchSize cfg"
          using less.hyps [OF m next_run] by (elim exE conjE)
        show ?thesis
        proof (cases "path = []")
          case True
          have "trace st' = trace st @ (evs3 @ evs)" using t t3 by simp
          moreover have "write_paths (evs3 @ evs) = replicate n path"
            using w w3 True by simp
          ultimately show ?thesis using True by (intro exI [of _ "evs3 @ evs"] exI [of _ n]) simp
        next
          case False
          have "trace st' = trace st @ (evs3 @ evs)" using t t3 by simp
          moreover have "write_paths (evs3 @ evs) = replicate (Suc n) path"
            using w w3 False by simp
          moreover have "\<not> isl res \<longrightarrow>
            Suc n = (totalRows - i + c_batchSize cfg - 1) div c_batchSize cfg"
            using c False batches_left [OF True b] by simp
          ultimately show ?thesis
            by (intro exI [of _ "evs3 @ evs"] exI [of _ "Suc n"]) simp
        qed
      qed
    qed
  qed
qed

lemma processColumn_trace:
  assumes "processColumn rt post ckpt columnConfig path st = Some (res, st')"
  shows "\<exists>evs n. trace st' = trace st @ evs \<and> write_paths evs = replicate n path
             \<and> (\<not> isl res \<and> path \<noteq> [] \<longrightarrow>
                  n = (length (rows st) + c_batchSize (settings_of columnConfig) - 1)
                        div c_batchSize (settings_of columnConfig))"
proof -
  let ?run = "batch_loop rt post ckpt (column_info_of columnConfig) (settings_of columnConfig)
                path (length (rows st)) 0
                \<lparr>t_cost = JNum 0, t_promptTokens = JNum 0, t_completionTokens = JNum 0\<rparr> st"
  from assms obtain r where run: "?run = Some (r, st')" and isl: "isl r = isl res"
    unfolding processColumn_def by (auto split: option.splits sum.splits prod.splits)
  from batch_loop_trace [OF run] show ?thesis using isl by simp
qed

text \<open>The column loop of \<^verbatim>\<open>main\<close> is the recursion over the list of columns.\<close>

lemma column_loop_run_columns:
  "i \<le> length columns \<Longrightarrow>
   column_loop rt post ckpt columns path i grand st
   = run_columns rt post ckpt path i (drop i columns) grand st"
proof (induction "length columns - i" arbitrary: i grand st)
  case 0
  then have "drop i columns = []" "\<not> i < length columns" by simp_all
  then show ?case by (subst column_loop.simps) simp
next
  case (Suc n)
  then have lt: "i < length columns" by simp
  have d: "drop i columns = columns ! i # drop (Suc i) columns"
    using lt by (simp add: Cons_nth_drop_Suc)
  have ih: "column_loop rt post ckpt columns path (Suc i) g s
            = run_columns rt post ckpt path (Suc i) (drop (Suc i) columns) g s" for g s
    using Suc.hyps(1) [of "Suc i" g s] Suc.hyps(2) lt by simp
  show ?case
    unfolding d
    by (subst column_loop.simps)
       (simp add: lt ih add_stats_def split: option.splits sum.splits prod.splits)
qed

lemma run_columns_append:
  "run_columns rt post ckpt path i (cs1 @ cs2) grand st
   = (case run_columns rt post ckpt path i cs1 grand st of
        None \<Rightarrow> None
      | Some (Inl err, st1) \<Rightarrow> Some (Inl err, st1)
      | Some (Inr g, st1) \<Rightarrow> run_columns rt post ckpt path (i + length cs1) cs2 g st1)"
  by (induction cs1 arbitrary: i grand st)
     (simp_all split: option.splits sum.splits prod.splits)

lemma run_columns_trace:
  assumes "run_columns rt post ckpt path i cs grand st = Some (res, st')"
  shows "\<exists>evs n. trace st' = trace st @ evs \<and> write_paths evs = replicate n path"
  using assms
proof (induction cs arbitrary: i grand st)
  case Nil
  then show ?case by (intro exI [of _ "[]"] exI [of _ 0]) simp
next
  case (Cons c cs)
  from Cons.prems obtain r st1 where
    pc: "processColumn rt (post i) (ckpt i) c path st = Some (r, st1)"
    by (auto split: option.splits)
  obtain evs1 n1 where t1: "trace st1 = trace st @ evs1"
    and w1: "write_paths evs1 = replicate n1 path"
    using processColumn_trace [OF pc] by (elim exE conjE)
  show ?case
  proof (cases r)
    case (Inl err)
    then have "st' = st1" using Cons.prems pc by simp
    then show ?thesis using t1 w1 by blast
  next
    case (Inr columnStats)
    then have "run_columns rt post ckpt path (Suc i) cs (add_stats rt grand columnStats) st1
               = Some (res, st')"
      using Cons.prems pc by simp
    from Cons.IH [OF this] obtain evs n where
      t: "trace st' = trace st1 @ evs" and w: "write_paths evs = replicate n path"
      by (elim exE conjE)
    have "trace st' = trace st @ (evs1 @ evs)" using t t1 by simp
    moreover have "write_paths (evs1 @ evs) = replicate (n1 + n) path"
      using w w1 by (simp add: replicate_add)
    ultimately show ?thesis by blast
  qed
qed

text \<open>\<^verbatim>\<open>main\<close> from the loaded rows on, in terms of the recursion over the columns.\<close>

lemma main_run_columns:
  assumes "loaded \<noteq> []"
  shows "main rt post ckpt out_failure cfg loaded
         = (case run_columns rt post ckpt (progress_path (cfg_outputFileName cfg)) 0
                   (map with_defaults (cfg_columns cfg))
                   \<lparr>s_cost = JNum 0, s_tokens = JNum 0, s_promptTokens = JNum 0,
                    s_completionTokens = JNum 0\<rparr>
                   \<lparr>rows = loaded, trace = []\<rparr> of
              None \<Rightarrow> None
            | Some (Inl err, st) \<Rightarrow> Some (1, emit [ConsoleError (''Error: '' @ e_message err)] st)
            | Some (Inr grand, st) \<Rightarrow>
                (case out_failure of
                   None \<Rightarrow>
                     Some (0, emit [WriteCSV (cfg_outputFileName cfg) (object_keys (rows st ! 0))
                                      (rows st)] st)
                 | Some msg \<Rightarrow>
                     Some (1, emit [WriteCSV (cfg_outputFileName cfg) (object_keys (rows st ! 0))
                                      (rows st),
                                    ConsoleError (''Error: '' @ msg)] st)))"
  using assms
  by (simp add: main_def Let_def fatal_def column_loop_run_columns emit_def
        split: option.splits sum.splits prod.splits)

lemma csv_extension_length: "csv_extension s \<Longrightarrow> length s = 4"
  by (auto simp: csv_extension_def split: list.splits)

lemma progress_path_replaced:
  assumes "csv_extension ext"
  shows "progress_path (base @ ext) = base @ ''.progress''"
proof (induction base)
  case Nil
  from assms have "ext \<noteq> []" using csv_extension_length by fastforce
  then obtain c cs where "ext = c # cs" by (cases ext) auto
  then show ?case using assms by (simp add: progress_path.simps)
next
  case (Cons x base)
  have "\<not> csv_extension (x # base @ ext)"
    using csv_extension_length [of "x # base @ ext"] csv_extension_length [OF assms] by auto
  then show ?case using Cons.IH by (simp add: progress_path.simps)
qed

lemma progress_path_kept:
  assumes "\<not> csv_extension (drop (length out - 4) out)"
  shows "progress_path out = out"
proof -
  have no: "\<not> csv_extension (drop n out)" for n
  proof
    assume c: "csv_extension (drop n out)"
    then have "length out - n = 4" using csv_extension_length by fastforce
    then have "n = length out - 4" by simp
    then show False using c assms by simp
  qed
  have "(\<forall>n. \<not> csv_extension (drop n s)) \<Longrightarrow> progress_path s = s" for s
  proof (induction s)
    case Nil
    show ?case by (simp add: progress_path.simps)
  next
    case (Cons x s)
    have 0: "\<not> csv_extension (x # s)" using Cons.prems [rule_format, of 0] by simp
    have "\<forall>n. \<not> csv_extension (drop n s)"
    proof
      fix n show "\<not> csv_extension (drop n s)" using Cons.prems [rule_format, of "Suc n"] by simp
    qed
    then show ?case using Cons.IH 0 by (simp add: progress_path.simps)
  qed
  then show ?thesis using no by simp
qed

lemma processBatch_all_succeed:
  assumes "\<forall>i \<in> set [batchStart..<batchEnd].
             \<not> isl (batch_task rt post columnInfo modelName prompt plugins webSearchOptions 0 i
                      (rows st ! i))"
  shows "processBatch rt post batchStart batchEnd columnInfo modelName prompt plugins
           webSearchOptions maxRetries st
         = (Inr (map (\<lambda>i. fst (projr (batch_task rt post columnInfo modelName prompt plugins
                                          webSearchOptions 0 i (rows st ! i))))
                   [batchStart..<batchEnd]),
            \<lparr>rows = write_back (rows st)
                      (settle_round (batch_task rt post columnInfo modelName prompt plugins
                                       webSearchOptions 0) [batchStart..<batchEnd] (rows st)),
             trace = trace st
                     @ map (\<lambda>i. Invoke 0 i (batch_request rt modelName prompt plugins
                                               webSearchOptions (rows st ! i)))
                         [batchStart..<batchEnd]\<rparr>)"
  unfolding processBatch_retry_loop
  by (rule all_succeed_first_round(2)
        [where task = "batch_task rt post columnInfo modelName prompt plugins webSearchOptions"
           and batch = "[batchStart..<batchEnd]" and st = st, OF assms])

text \<open>A column whose rows fit into one batch.\<close>

lemma processColumn_one_batch:
  assumes n: "0 < length (rows st)" "length (rows st) \<le> c_batchSize (settings_of c)"
    and pb: "processBatch rt post 0 (length (rows st)) (column_info_of c)
               (c_modelName (settings_of c)) (c_prompt (settings_of c))
               (or_null (c_modelPlugins (settings_of c)))
               (or_null (c_webSearchOptions (settings_of c))) 10 st
             = (Inr outs, st1)"
  shows "processColumn rt post ckpt c path st
         = (case report_failure rt
                   (aggregate rt \<lparr>t_cost = JNum 0, t_promptTokens = JNum 0,
                                  t_completionTokens = JNum 0\<rparr> outs) outs of
              Some err \<Rightarrow> Some (Inl err, st1)
            | None \<Rightarrow>
                (let t = aggregate rt \<lparr>t_cost = JNum 0, t_promptTokens = JNum 0,
                                       t_completionTokens = JNum 0\<rparr> outs
                 in Some (Inr \<lparr>s_cost = t_cost t,
                               s_tokens = js_plus rt (t_promptTokens t) (t_completionTokens t),
                               s_promptTokens = t_promptTokens t,
                               s_completionTokens = t_completionTokens t\<rparr>,
                          write_progress (ckpt 0) path st1)))"
proof -
  let ?cfg = "settings_of c"
  let ?zero = "\<lparr>t_cost = JNum 0, t_promptTokens = JNum 0, t_completionTokens = JNum 0\<rparr>"
  have b: "0 < c_batchSize ?cfg" using n by arith
  have m: "min (0 + c_batchSize ?cfg) (length (rows st)) = length (rows st)" using n by arith
  have pb': "processBatch rt post 0 (min (0 + c_batchSize ?cfg) (length (rows st)))
               (column_info_of c) (c_modelName ?cfg) (c_prompt ?cfg)
               (or_null (c_modelPlugins ?cfg)) (or_null (c_webSearchOptions ?cfg)) 10 st
             = (Inr outs, st1)"
    unfolding m by (rule pb)
  show ?thesis
  proof (cases "report_failure rt (aggregate rt ?zero outs) outs")
    case (Some err)
    have "batch_loop rt post ckpt (column_info_of c) ?cfg path (length (rows st)) 0 ?zero st
          = Some (Inl err, st1)"
      by (rule batch_loop_report_failure [OF n(1) b pb' Some])
    then show ?thesis by (simp add: processColumn_def Some)
  next
    case None
    have e: "\<not> c_batchSize ?cfg < length (rows st)" using n by arith
    have "batch_loop rt post ckpt (column_info_of c) ?cfg path (length (rows st)) 0 ?zero st
          = Some (Inr (aggregate rt ?zero outs), write_progress (ckpt 0) path st1)"
      unfolding batch_loop_step [OF n(1) b pb' None] m
      by (simp add: batch_loop_end [OF e])
    then show ?thesis by (simp add: processColumn_def None Let_def)
  qed
qed

text \<open>A batch touches no row outside itself and keeps the number of rows.\<close>

lemma failed_rows_subset:
  "set (map fst (failed_of (settle_round f ps rs))) \<subseteq> set ps"
  by (auto simp: failed_of_def settle_round_def)

lemma write_back_outside:
  assumes "j \<notin> set ps"
  shows "write_back rs (settle_round f ps rs') ! j = rs ! j"
  using assms by (intro write_back_untouched) (auto simp: settle_round_def)

lemma retry_loop_outside:
  assumes "j \<notin> set rowsToProcess"
  shows "rows (snd (retry_loop rt req task maxRetries rowsToProcess retryCount allResults st)) ! j
           = rows st ! j
         \<and> length (rows (snd (retry_loop rt req task maxRetries rowsToProcess retryCount
                                 allResults st)))
           = length (rows st)"
  using assms
proof (induction "Suc maxRetries - retryCount" arbitrary: rowsToProcess retryCount allResults st)
  case 0
  then have gt: "\<not> retryCount \<le> maxRetries" by simp
  have "retry_loop rt req task maxRetries rowsToProcess retryCount allResults st
             = (Inr allResults, st)"
    by (subst retry_loop.simps) (simp add: gt)
  then show ?case by simp
next
  case (Suc n)
  let ?results = "settle_round (task retryCount) rowsToProcess (rows st)"
  let ?inv = "map (\<lambda>rowIndex. Invoke retryCount rowIndex (req (rows st ! rowIndex))) rowsToProcess"
  let ?st1 = "\<lparr>rows = write_back (rows st) ?results, trace = trace st @ ?inv\<rparr>"
  let ?acc1 = "allResults @ succeeded_of ?results"
  let ?rtp1 = "map fst (failed_of ?results)"
  have wb: "write_back (rows st) ?results ! j = rows st ! j"
    by (rule write_back_outside [OF Suc.prems])
  have len: "length (write_back (rows st) ?results) = length (rows st)"
    by (rule write_back_length)
  show ?case
  proof (cases "rowsToProcess = []")
    case True
    then show ?thesis by (simp add: retry_loop_done)
  next
    case ne: False
    have le: "retryCount \<le> maxRetries" using Suc.hyps(2) by simp
    show ?thesis
    proof (cases "failed_of ?results = []")
      case True
      have "retry_loop rt req task maxRetries rowsToProcess retryCount allResults st
            = (Inr ?acc1, ?st1)"
        apply (subst retry_loop.simps)
        using ne le True
        apply (simp add: Let_def retry_loop_done)
        done
      then show ?thesis using wb len by simp
    next
      case fail: False
      show ?thesis
      proof (cases "maxRetries < Suc retryCount")
        case True
        let ?report = "failure_report ?rtp1 maxRetries (summarize rt (failed_of ?results))"
        have "retry_loop rt req task maxRetries rowsToProcess retryCount allResults st
              = (Inl (exhausted_error ?rtp1 maxRetries), emit ?report ?st1)"
          apply (subst retry_loop.simps)
          using ne le fail True
          apply (simp add: Let_def)
          done
        then show ?thesis using wb len by (simp add: emit_def)
      next
        case False
        let ?st2 = "emit [Sleep (2 ^ Suc retryCount * 1000)] ?st1"
        have step: "retry_loop rt req task maxRetries rowsToProcess retryCount allResults st
              = retry_loop rt req task maxRetries ?rtp1 (Suc retryCount) ?acc1 ?st2"
          apply (subst retry_loop.simps)
          using ne le fail False
          apply (simp add: Let_def)
          done
        have n: "n = Suc maxRetries - Suc retryCount" using Suc.hyps(2) by simp
        have j: "j \<notin> set ?rtp1" using Suc.prems failed_rows_subset by blast
        have r2: "rows ?st2 = write_back (rows st) ?results" by (simp add: emit_def)
        show ?thesis
          unfolding step using Suc.hyps(1) [OF n j, of ?acc1 ?st2] wb len unfolding r2 by simp
      qed
    qed
  qed
qed

lemma processBatch_outside:
  assumes "j < batchStart \<or> batchEnd \<le> j"
  shows "rows (snd (processBatch rt post batchStart batchEnd columnInfo modelName prompt plugins
                      webSearchOptions maxRetries st)) ! j = rows st ! j
         \<and> length (rows (snd (processBatch rt post batchStart batchEnd columnInfo modelName prompt
                                 plugins webSearchOptions maxRetries st)))
           = length (rows st)"
proof -
  have "j \<notin> set [batchStart..<batchEnd]" using assms by auto
  then show ?thesis unfolding processBatch_retry_loop by (rule retry_loop_outside)
qed

lemma processBatch_grows:
  "\<exists>evs. trace (snd (processBatch rt post batchStart batchEnd columnInfo modelName prompt plugins
                       webSearchOptions maxRetries st)) = trace st @ evs"
  using processBatch_trace [where rt = rt and modelName = modelName and prompt = prompt
         and plugins = plugins and webSearchOptions = webSearchOptions and post = post
         and columnInfo = columnInfo and st = st and batchStart = batchStart
         and batchEnd = batchEnd and maxRetries = maxRetries]
  by (metis append_assoc)



section \<open>A run over the three rows\<close>

text \<open>The three rows in one batch, every request answered.\<close>

lemma demo_ok_batch:
  "processBatch demo_runtime demo_post_ok 0 3 (ColumnName ''Summary'') ''m'' ''Sum {{Video}}''
     None None 10 demo_state
   = (Inr (map (\<lambda>i. fst (projr (batch_task demo_runtime demo_post_ok (ColumnName ''Summary'')
                                    ''m'' ''Sum {{Video}}'' None None 0 i (rows demo_state ! i))))
             [0..<3]),
      snd (processBatch demo_runtime demo_post_ok 0 3 (ColumnName ''Summary'') ''m''
             ''Sum {{Video}}'' None None 10 demo_state))"
proof -
  let ?task = "batch_task demo_runtime demo_post_ok (ColumnName ''Summary'') ''m''
                 ''Sum {{Video}}'' None None"
  have u: "[0..<3] = [0, 1, 2]" by code_simp
  have f0: "map (\<lambda>i. isl (?task 0 i (rows demo_state ! i))) [0, 1, 2] = [False, False, False]"
    by code_simp
  have ok: "\<forall>i \<in> set [0..<3]. \<not> isl (?task 0 i (rows demo_state ! i))"
    unfolding u using f0 by simp
  show ?thesis
    unfolding processBatch_all_succeed [OF ok] by simp
qed

lemma demo_ok_report:
  "report_failure demo_runtime
     (aggregate demo_runtime \<lparr>t_cost = JNum 0, t_promptTokens = JNum 0, t_completionTokens = JNum 0\<rparr>
        (map (\<lambda>i. fst (projr (batch_task demo_runtime demo_post_ok (ColumnName ''Summary'')
                                 ''m'' ''Sum {{Video}}'' None None 0 i (rows demo_state ! i))))
           [0..<3]))
     (map (\<lambda>i. fst (projr (batch_task demo_runtime demo_post_ok (ColumnName ''Summary'')
                              ''m'' ''Sum {{Video}}'' None None 0 i (rows demo_state ! i))))
        [0..<3])
   = None"
  by code_simp

lemma demo_ok_column:
  "\<exists>columnStats.
     processColumn demo_runtime demo_post_ok ckpt
       (Single ''Summary'' (demo_settings\<lparr>c_batchSize := 10\<rparr>)) path demo_state
     = Some (Inr columnStats,
             write_progress (ckpt 0) path
               (snd (processBatch demo_runtime demo_post_ok 0 3 (ColumnName ''Summary'') ''m''
                       ''Sum {{Video}}'' None None 10 demo_state)))"
proof -
  let ?c = "Single ''Summary'' (demo_settings\<lparr>c_batchSize := 10\<rparr>)"
  have len: "length (rows demo_state) = 3" by (simp add: demo_state_def demo_rows_def)
  have s: "column_info_of ?c = ColumnName ''Summary''" "c_modelName (settings_of ?c) = ''m''"
    "c_prompt (settings_of ?c) = ''Sum {{Video}}''"
    "or_null (c_modelPlugins (settings_of ?c)) = None"
    "or_null (c_webSearchOptions (settings_of ?c)) = None"
    "c_batchSize (settings_of ?c) = 10"
    by (simp_all add: column_info_of_def settings_of_def demo_settings_def or_null_def)
  have n: "0 < length (rows demo_state)" "length (rows demo_state) \<le> c_batchSize (settings_of ?c)"
    unfolding len s by simp_all
  have pb: "processBatch demo_runtime demo_post_ok 0 (length (rows demo_state)) (column_info_of ?c)
               (c_modelName (settings_of ?c)) (c_prompt (settings_of ?c))
               (or_null (c_modelPlugins (settings_of ?c)))
               (or_null (c_webSearchOptions (settings_of ?c))) 10 demo_state
             = (Inr (map (\<lambda>i. fst (projr (batch_task demo_runtime demo_post_ok (ColumnName ''Summary'')
                                    ''m'' ''Sum {{Video}}'' None None 0 i (rows demo_state ! i))))
                       [0..<3]),
                snd (processBatch demo_runtime demo_post_ok 0 3 (ColumnName ''Summary'') ''m''
                       ''Sum {{Video}}'' None None 10 demo_state))"
    unfolding len s by (rule demo_ok_batch)
  show ?thesis
    unfolding processColumn_one_batch [OF n pb] demo_ok_report
    by (simp add: Let_def)
qed

lemma demo_ok_main:
  "main demo_runtime (\<lambda>c. demo_post_ok) (\<lambda>c i. None) None
     (demo_config\<lparr>cfg_outputFileName := out\<rparr>) demo_rows
   = (let st = write_progress None (progress_path out)
                 (snd (processBatch demo_runtime demo_post_ok 0 3 (ColumnName ''Summary'') ''m''
                         ''Sum {{Video}}'' None None 10 demo_state))
      in Some (0, emit [WriteCSV out (object_keys (rows st ! 0)) (rows st)] st))"
proof -
  let ?c = "Single ''Summary'' (demo_settings\<lparr>c_batchSize := 10\<rparr>)"
  have ne: "demo_rows \<noteq> []" by (simp add: demo_rows_def)
  have cols: "map with_defaults (cfg_columns (demo_config\<lparr>cfg_outputFileName := out\<rparr>)) = [?c]"
    by (simp add: demo_config_def with_defaults_def demo_settings_def)
  have st0: "\<lparr>rows = demo_rows, trace = []\<rparr> = demo_state" by (simp add: demo_state_def)
  obtain columnStats where
    pc: "processColumn demo_runtime demo_post_ok (\<lambda>i. None) ?c (progress_path out) demo_state
         = Some (Inr columnStats,
             write_progress None (progress_path out)
               (snd (processBatch demo_runtime demo_post_ok 0 3 (ColumnName ''Summary'') ''m''
                       ''Sum {{Video}}'' None None 10 demo_state)))"
    using demo_ok_column [of "\<lambda>i. None" "progress_path out"] by (elim exE)
  show ?thesis
    unfolding main_run_columns [OF ne] cols st0
    by (simp add: pc Let_def)
qed

lemma demo_content: "response_content demo_response = Some '' ok ''"
  by code_simp

lemma demo_down_task:
  "isl (batch_task demo_runtime demo_post_down columnInfo modelName prompt plugins
          webSearchOptions k i r) = (i = 2)"
  by (simp add: batch_task_def processRow_def callOpenRouterAPI_def demo_post_down_def
        demo_content Let_def)

lemma demo_down_pending_any:
  "pending (batch_task demo_runtime demo_post_down columnInfo modelName prompt plugins
              webSearchOptions) rs [0..<3] (Suc 10) = [2]"
proof -
  have u: "[0..<3] = [0, 1, 2]" by (simp add: upt_rec)
  have "(\<forall>k \<le> (10::nat). i = 2) = (i = 2)" for i :: nat by auto
  then show ?thesis unfolding pending_all_rounds demo_down_task u by simp
qed

lemma demo_down_column:
  assumes "length (rows st) = 3"
  shows "processColumn demo_runtime demo_post_down ckpt
           (Single name (demo_settings\<lparr>c_batchSize := 10\<rparr>)) path st
         = Some (Inl \<lparr>e_message = ''1 row(s) failed after 10 retries'', e_response = None\<rparr>,
                 snd (processBatch demo_runtime demo_post_down 0 3 (ColumnName name) ''m''
                        ''Sum {{Video}}'' None None 10 st))"
proof -
  let ?c = "Single name (demo_settings\<lparr>c_batchSize := 10\<rparr>)"
  let ?run = "processBatch demo_runtime demo_post_down 0 3 (ColumnName name) ''m''
                ''Sum {{Video}}'' None None 10 st"
  let ?err = "\<lparr>e_message = ''1 row(s) failed after 10 retries'', e_response = None\<rparr>"
  have s: "column_info_of ?c = ColumnName name" "c_modelName (settings_of ?c) = ''m''"
    "c_prompt (settings_of ?c) = ''Sum {{Video}}''"
    "or_null (c_modelPlugins (settings_of ?c)) = None"
    "or_null (c_webSearchOptions (settings_of ?c)) = None"
    "c_batchSize (settings_of ?c) = 10"
    by (simp_all add: column_info_of_def settings_of_def demo_settings_def or_null_def)
  have ne: "pending (batch_task demo_runtime demo_post_down (ColumnName name) ''m''
              ''Sum {{Video}}'' None None) (rows st) [0..<3] (Suc 10) \<noteq> []"
    unfolding demo_down_pending_any by simp
  from processBatch_exhausted [OF ne] have "fst ?run = Inl ?err"
    unfolding demo_down_pending_any
    by (auto simp: exhausted_error_def show_nat_demo)
  then have run: "?run = (Inl ?err, snd ?run)" by (cases ?run) simp
  have pb: "processBatch demo_runtime demo_post_down 0
              (min (0 + c_batchSize (settings_of ?c)) (length (rows st))) (column_info_of ?c)
              (c_modelName (settings_of ?c)) (c_prompt (settings_of ?c))
              (or_null (c_modelPlugins (settings_of ?c)))
              (or_null (c_webSearchOptions (settings_of ?c))) 10 st
            = (Inl ?err, snd ?run)"
    unfolding s assms using run by simp
  have lt: "0 < length (rows st)" "0 < c_batchSize (settings_of ?c)"
    unfolding s assms by simp_all
  show ?thesis
    by (rule processColumn_failure) (rule batch_loop_failure [OF lt pb])
qed






section \<open>The checkpoint path\<close>

text \<open>
  Claim C9. The checkpoint path is the output file name with a final \<^verbatim>\<open>.csv\<close>, in any
  mix of upper and lower case, replaced by \<^verbatim>\<open>.progress\<close>; it is the output file name itself
  when the name does not end so. Every file a run writes is written to the checkpoint path,
  except for the last write of a run that reaches it, which goes to the output file: so
  when the name does not end in \<^verbatim>\<open>.csv\<close>, every checkpoint is written over the output file.
  A column that runs to its end has written the checkpoint path once per batch.
\<close>

theorem checkpoint_path:
  "(csv_extension ext \<longrightarrow> progress_path (base @ ext) = base @ ''.progress'')
   \<and> (\<not> csv_extension (drop (length out - 4) out) \<longrightarrow> progress_path out = out)
   \<and> (main rt post ckpt out_failure cfg loaded = Some (code, st)
        \<longrightarrow> (\<exists>n final.
               write_paths (trace st)
                 = replicate n (progress_path (cfg_outputFileName cfg)) @ final
               \<and> (final = [] \<or> final = [cfg_outputFileName cfg])
               \<and> (code = 0 \<longrightarrow> final = [cfg_outputFileName cfg])))
   \<and> (main rt post ckpt out_failure cfg loaded = Some (code, st)
        \<and> \<not> csv_extension (drop (length (cfg_outputFileName cfg) - 4) (cfg_outputFileName cfg))
        \<longrightarrow> set (write_paths (trace st)) \<subseteq> {cfg_outputFileName cfg})
   \<and> (processColumn rt (post k) (ckpt k) columnConfig path s = Some (res, s') \<and> \<not> isl res
        \<and> path \<noteq> []
        \<longrightarrow> write_paths (trace s')
            = write_paths (trace s)
              @ replicate ((length (rows s) + c_batchSize (settings_of columnConfig) - 1)
                             div c_batchSize (settings_of columnConfig)) path)"
proof -
  let ?out = "cfg_outputFileName cfg"
  let ?path = "progress_path ?out"
  have a: "csv_extension ext \<longrightarrow> progress_path (base @ ext) = base @ ''.progress''"
    using progress_path_replaced by blast
  have b: "\<not> csv_extension (drop (length out - 4) out) \<longrightarrow> progress_path out = out"
    using progress_path_kept by blast
  have c: "\<exists>n final. write_paths (trace st) = replicate n ?path @ final
               \<and> (final = [] \<or> final = [?out]) \<and> (code = 0 \<longrightarrow> final = [?out])"
    if m: "main rt post ckpt out_failure cfg loaded = Some (code, st)"
  proof (cases "loaded = []")
    case True
    then have "code = 1" "write_paths (trace st) = []"
      using m by (auto simp: main_def write_paths_def)
    then show ?thesis by (intro exI [of _ 0] exI [of _ "[]"]) simp
  next
    case False
    let ?run = "run_columns rt post ckpt ?path 0 (map with_defaults (cfg_columns cfg))
                  \<lparr>s_cost = JNum 0, s_tokens = JNum 0, s_promptTokens = JNum 0,
                   s_completionTokens = JNum 0\<rparr>
                  \<lparr>rows = loaded, trace = []\<rparr>"
    from m obtain res st1 where run: "?run = Some (res, st1)"
      unfolding main_run_columns [OF False] by (auto split: option.splits)
    from run_columns_trace [OF run] obtain evs n where
      t: "trace st1 = evs" and w: "write_paths evs = replicate n ?path"
      by auto
    show ?thesis
    proof (cases res)
      case (Inl err)
      then have "code = 1" "trace st = trace st1 @ [ConsoleError (''Error: '' @ e_message err)]"
        using m run unfolding main_run_columns [OF False] by auto
      then have "write_paths (trace st) = replicate n ?path @ []"
        using t w by (simp add: write_paths_def)
      then show ?thesis using \<open>code = 1\<close> by (intro exI [of _ n] exI [of _ "[]"]) simp
    next
      case (Inr grand)
      show ?thesis
      proof (cases out_failure)
        case None
        then have "trace st = trace st1 @ [WriteCSV ?out (object_keys (rows st1 ! 0)) (rows st1)]"
          using m run Inr unfolding main_run_columns [OF False] by auto
        then have "write_paths (trace st) = replicate n ?path @ [?out]"
          using t w by (simp add: write_paths_def)
        then show ?thesis by (intro exI [of _ n] exI [of _ "[?out]"]) simp
      next
        case (Some msg)
        then have "trace st = trace st1 @ [WriteCSV ?out (object_keys (rows st1 ! 0)) (rows st1),
                                          ConsoleError (''Error: '' @ msg)]"
          using m run Inr unfolding main_run_columns [OF False] by auto
        then have "write_paths (trace st) = replicate n ?path @ [?out]"
          using t w by (simp add: write_paths_def)
        then show ?thesis by (intro exI [of _ n] exI [of _ "[?out]"]) simp
      qed
    qed
  qed
  have d: "set (write_paths (trace st)) \<subseteq> {?out}"
    if m: "main rt post ckpt out_failure cfg loaded = Some (code, st)"
      and e: "\<not> csv_extension (drop (length ?out - 4) ?out)"
  proof -
    have p: "?path = ?out" using e by (rule progress_path_kept)
    from c [OF m] obtain n final where
      "write_paths (trace st) = replicate n ?path @ final" "final = [] \<or> final = [?out]"
      by blast
    then show ?thesis unfolding p by auto
  qed
  have e: "write_paths (trace s')
            = write_paths (trace s)
              @ replicate ((length (rows s) + c_batchSize (settings_of columnConfig) - 1)
                             div c_batchSize (settings_of columnConfig)) path"
    if pc: "processColumn rt (post k) (ckpt k) columnConfig path s = Some (res, s')"
      and ok: "\<not> isl res" and ne: "path \<noteq> []"
  proof -
    from processColumn_trace [OF pc] obtain evs n where
      "trace s' = trace s @ evs" "write_paths evs = replicate n path"
      "\<not> isl res \<and> path \<noteq> [] \<longrightarrow>
         n = (length (rows s) + c_batchSize (settings_of columnConfig) - 1)
               div c_batchSize (settings_of columnConfig)"
      by (elim exE conjE)
    then show ?thesis using ok ne by simp
  qed
  show ?thesis
    apply (intro conjI impI)
    subgoal using a by simp
    subgoal using b by simp
    subgoal using c by simp
    subgoal using d by simp
    subgoal using e by simp
    done
qed

text \<open>
  Witness for C9: \<open>out.CSV\<close> gives the checkpoint path \<open>out.progress\<close>; with the output
  file \<open>out.txt\<close> the run over the three rows writes its checkpoint and then its result to
  \<open>out.txt\<close>.
\<close>

theorem checkpoint_path_witness:
  "csv_extension ''.CSV''
   \<and> progress_path (''out'' @ ''.CSV'') = ''out.progress''
   \<and> \<not> csv_extension (drop (length ''out.txt'' - 4) ''out.txt'')
   \<and> progress_path ''out.txt'' = ''out.txt''
   \<and> fst (the (main demo_runtime (\<lambda>c. demo_post_ok) (\<lambda>c i. None) None
                  (demo_config\<lparr>cfg_outputFileName := ''out.txt''\<rparr>) demo_rows)) = 0
   \<and> write_paths
        (trace (snd (the (main demo_runtime (\<lambda>c. demo_post_ok) (\<lambda>c i. None) None
                            (demo_config\<lparr>cfg_outputFileName := ''out.txt''\<rparr>) demo_rows))))
     = [''out.txt'', ''out.txt'']
   \<and> \<not> isl (fst (the (processColumn demo_runtime demo_post_ok (\<lambda>i. None)
                          (Single ''Summary'' (demo_settings\<lparr>c_batchSize := 10\<rparr>))
                          ''out.progress'' demo_state)))
   \<and> write_paths
        (trace (snd (the (processColumn demo_runtime demo_post_ok (\<lambda>i. None)
                            (Single ''Summary'' (demo_settings\<lparr>c_batchSize := 10\<rparr>))
                            ''out.progress'' demo_state))))
     = [''out.progress'']"
proof -
  let ?cfg = "demo_config\<lparr>cfg_outputFileName := ''out.txt''\<rparr>"
  let ?B = "snd (processBatch demo_runtime demo_post_ok 0 3 (ColumnName ''Summary'') ''m''
                   ''Sum {{Video}}'' None None 10 demo_state)"
  let ?B' = "write_progress None (progress_path ''out.txt'') ?B"
  let ?S = "emit [WriteCSV ''out.txt'' (object_keys (rows ?B' ! 0)) (rows ?B')] ?B'"
  have e1: "csv_extension ''.CSV''" by (simp add: csv_extension_def)
  have e2: "\<not> csv_extension (drop (length ''out.txt'' - 4) ''out.txt'')"
    by (simp add: csv_extension_def)
  have o: "cfg_outputFileName ?cfg = ''out.txt''" by simp
  have m: "main demo_runtime (\<lambda>c. demo_post_ok) (\<lambda>c i. None) None ?cfg demo_rows = Some (0, ?S)"
    unfolding demo_ok_main by (simp add: Let_def)
  let ?c = "Single ''Summary'' (demo_settings\<lparr>c_batchSize := 10\<rparr>)"
  obtain columnStats where
    pc: "processColumn demo_runtime demo_post_ok (\<lambda>i. None) ?c ''out.progress'' demo_state
         = Some (Inr columnStats, write_progress None ''out.progress'' ?B)"
    using demo_ok_column [of "\<lambda>i. None" "''out.progress''"] by (elim exE)
  note inst = checkpoint_path [where ext = "''.CSV''" and base = "''out''" and out = "''out.txt''"
      and rt = demo_runtime and post = "\<lambda>c. demo_post_ok" and ckpt = "\<lambda>c i. None"
      and out_failure = None and cfg = ?cfg and loaded = demo_rows and code = 0 and st = ?S
      and k = 0 and columnConfig = ?c and path = "''out.progress''" and s = demo_state
      and res = "Inr columnStats" and s' = "write_progress None ''out.progress'' ?B"]
  have n1: "(length (rows demo_state) + c_batchSize (settings_of ?c) - 1)
              div c_batchSize (settings_of ?c) = 1"
    by (simp add: demo_state_def demo_rows_def settings_of_def)
  have t0: "write_paths (trace demo_state) = []" by (simp add: demo_state_def)
  have cw: "write_paths (trace (write_progress None ''out.progress'' ?B)) = [''out.progress'']"
    using inst [THEN conjunct2, THEN conjunct2, THEN conjunct2, THEN conjunct2] pc
    unfolding n1 t0 by simp
  have p1: "progress_path (''out'' @ ''.CSV'') = ''out.progress''"
    using inst [THEN conjunct1] e1 by simp
  have p2: "progress_path ''out.txt'' = ''out.txt''"
    using inst [THEN conjunct2, THEN conjunct1] e2 by simp
  have sub: "set (write_paths (trace ?S)) \<subseteq> {''out.txt''}"
    using inst [THEN conjunct2, THEN conjunct2, THEN conjunct2, THEN conjunct1] m e2
    unfolding o by simp
  have wb: "write_paths (trace ?B) = []"
    using processBatch_write_paths [of demo_runtime demo_post_ok 0 3 "ColumnName ''Summary''"
        "''m''" "''Sum {{Video}}''" None None 10 demo_state]
    by (simp add: demo_state_def)
  have w: "write_paths (trace ?S) = [''out.txt'', ''out.txt'']"
    using wb by (simp add: p2 write_progress_trace write_paths_def)
  show ?thesis
    using e1 p1 e2 p2 w sub cw unfolding m pc by simp
qed



section \<open>The order of the columns and the end of a run\<close>

text \<open>
  Claim C7. \<^verbatim>\<open>main\<close> runs the columns one after the other in the order of the list, each
  on the state the one before has left: the rows with every field written so far and the
  trace of what has been done. When all columns have run to their end it writes the output
  file. When a column fails, \<^verbatim>\<open>main\<close> reports the error and exits with status 1 in the
  state that column has left: no later column has run and the output file is not written,
  whatever columns follow in the list. Nothing is undone: what the columns before have added
  to the trace, their checkpoints among it, is still in front, and the batch that fails
  inside a column leaves the rows of all batches before it as they were, and rows and trace
  stay as they are from there to the exit.
\<close>

theorem columns_run_in_order:
  "let path = progress_path (cfg_outputFileName cfg);
       zero = \<lparr>s_cost = JNum 0, s_tokens = JNum 0, s_promptTokens = JNum 0,
               s_completionTokens = JNum 0\<rparr>;
       start = \<lparr>rows = loaded, trace = []\<rparr>
   in column_loop rt post ckpt cols path 0 grand st = run_columns rt post ckpt path 0 cols grand st
      \<and> run_columns rt post ckpt path i (cs1 @ cs2) grand st
          = (case run_columns rt post ckpt path i cs1 grand st of
               None \<Rightarrow> None
             | Some (Inl err, st1) \<Rightarrow> Some (Inl err, st1)
             | Some (Inr g, st1) \<Rightarrow> run_columns rt post ckpt path (i + length cs1) cs2 g st1)
      \<and> (loaded \<noteq> []
          \<longrightarrow> main rt post ckpt out_failure cfg loaded
              = (case run_columns rt post ckpt path 0 (map with_defaults (cfg_columns cfg))
                        zero start of
                   None \<Rightarrow> None
                 | Some (Inl err, st') \<Rightarrow>
                     Some (1, emit [ConsoleError (''Error: '' @ e_message err)] st')
                 | Some (Inr totalStats, st') \<Rightarrow>
                     (case out_failure of
                        None \<Rightarrow>
                          Some (0, emit [WriteCSV (cfg_outputFileName cfg)
                                           (object_keys (rows st' ! 0)) (rows st')] st')
                      | Some msg \<Rightarrow>
                          Some (1, emit [WriteCSV (cfg_outputFileName cfg)
                                           (object_keys (rows st' ! 0)) (rows st'),
                                         ConsoleError (''Error: '' @ msg)] st'))))
      \<and> (loaded \<noteq> [] \<and> cfg_columns cfg = before @ c # after
          \<and> run_columns rt post ckpt path 0 (map with_defaults before) zero start
              = Some (Inr g1, st1)
          \<and> processColumn rt (post (length before)) (ckpt (length before)) (with_defaults c)
                path st1 = Some (Inl err, st2)
          \<longrightarrow> main rt post ckpt out_failure cfg loaded
                = Some (1, \<lparr>rows = rows st2,
                            trace = trace st2 @ [ConsoleError (''Error: '' @ e_message err)]\<rparr>)
              \<and> (\<exists>evs. trace st2 = trace st1 @ evs))
      \<and> (b < totalRows \<and> 0 < c_batchSize s
          \<and> processBatch rt p b (min (b + c_batchSize s) totalRows) columnInfo (c_modelName s)
                (c_prompt s) (or_null (c_modelPlugins s)) (or_null (c_webSearchOptions s)) 10 st
              = (Inl err, st')
          \<longrightarrow> batch_loop rt p ck columnInfo s path totalRows b acc st = Some (Inl err, st')
              \<and> length (rows st') = length (rows st)
              \<and> take b (rows st') = take b (rows st)
              \<and> (\<exists>evs. trace st' = trace st @ evs))"
proof -
  let ?path = "progress_path (cfg_outputFileName cfg)"
  let ?zero = "\<lparr>s_cost = JNum 0, s_tokens = JNum 0, s_promptTokens = JNum 0,
                 s_completionTokens = JNum 0\<rparr>"
  let ?start = "\<lparr>rows = loaded, trace = []\<rparr>"
  have 1: "column_loop rt post ckpt cols ?path 0 grand st
           = run_columns rt post ckpt ?path 0 cols grand st"
    using column_loop_run_columns [of 0 cols rt post ckpt ?path grand st] by simp
  have 2: "run_columns rt post ckpt ?path i (cs1 @ cs2) grand st
          = (case run_columns rt post ckpt ?path i cs1 grand st of
               None \<Rightarrow> None
             | Some (Inl err, st1) \<Rightarrow> Some (Inl err, st1)
             | Some (Inr g, st1) \<Rightarrow> run_columns rt post ckpt ?path (i + length cs1) cs2 g st1)"
    by (rule run_columns_append)
  have 3: "main rt post ckpt out_failure cfg loaded
              = (case run_columns rt post ckpt ?path 0 (map with_defaults (cfg_columns cfg))
                        ?zero ?start of
                   None \<Rightarrow> None
                 | Some (Inl err, st') \<Rightarrow>
                     Some (1, emit [ConsoleError (''Error: '' @ e_message err)] st')
                 | Some (Inr totalStats, st') \<Rightarrow>
                     (case out_failure of
                        None \<Rightarrow>
                          Some (0, emit [WriteCSV (cfg_outputFileName cfg)
                                           (object_keys (rows st' ! 0)) (rows st')] st')
                      | Some msg \<Rightarrow>
                          Some (1, emit [WriteCSV (cfg_outputFileName cfg)
                                           (object_keys (rows st' ! 0)) (rows st'),
                                         ConsoleError (''Error: '' @ msg)] st')))"
    if "loaded \<noteq> []"
    by (rule main_run_columns [OF that])
  have 4: "main rt post ckpt out_failure cfg loaded
                = Some (1, \<lparr>rows = rows st2,
                            trace = trace st2 @ [ConsoleError (''Error: '' @ e_message err)]\<rparr>)
              \<and> (\<exists>evs. trace st2 = trace st1 @ evs)"
    if h: "loaded \<noteq> [] \<and> cfg_columns cfg = before @ c # after
          \<and> run_columns rt post ckpt ?path 0 (map with_defaults before) ?zero ?start
              = Some (Inr g1, st1)
          \<and> processColumn rt (post (length before)) (ckpt (length before)) (with_defaults c)
                ?path st1 = Some (Inl err, st2)"
  proof -
    have ne: "loaded \<noteq> []" and cols: "cfg_columns cfg = before @ c # after"
      and r1: "run_columns rt post ckpt ?path 0 (map with_defaults before) ?zero ?start
              = Some (Inr g1, st1)"
      and pc: "processColumn rt (post (length before)) (ckpt (length before)) (with_defaults c)
                ?path st1 = Some (Inl err, st2)"
      using h by simp_all
    have "run_columns rt post ckpt ?path 0 (map with_defaults (cfg_columns cfg)) ?zero ?start
          = Some (Inl err, st2)"
      unfolding cols map_append run_columns_append r1 by (simp add: pc)
    then have m: "main rt post ckpt out_failure cfg loaded
          = Some (1, emit [ConsoleError (''Error: '' @ e_message err)] st2)"
      unfolding main_run_columns [OF ne] by simp
    from processColumn_trace [OF pc] have "\<exists>evs. trace st2 = trace st1 @ evs" by blast
    then show ?thesis using m by (simp add: emit_def)
  qed
  have 5: "batch_loop rt p ck columnInfo s ?path totalRows b acc st = Some (Inl err, st')
              \<and> length (rows st') = length (rows st)
              \<and> take b (rows st') = take b (rows st)
              \<and> (\<exists>evs. trace st' = trace st @ evs)"
    if h: "b < totalRows \<and> 0 < c_batchSize s
          \<and> processBatch rt p b (min (b + c_batchSize s) totalRows) columnInfo (c_modelName s)
                (c_prompt s) (or_null (c_modelPlugins s)) (or_null (c_webSearchOptions s)) 10 st
              = (Inl err, st')"
  proof -
    let ?e = "min (b + c_batchSize s) totalRows"
    have lt: "b < totalRows" and bs: "0 < c_batchSize s"
      and pb: "processBatch rt p b ?e columnInfo (c_modelName s)
                (c_prompt s) (or_null (c_modelPlugins s)) (or_null (c_webSearchOptions s)) 10 st
              = (Inl err, st')"
      using h by simp_all
    have st': "st' = snd (processBatch rt p b ?e columnInfo (c_modelName s)
                (c_prompt s) (or_null (c_modelPlugins s)) (or_null (c_webSearchOptions s)) 10 st)"
      unfolding pb by simp
    have a: "batch_loop rt p ck columnInfo s ?path totalRows b acc st = Some (Inl err, st')"
      by (rule batch_loop_failure [OF lt bs pb])
    have out: "rows st' ! j = rows st ! j" if "j < b" for j
      unfolding st' using that by (intro processBatch_outside [THEN conjunct1]) simp
    have len: "length (rows st') = length (rows st)"
      unfolding st' by (intro processBatch_outside [of ?e, THEN conjunct2]) simp
    have tk: "take b (rows st') = take b (rows st)"
      using out len by (simp add: list_eq_iff_nth_eq)
    have gr: "\<exists>evs. trace st' = trace st @ evs"
      unfolding st' by (rule processBatch_grows)
    show ?thesis using a len tk gr by simp
  qed
  show ?thesis
    unfolding Let_def
    apply (intro conjI impI)
    subgoal by (rule 1)
    subgoal by (rule 2)
    subgoal using 3 by simp
    subgoal using 4 by simp
    subgoal using 4 by simp
    subgoal using 5 by simp
    subgoal using 5 by simp
    subgoal using 5 by simp
    subgoal using 5 by simp
    done
qed

text \<open>
  Witness for C7: of three columns the first runs to its end and the second fails on row 2.
  The run ends with status 1 in the state the second column has left; the only file
  written is the checkpoint of the first column.
\<close>

theorem columns_run_in_order_witness:
  "let zero = \<lparr>s_cost = JNum 0, s_tokens = JNum 0, s_promptTokens = JNum 0,
               s_completionTokens = JNum 0\<rparr>;
       err = \<lparr>e_message = ''1 row(s) failed after 10 retries'', e_response = None\<rparr>;
       st1 = write_progress None ''out.progress''
               (snd (processBatch demo_runtime demo_post_ok 0 3 (ColumnName ''Summary'') ''m''
                       ''Sum {{Video}}'' None None 10 demo_state));
       st2 = snd (processBatch demo_runtime demo_post_down 0 3 (ColumnName ''Topic'') ''m''
                    ''Sum {{Video}}'' None None 10 st1)
   in demo_rows \<noteq> []
      \<and> cfg_columns demo_three_columns
          = [Single ''Summary'' demo_settings] @ Single ''Topic'' demo_settings
            # [Single ''Never'' demo_settings]
      \<and> map_option (\<lambda>x. (isl (fst x), snd x))
           (run_columns demo_runtime demo_posts (\<lambda>c i. None) ''out.progress'' 0
              (map with_defaults [Single ''Summary'' demo_settings]) zero
              \<lparr>rows = demo_rows, trace = []\<rparr>)
          = Some (False, st1)
      \<and> processColumn demo_runtime (demo_posts 1) (\<lambda>i. None)
            (with_defaults (Single ''Topic'' demo_settings)) ''out.progress'' st1
          = Some (Inl err, st2)
      \<and> main demo_runtime demo_posts (\<lambda>c i. None) None demo_three_columns demo_rows
          = Some (1, \<lparr>rows = rows st2,
                      trace = trace st2
                              @ [ConsoleError ''Error: 1 row(s) failed after 10 retries'']\<rparr>)
      \<and> write_paths (trace st2) = [''out.progress'']
      \<and> batch_loop demo_runtime demo_post_down (\<lambda>i. None) (ColumnName ''Topic'')
            (demo_settings\<lparr>c_batchSize := 10\<rparr>) ''out.progress'' 3 0
            \<lparr>t_cost = JNum 0, t_promptTokens = JNum 0, t_completionTokens = JNum 0\<rparr> st1
          = Some (Inl err, st2)
      \<and> length (rows st2) = 3"
proof -
  let ?zero = "\<lparr>s_cost = JNum 0, s_tokens = JNum 0, s_promptTokens = JNum 0,
                 s_completionTokens = JNum 0\<rparr>"
  let ?err = "\<lparr>e_message = ''1 row(s) failed after 10 retries'', e_response = None\<rparr>"
  let ?B = "snd (processBatch demo_runtime demo_post_ok 0 3 (ColumnName ''Summary'') ''m''
                   ''Sum {{Video}}'' None None 10 demo_state)"
  let ?S1 = "write_progress None ''out.progress'' ?B"
  let ?S2 = "snd (processBatch demo_runtime demo_post_down 0 3 (ColumnName ''Topic'') ''m''
                    ''Sum {{Video}}'' None None 10 ?S1)"
  let ?cfg10 = "demo_settings\<lparr>c_batchSize := 10\<rparr>"
  let ?t0 = "\<lparr>t_cost = JNum 0, t_promptTokens = JNum 0, t_completionTokens = JNum 0\<rparr>"
  have ne: "demo_rows \<noteq> []" by (simp add: demo_rows_def)
  have cols: "cfg_columns demo_three_columns
          = [Single ''Summary'' demo_settings] @ Single ''Topic'' demo_settings
            # [Single ''Never'' demo_settings]"
    by (simp add: demo_three_columns_def)
  have wd: "with_defaults (Single name demo_settings) = Single name ?cfg10" for name
    by (simp add: with_defaults_def demo_settings_def)
  have path: "progress_path (cfg_outputFileName demo_three_columns) = ''out.progress''"
    using progress_path_replaced [of "''.csv''" "''out''"]
    by (simp add: demo_three_columns_def csv_extension_def)
  have st0: "\<lparr>rows = demo_rows, trace = []\<rparr> = demo_state" by (simp add: demo_state_def)
  have p0: "demo_posts 0 = demo_post_ok" and p1: "demo_posts 1 = demo_post_down"
    by (simp_all add: demo_posts_def)
  obtain columnStats where
    c0: "processColumn demo_runtime demo_post_ok (\<lambda>i. None) (Single ''Summary'' ?cfg10)
           ''out.progress'' demo_state = Some (Inr columnStats, ?S1)"
    using demo_ok_column [of "\<lambda>i. None" "''out.progress''"] by (elim exE)
  have r1: "run_columns demo_runtime demo_posts (\<lambda>c i. None) ''out.progress'' 0
              (map with_defaults [Single ''Summary'' demo_settings]) ?zero
              \<lparr>rows = demo_rows, trace = []\<rparr>
            = Some (Inr (add_stats demo_runtime ?zero columnStats), ?S1)"
    unfolding st0 by (simp add: wd p0 c0)
  have len0: "length (rows demo_state) = 3" by (simp add: demo_state_def demo_rows_def)
  have len1: "length (rows ?S1) = 3"
    using processBatch_outside [of 3 0 3 demo_runtime demo_post_ok "ColumnName ''Summary''"
        "''m''" "''Sum {{Video}}''" None None 10 demo_state, THEN conjunct2]
    by (simp add: len0)
  have pc: "processColumn demo_runtime (demo_posts 1) (\<lambda>i. None)
              (with_defaults (Single ''Topic'' demo_settings)) ''out.progress'' ?S1
            = Some (Inl ?err, ?S2)"
    unfolding wd p1 by (rule demo_down_column [OF len1])
  have run2: "processBatch demo_runtime demo_post_down 0 3 (ColumnName ''Topic'') ''m''
                ''Sum {{Video}}'' None None 10 ?S1 = (Inl ?err, ?S2)"
  proof -
    have "pending (batch_task demo_runtime demo_post_down (ColumnName ''Topic'') ''m''
              ''Sum {{Video}}'' None None) (rows ?S1) [0..<3] (Suc 10) \<noteq> []"
      unfolding demo_down_pending_any by simp
    from processBatch_exhausted [OF this]
    have "fst (processBatch demo_runtime demo_post_down 0 3 (ColumnName ''Topic'') ''m''
                ''Sum {{Video}}'' None None 10 ?S1) = Inl ?err"
      unfolding demo_down_pending_any by (auto simp: exhausted_error_def show_nat_demo)
    then show ?thesis
      by (cases "processBatch demo_runtime demo_post_down 0 3 (ColumnName ''Topic'') ''m''
                ''Sum {{Video}}'' None None 10 ?S1") simp
  qed
  note inst = columns_run_in_order [where rt = demo_runtime and post = demo_posts
      and ckpt = "\<lambda>c i. None" and cfg = demo_three_columns and loaded = demo_rows
      and out_failure = None and before = "[Single ''Summary'' demo_settings]"
      and c = "Single ''Topic'' demo_settings" and after = "[Single ''Never'' demo_settings]"
      and ?g1.0 = "add_stats demo_runtime ?zero columnStats" and ?st1.0 = ?S1 and err = ?err
      and ?st2.0 = ?S2 and b = 0 and totalRows = 3 and s = ?cfg10 and p = demo_post_down
      and columnInfo = "ColumnName ''Topic''" and st = ?S1 and st' = ?S2
      and ck = "\<lambda>i. None" and acc = ?t0, unfolded Let_def path]
  have h4: "demo_rows \<noteq> []
            \<and> cfg_columns demo_three_columns
                = [Single ''Summary'' demo_settings] @ Single ''Topic'' demo_settings
                  # [Single ''Never'' demo_settings]
            \<and> run_columns demo_runtime demo_posts (\<lambda>c i. None) ''out.progress'' 0
                (map with_defaults [Single ''Summary'' demo_settings]) ?zero
                \<lparr>rows = demo_rows, trace = []\<rparr>
              = Some (Inr (add_stats demo_runtime ?zero columnStats), ?S1)
            \<and> processColumn demo_runtime (demo_posts (length [Single ''Summary'' demo_settings]))
                (\<lambda>i. None) (with_defaults (Single ''Topic'' demo_settings)) ''out.progress'' ?S1
              = Some (Inl ?err, ?S2)"
    using ne cols r1 pc by simp
  have m: "main demo_runtime demo_posts (\<lambda>c i. None) None demo_three_columns demo_rows
          = Some (1, \<lparr>rows = rows ?S2,
                      trace = trace ?S2 @ [ConsoleError (''Error: '' @ e_message ?err)]\<rparr>)"
    by (rule inst [THEN conjunct2, THEN conjunct2, THEN conjunct2, THEN conjunct1, THEN mp,
                   OF h4, THEN conjunct1])
  have h5: "(0::nat) < 3 \<and> 0 < c_batchSize ?cfg10
            \<and> processBatch demo_runtime demo_post_down 0 (min (0 + c_batchSize ?cfg10) 3)
                (ColumnName ''Topic'') (c_modelName ?cfg10) (c_prompt ?cfg10)
                (or_null (c_modelPlugins ?cfg10)) (or_null (c_webSearchOptions ?cfg10)) 10 ?S1
              = (Inl ?err, ?S2)"
    using run2 by (simp add: demo_settings_def or_null_def)
  note c5 = inst [THEN conjunct2, THEN conjunct2, THEN conjunct2, THEN conjunct2, THEN mp, OF h5]
  have bl: "batch_loop demo_runtime demo_post_down (\<lambda>i. None) (ColumnName ''Topic'') ?cfg10
              ''out.progress'' 3 0 ?t0 ?S1 = Some (Inl ?err, ?S2)"
    by (rule c5 [THEN conjunct1])
  have len2: "length (rows ?S2) = 3"
    using c5 [THEN conjunct2, THEN conjunct1] len1 by simp
  have wB: "write_paths (trace ?B) = []"
    using processBatch_write_paths [of demo_runtime demo_post_ok 0 3 "ColumnName ''Summary''"
        "''m''" "''Sum {{Video}}''" None None 10 demo_state]
    by (simp add: demo_state_def)
  have w1: "write_paths (trace ?S1) = [''out.progress'']"
    using wB by (simp add: write_progress_trace write_paths_def)
  have w2: "write_paths (trace ?S2) = [''out.progress'']"
    using processBatch_write_paths [of demo_runtime demo_post_down 0 3 "ColumnName ''Topic''"
        "''m''" "''Sum {{Video}}''" None None 10 ?S1] w1
    by simp
  show ?thesis
    unfolding Let_def
    apply (intro conjI)
    subgoal by (rule ne)
    subgoal by (rule cols)
    subgoal unfolding r1 by simp
    subgoal by (rule pc)
    subgoal using m by simp
    subgoal by (rule w2)
    subgoal by (rule bl)
    subgoal by (rule len2)
    done
qed



section \<open>The checkpoint after a batch\<close>

text \<open>
  Whether the checkpoints can be written makes no difference to a column but for the
  warnings: results, rows and every other event are the same.
\<close>

lemma quiet_append [simp]: "quiet (xs @ ys) = quiet xs @ quiet ys"
  by (simp add: quiet_def)

lemma write_progress_quiet:
  "quiet (trace (write_progress failure path st))
   = quiet (trace st)
     @ (if path \<noteq> [] then [WriteCSV path (object_keys (rows st ! 0)) (rows st)] else [])"
  by (cases failure) (simp_all add: write_progress_def emit_def quiet_def is_warning_def)

lemma processBatch_same_rows:
  assumes "rows st = rows st'"
  shows "\<exists>res rs evs.
           processBatch rt post batchStart batchEnd columnInfo modelName prompt plugins
             webSearchOptions maxRetries st = (res, \<lparr>rows = rs, trace = trace st @ evs\<rparr>)
           \<and> processBatch rt post batchStart batchEnd columnInfo modelName prompt plugins
               webSearchOptions maxRetries st' = (res, \<lparr>rows = rs, trace = trace st' @ evs\<rparr>)"
proof -
  let ?s0 = "\<lparr>rows = rows st, trace = []\<rparr>"
  obtain res s where r: "processBatch rt post batchStart batchEnd columnInfo modelName prompt
                           plugins webSearchOptions maxRetries ?s0 = (res, s)"
    by (cases "processBatch rt post batchStart batchEnd columnInfo modelName prompt
                           plugins webSearchOptions maxRetries ?s0") simp
  have a: "st = prepend (trace st) ?s0" by (simp add: prepend_def)
  have b: "st' = prepend (trace st') ?s0" using assms by (simp add: prepend_def)
  have p: "prepend tr s = \<lparr>rows = rows s, trace = tr @ trace s\<rparr>" for tr
    by (cases s) (simp add: prepend_def)
  have 1: "processBatch rt post batchStart batchEnd columnInfo modelName prompt plugins
             webSearchOptions maxRetries st = (res, \<lparr>rows = rows s, trace = trace st @ trace s\<rparr>)"
    by (subst a, subst processBatch_prepend) (simp add: r p)
  have 2: "processBatch rt post batchStart batchEnd columnInfo modelName prompt plugins
             webSearchOptions maxRetries st' = (res, \<lparr>rows = rows s, trace = trace st' @ trace s\<rparr>)"
    by (subst b, subst processBatch_prepend) (simp add: r p)
  show ?thesis using 1 2 by blast
qed

lemma batch_loop_checkpoint_failures:
  assumes "rows st = rows st'" "quiet (trace st) = quiet (trace st')"
  shows "map_option (\<lambda>x. (fst x, rows (snd x), quiet (trace (snd x))))
           (batch_loop rt post ckpt columnInfo cfg path totalRows i acc st)
         = map_option (\<lambda>x. (fst x, rows (snd x), quiet (trace (snd x))))
             (batch_loop rt post ckpt' columnInfo cfg path totalRows i acc st')"
  using assms
proof (induction "totalRows - i" arbitrary: i acc st st' rule: less_induct)
  case less
  show ?case
  proof (cases "i < totalRows")
    case False
    then show ?thesis using less.prems by (simp add: batch_loop_end)
  next
    case True
    show ?thesis
    proof (cases "c_batchSize cfg = 0")
      case True
      then show ?thesis using \<open>i < totalRows\<close> by (simp add: batch_loop_stuck)
    next
      case False
      then have b: "0 < c_batchSize cfg" by simp
      let ?e = "min (i + c_batchSize cfg) totalRows"
      obtain res rs evs where
        pb: "processBatch rt post i ?e columnInfo (c_modelName cfg) (c_prompt cfg)
               (or_null (c_modelPlugins cfg)) (or_null (c_webSearchOptions cfg)) 10 st
             = (res, \<lparr>rows = rs, trace = trace st @ evs\<rparr>)"
        and pb': "processBatch rt post i ?e columnInfo (c_modelName cfg) (c_prompt cfg)
               (or_null (c_modelPlugins cfg)) (or_null (c_webSearchOptions cfg)) 10 st'
             = (res, \<lparr>rows = rs, trace = trace st' @ evs\<rparr>)"
        using processBatch_same_rows [OF less.prems(1)] by blast
      let ?s1 = "\<lparr>rows = rs, trace = trace st @ evs\<rparr>"
      let ?s1' = "\<lparr>rows = rs, trace = trace st' @ evs\<rparr>"
      have q1: "quiet (trace ?s1) = quiet (trace ?s1')" using less.prems(2) by simp
      show ?thesis
      proof (cases res)
        case (Inl err)
        have "batch_loop rt post ckpt columnInfo cfg path totalRows i acc st = Some (Inl err, ?s1)"
          using pb Inl by (intro batch_loop_failure [OF True b]) simp
        moreover have "batch_loop rt post ckpt' columnInfo cfg path totalRows i acc st'
                       = Some (Inl err, ?s1')"
          using pb' Inl by (intro batch_loop_failure [OF True b]) simp
        ultimately show ?thesis using q1 by simp
      next
        case (Inr batchResults)
        show ?thesis
        proof (cases "report_failure rt (aggregate rt acc batchResults) batchResults")
          case (Some err)
          have "batch_loop rt post ckpt columnInfo cfg path totalRows i acc st
                = Some (Inl err, ?s1)"
            using pb Inr Some by (intro batch_loop_report_failure [OF True b]) simp_all
          moreover have "batch_loop rt post ckpt' columnInfo cfg path totalRows i acc st'
                         = Some (Inl err, ?s1')"
            using pb' Inr Some by (intro batch_loop_report_failure [OF True b]) simp_all
          ultimately show ?thesis using q1 by simp
        next
          case None
          let ?st3 = "if ?e < totalRows \<and> 0 < c_cooldown cfg
                      then emit [Sleep (c_cooldown cfg)] (write_progress (ckpt i) path ?s1)
                      else write_progress (ckpt i) path ?s1"
          let ?st3' = "if ?e < totalRows \<and> 0 < c_cooldown cfg
                       then emit [Sleep (c_cooldown cfg)] (write_progress (ckpt' i) path ?s1')
                       else write_progress (ckpt' i) path ?s1'"
          have s: "batch_loop rt post ckpt columnInfo cfg path totalRows i acc st
                   = batch_loop rt post ckpt columnInfo cfg path totalRows (i + c_batchSize cfg)
                       (aggregate rt acc batchResults) ?st3"
            using pb Inr None by (intro batch_loop_step [OF True b]) simp_all
          have s': "batch_loop rt post ckpt' columnInfo cfg path totalRows i acc st'
                   = batch_loop rt post ckpt' columnInfo cfg path totalRows (i + c_batchSize cfg)
                       (aggregate rt acc batchResults) ?st3'"
            using pb' Inr None by (intro batch_loop_step [OF True b]) simp_all
          have r3: "rows ?st3 = rows ?st3'" by simp
          have q3: "quiet (trace ?st3) = quiet (trace ?st3')"
            using q1 by (simp add: write_progress_quiet)
          have m: "totalRows - (i + c_batchSize cfg) < totalRows - i" using True b by simp
          show ?thesis
            unfolding s s' by (rule less.hyps [OF m r3 q3])
        qed
      qed
    qed
  qed
qed

lemma processColumn_checkpoint_failures:
  "map_option (\<lambda>x. (fst x, rows (snd x), quiet (trace (snd x))))
     (processColumn rt post ckpt columnConfig path st)
   = map_option (\<lambda>x. (fst x, rows (snd x), quiet (trace (snd x))))
       (processColumn rt post ckpt' columnConfig path st)"
proof -
  let ?run = "\<lambda>k. batch_loop rt post k (column_info_of columnConfig) (settings_of columnConfig)
                path (length (rows st)) 0
                \<lparr>t_cost = JNum 0, t_promptTokens = JNum 0, t_completionTokens = JNum 0\<rparr> st"
  have e: "map_option (\<lambda>x. (fst x, rows (snd x), quiet (trace (snd x)))) (?run ckpt)
           = map_option (\<lambda>x. (fst x, rows (snd x), quiet (trace (snd x)))) (?run ckpt')"
    by (rule batch_loop_checkpoint_failures) simp_all
  show ?thesis
  proof (cases "?run ckpt")
    case None
    then have "?run ckpt' = None" using e by simp
    then show ?thesis using None by (simp add: processColumn_def)
  next
    case (Some x)
    then obtain y where y: "?run ckpt' = Some y" using e by (cases "?run ckpt'") simp_all
    have "fst x = fst y" "rows (snd x) = rows (snd y)"
      "quiet (trace (snd x)) = quiet (trace (snd y))"
      using e Some y by simp_all
    then show ?thesis
      unfolding processColumn_def Some y
      by (cases x; cases y) (auto split: sum.splits)
  qed
qed

text \<open>
  After a batch that has completed and whose report line has been printed, the loop writes
  all rows to the checkpoint path, with the keys of the first row as header, warns when the
  write has failed, and goes on with the next batch either way.
\<close>

lemma checkpoint_after_batch:
  assumes "i < totalRows" "0 < c_batchSize cfg" "path \<noteq> []"
    and "processBatch rt post i (min (i + c_batchSize cfg) totalRows) columnInfo (c_modelName cfg)
           (c_prompt cfg) (or_null (c_modelPlugins cfg)) (or_null (c_webSearchOptions cfg)) 10 st
         = (Inr batchResults, st1)"
    and "report_failure rt (aggregate rt acc batchResults) batchResults = None"
  shows "batch_loop rt post ckpt columnInfo cfg path totalRows i acc st
         = batch_loop rt post ckpt columnInfo cfg path totalRows (i + c_batchSize cfg)
             (aggregate rt acc batchResults)
             \<lparr>rows = rows st1,
              trace = trace st1
                @ [WriteCSV path (object_keys (rows st1 ! 0)) (rows st1)]
                @ (case ckpt i of
                     None \<Rightarrow> []
                   | Some msg \<Rightarrow> [ConsoleWarn (''    Failed to write progress file: '' @ msg)])
                @ (if min (i + c_batchSize cfg) totalRows < totalRows \<and> 0 < c_cooldown cfg
                   then [Sleep (c_cooldown cfg)] else [])\<rparr>"
proof -
  have "(if min (i + c_batchSize cfg) totalRows < totalRows \<and> 0 < c_cooldown cfg
         then emit [Sleep (c_cooldown cfg)] (write_progress (ckpt i) path st1)
         else write_progress (ckpt i) path st1)
        = \<lparr>rows = rows st1,
           trace = trace st1
             @ [WriteCSV path (object_keys (rows st1 ! 0)) (rows st1)]
             @ (case ckpt i of
                  None \<Rightarrow> []
                | Some msg \<Rightarrow> [ConsoleWarn (''    Failed to write progress file: '' @ msg)])
             @ (if min (i + c_batchSize cfg) totalRows < totalRows \<and> 0 < c_cooldown cfg
                then [Sleep (c_cooldown cfg)] else [])\<rparr>"
    using assms(3) by (simp add: write_progress_def emit_def)
  then show ?thesis
    using batch_loop_step [OF assms(1,2,4,5), of ckpt path] by simp
qed


end
